(* ===== verification/Floats.thy ===== *)
theory Floats
  imports Complex_Main Prelude
begin

text \<open>
  Rust's \<open>f32\<close> and \<open>f64\<close> as far as the sources use them: parsing with \<open>str::parse\<close>, the partial
  order, addition of a constant and conversion from integers. A finite value is the rational it
  denotes; the negative zero is kept apart because it prints differently.
\<close>

datatype flt = NaN | Infinity bool | NegZero | Finite rat

record float_format =
  precision :: nat
  emin :: int
  emax :: int

definition binary32 :: float_format where
  "binary32 = \<lparr>precision = 24, emin = - 126, emax = 127\<rparr>"

definition binary64 :: float_format where
  "binary64 = \<lparr>precision = 53, emin = - 1022, emax = 1023\<rparr>"

section \<open>Rounding to nearest, ties to even\<close>

fun bit_length :: "nat \<Rightarrow> nat" where
  "bit_length n = (if n = 0 then 0 else Suc (bit_length (n div 2)))"

declare bit_length.simps [simp del]

definition pow2 :: "int \<Rightarrow> rat" where
  "pow2 e = (if 0 \<le> e then 2 ^ nat e else 1 / 2 ^ nat (- e))"

text \<open>The exponent \<open>e\<close> with \<open>2^e \<le> x < 2^(e+1)\<close>, for positive \<open>x\<close>.\<close>

definition ilog2 :: "rat \<Rightarrow> int" where
  "ilog2 x =
     (let (a, b) = quotient_of x;
          e = int (bit_length (nat a)) - int (bit_length (nat b))
      in if pow2 e \<le> x then e else e - 1)"

definition round_half_even :: "rat \<Rightarrow> int" where
  "round_half_even x =
     (let f = \<lfloor>x\<rfloor>; d = x - of_int f
      in if d < 1 / 2 then f else if 1 / 2 < d then f + 1 else if even f then f else f + 1)"

definition round_float :: "float_format \<Rightarrow> bool \<Rightarrow> rat \<Rightarrow> flt" where
  "round_float fmt neg x =
     (let zero = (if neg then NegZero else Finite 0) in
      if x = 0 then zero
      else
        let e = max (emin fmt) (ilog2 x);
            q = pow2 (e - int (precision fmt) + 1);
            r = of_int (round_half_even (x / q)) * q
        in if pow2 (emax fmt + 1) \<le> r then Infinity neg
           else if r = 0 then zero
           else Finite (if neg then - r else r))"

section \<open>Parsing\<close>

text \<open>
  The grammar of \<open>f32::from_str\<close>: an optional sign, then \<open>inf\<close>, \<open>infinity\<close> or \<open>nan\<close> in any case,
  or digits with an optional point and an optional exponent; at least one digit in the mantissa
  and in the exponent.
\<close>

definition all_digits :: "string \<Rightarrow> bool" where
  "all_digits s = list_all is_ascii_digit s"

definition split_sign :: "string \<Rightarrow> bool \<times> string" where
  "split_sign s =
     (case strip_prefix ''-'' s of
        Some r \<Rightarrow> (True, r)
      | None \<Rightarrow> (case strip_prefix ''+'' s of Some r \<Rightarrow> (False, r) | None \<Rightarrow> (False, s)))"

definition parse_exponent :: "string \<Rightarrow> int option" where
  "parse_exponent s =
     (let (neg, ds) = split_sign s
      in if ds \<noteq> [] \<and> all_digits ds
         then Some (if neg then - int (digits_value ds) else int (digits_value ds)) else None)"

definition parse_decimal :: "string \<Rightarrow> rat option" where
  "parse_decimal s =
     (let (mant, ex) = (case split_once (CHR ''e'') s of
            None \<Rightarrow> (s, Some 0) | Some (m, x) \<Rightarrow> (m, parse_exponent x));
          (ip, fp) = (case split_once (CHR ''.'') mant of
            None \<Rightarrow> (mant, []) | Some (i, f) \<Rightarrow> (i, f))
      in if all_digits ip \<and> all_digits fp \<and> (ip \<noteq> [] \<or> fp \<noteq> [])
         then map_option (\<lambda>e. of_nat (digits_value (ip @ fp)) *
                (let k = e - int (length fp)
                 in if 0 \<le> k then 10 ^ nat k else 1 / 10 ^ nat (- k))) ex
         else None)"

definition parse_float :: "float_format \<Rightarrow> string \<Rightarrow> flt option" where
  "parse_float fmt s =
     (let (neg, body) = split_sign s; low = to_ascii_lowercase body
      in if low = ''nan'' then Some NaN
         else if low = ''inf'' \<or> low = ''infinity'' then Some (Infinity neg)
         else map_option (round_float fmt neg) (parse_decimal low))"

section \<open>Order and arithmetic\<close>

text \<open>\<open>a < b\<close> of \<open>partial_cmp\<close>; every comparison with a NaN is false.\<close>

fun float_less :: "flt \<Rightarrow> flt \<Rightarrow> bool" where
  "float_less NaN _ = False"
| "float_less _ NaN = False"
| "float_less (Infinity n) (Infinity m) = (n \<and> \<not> m)"
| "float_less (Infinity n) _ = n"
| "float_less _ (Infinity m) = (\<not> m)"
| "float_less NegZero NegZero = False"
| "float_less NegZero (Finite y) = (0 < y)"
| "float_less (Finite x) NegZero = (x < 0)"
| "float_less (Finite x) (Finite y) = (x < y)"

definition is_finite :: "flt \<Rightarrow> bool" where
  "is_finite x = (case x of Finite _ \<Rightarrow> True | NegZero \<Rightarrow> True | _ \<Rightarrow> False)"

definition float_of_int :: "float_format \<Rightarrow> int \<Rightarrow> flt" where
  "float_of_int fmt n = round_float fmt (n < 0) (of_int \<bar>n\<bar>)"

definition float_add :: "float_format \<Rightarrow> flt \<Rightarrow> rat \<Rightarrow> flt" where
  "float_add fmt x y =
     (case x of
        NaN \<Rightarrow> NaN
      | Infinity n \<Rightarrow> Infinity n
      | NegZero \<Rightarrow> round_float fmt (y < 0) \<bar>y\<bar>
      | Finite r \<Rightarrow> round_float fmt (r + y < 0) \<bar>r + y\<bar>)"

lemma float_less_irrefl [simp]: "\<not> float_less x x"
  by (cases x) auto

lemma float_less_trans: "float_less x y \<Longrightarrow> float_less y z \<Longrightarrow> float_less x z"
  by (cases x; cases y; cases z) auto

text \<open>Away from NaN the comparison is a strict weak order, so a sort by it is well defined.\<close>

lemma float_less_total:
  "y \<noteq> NaN \<Longrightarrow> float_less x z \<Longrightarrow> float_less x y \<or> float_less y z"
  by (cases x; cases y; cases z) auto

lemma float_less_NaN [simp]: "\<not> float_less NaN x" "\<not> float_less x NaN"
  by (cases x; simp)+

end
