(* ===== verification/Json.thy ===== *)
theory Json
  imports Floats
begin

text \<open>
  The document type every component exchanges: \<open>serde_json::Value\<close>, built without the
  \<open>preserve_order\<close> feature, so an object is a \<open>BTreeMap\<close> and iterates in key order. Only the
  accessors the sources call are given. A number is an unsigned 64-bit integer, a negative
  signed one, or a finite \<open>f64\<close>.
\<close>

datatype number = PosInt u64 | NegInt int | Float flt

datatype "value" =
    Null
  | Bool bool
  | Number number
  | Str string
  | Array "value list"
  | Object "(string \<times> value) list"

lemmas json_split = "value.split"
  and json_splits = "value.splits"
  and json_size = "value.size"
  and json_case = "value.case"

section \<open>Accessors\<close>

fun as_object :: "value \<Rightarrow> (string \<times> value) list option" where
  "as_object (Object m) = Some m"
| "as_object _ = None"

fun as_array :: "value \<Rightarrow> value list option" where
  "as_array (Array xs) = Some xs"
| "as_array _ = None"

fun as_str :: "value \<Rightarrow> string option" where
  "as_str (Str s) = Some s"
| "as_str _ = None"

fun as_bool :: "value \<Rightarrow> bool option" where
  "as_bool (Bool b) = Some b"
| "as_bool _ = None"

fun as_u64 :: "value \<Rightarrow> nat option" where
  "as_u64 (Number (PosInt n)) = Some (unat n)"
| "as_u64 _ = None"

fun as_i64 :: "value \<Rightarrow> int option" where
  "as_i64 (Number (PosInt n)) = (if unat n < 2 ^ 63 then Some (int (unat n)) else None)"
| "as_i64 (Number (NegInt n)) = Some n"
| "as_i64 _ = None"

fun as_f64 :: "value \<Rightarrow> flt option" where
  "as_f64 (Number (PosInt n)) = Some (float_of_int binary64 (int (unat n)))"
| "as_f64 (Number (NegInt n)) = Some (float_of_int binary64 n)"
| "as_f64 (Number (Float x)) = Some x"
| "as_f64 _ = None"

text \<open>\<open>Value::from\<close> on an \<open>i64\<close>, a \<open>u64\<close> and an \<open>f64\<close>: a float that is not finite becomes \<open>null\<close>.\<close>

definition value_of_i64 :: "int \<Rightarrow> value" where
  "value_of_i64 n = Number (if n < 0 then NegInt n else PosInt (of_int n))"

definition value_of_u64 :: "u64 \<Rightarrow> value" where
  "value_of_u64 n = Number (PosInt n)"

definition value_of_f64 :: "flt \<Rightarrow> value" where
  "value_of_f64 x = (if is_finite x then Number (Float x) else Null)"

text \<open>\<open>Value::get\<close> with a string index: a member of an object, nothing for other values.\<close>

definition get :: "value \<Rightarrow> string \<Rightarrow> value option" where
  "get v k = (case v of Object m \<Rightarrow> map_of m k | _ \<Rightarrow> None)"

lemma get_Object [simp]: "get (Object m) k = map_of m k"
  by (simp add: get_def)

lemma get_non_object [simp]:
  "get Null k = None" "get (Bool b) k = None" "get (Number n) k = None"
  "get (Str s) k = None" "get (Array xs) k = None"
  by (simp_all add: get_def)

lemma get_SomeE:
  assumes "get v k = Some w"
  obtains m where "v = Object m" "map_of m k = Some w"
  using assms by (cases v) auto

definition is_object :: "value \<Rightarrow> bool" where
  "is_object v = (case v of Object _ \<Rightarrow> True | _ \<Rightarrow> False)"

section \<open>Well-formedness\<close>

text \<open>Every object of the document is a strictly sorted map, as every \<open>BTreeMap\<close> is.\<close>

fun wf_value :: "value \<Rightarrow> bool" where
  "wf_value (Array xs) = (\<forall>x\<in>set xs. wf_value x)"
| "wf_value (Object m) = (bt_wf m \<and> (\<forall>kv\<in>set m. wf_value (snd kv)))"
| "wf_value (Number (NegInt n)) = (- (2 ^ 63) \<le> n \<and> n < 0)"
| "wf_value (Number (Float x)) = is_finite x"
| "wf_value _ = True"

lemma wf_value_get: "wf_value v \<Longrightarrow> get v k = Some w \<Longrightarrow> wf_value w"
  by (fastforce elim!: get_SomeE dest!: map_of_SomeD)

end
