(* ===== verification/Store.thy ===== *)
theory Store
  imports Json
begin

text \<open>
  The resource store of one scenario instance, \<open>specmock-core/src/store.rs\<close>: its key, error and
  action types, its state (two concurrent maps, a capacity and a live count) and every operation,
  as a request handler runs them one at a time. The contract the scenario runtime relies on is
  the locale \<open>resource_store\<close>, stated over an abstract view that gives each namespace its
  resources in creation order.
\<close>

section \<open>Data\<close>

datatype store_key = StoreKey (namespace: string) (key_id: string)

instantiation store_key :: linorder
begin

definition less_eq_store_key :: "store_key \<Rightarrow> store_key \<Rightarrow> bool" where
  "less_eq_store_key a b \<longleftrightarrow>
     namespace a < namespace b \<or> namespace a = namespace b \<and> key_id a \<le> key_id b"

definition less_store_key :: "store_key \<Rightarrow> store_key \<Rightarrow> bool" where
  "less_store_key a b \<longleftrightarrow>
     namespace a < namespace b \<or> namespace a = namespace b \<and> key_id a < key_id b"

instance
  by intro_classes (auto simp: less_eq_store_key_def less_store_key_def store_key.expand)

end

definition store_key_display :: "store_key \<Rightarrow> string" where
  "store_key_display k = namespace k @ ''/'' @ key_id k"

datatype store_action = Create | Read | Update | Delete | List

datatype store_error =
    NotFound store_key
  | AlreadyExists store_key
  | CapacityExceeded usize

record store =
  store_entries :: "(store_key \<times> value) list"
  store_order :: "(string \<times> string list) list"
  store_limit :: usize
  store_count :: usize

section \<open>Operations\<close>

definition store_new :: "usize \<Rightarrow> store" where
  "store_new cap = \<lparr>store_entries = [], store_order = [], store_limit = cap, store_count = 0\<rparr>"

definition store_read :: "store \<Rightarrow> store_key \<Rightarrow> value option" where
  "store_read s k = map_of (store_entries s) k"

definition store_create :: "store \<Rightarrow> store_key \<Rightarrow> value \<Rightarrow> (store_error + unit) \<times> store" where
  "store_create s k v =
     (if store_count s \<ge> store_limit s then (Inl (CapacityExceeded (store_limit s)), s)
      else
        let s = s\<lparr>store_count := store_count s + 1\<rparr> in
        case map_of (store_entries s) k of
          Some _ \<Rightarrow> (Inl (AlreadyExists k), s\<lparr>store_count := store_count s - 1\<rparr>)
        | None \<Rightarrow>
            let s = s\<lparr>store_entries := (k, v) # store_entries s\<rparr> in
            if map_of (store_order s) (namespace k) = None
            then (Inr (), s\<lparr>store_order := (namespace k, [key_id k]) # store_order s\<rparr>)
            else (Inr (), s\<lparr>store_order :=
                    AList.map_entry (namespace k) (\<lambda>ids. ids @ [key_id k]) (store_order s)\<rparr>))"

definition store_update :: "store \<Rightarrow> store_key \<Rightarrow> value \<Rightarrow> (store_error + unit) \<times> store" where
  "store_update s k v =
     (case map_of (store_entries s) k of
        None \<Rightarrow> (Inl (NotFound k), s)
      | Some _ \<Rightarrow>
          (Inr (), s\<lparr>store_entries := AList.map_entry k (\<lambda>_. v) (store_entries s)\<rparr>))"

definition store_delete :: "store \<Rightarrow> store_key \<Rightarrow> (store_error + unit) \<times> store" where
  "store_delete s k =
     (case map_of (store_entries s) k of
        None \<Rightarrow> (Inl (NotFound k), s)
      | Some _ \<Rightarrow>
          let s = s\<lparr>store_entries := AList.delete k (store_entries s)\<rparr>;
              s = s\<lparr>store_count := store_count s - 1\<rparr>
          in (Inr (), s\<lparr>store_order :=
                AList.map_entry (namespace k) (filter (\<lambda>x. x \<noteq> key_id k)) (store_order s)\<rparr>))"

definition store_list :: "store \<Rightarrow> string \<Rightarrow> value list" where
  "store_list s ns =
     (case map_of (store_order s) ns of
        None \<Rightarrow> []
      | Some ids \<Rightarrow> List.map_filter (\<lambda>i. store_read s (StoreKey ns i)) ids)"

definition store_len :: "store \<Rightarrow> usize" where
  "store_len s = store_count s"

definition store_is_empty :: "store \<Rightarrow> bool" where
  "store_is_empty s = (store_entries s = [])"

definition store_clear :: "store \<Rightarrow> usize \<times> store" where
  "store_clear s =
     (store_count s, s\<lparr>store_entries := [], store_order := [], store_count := 0\<rparr>)"

lemmas store_op_defs [op_simps] = store_new_def store_read_def store_create_def store_update_def
  store_delete_def store_list_def store_len_def store_is_empty_def store_clear_def

section \<open>Invariant\<close>

definition ordered_ids :: "store \<Rightarrow> string \<Rightarrow> string list" where
  "ordered_ids s ns = (case map_of (store_order s) ns of None \<Rightarrow> [] | Some ids \<Rightarrow> ids)"

definition store_inv :: "store \<Rightarrow> bool" where
  "store_inv s \<longleftrightarrow>
     distinct (map fst (store_entries s)) \<and>
     distinct (map fst (store_order s)) \<and>
     unat (store_count s) = length (store_entries s) \<and>
     store_count s \<le> store_limit s \<and>
     (\<forall>ns. distinct (ordered_ids s ns) \<and>
        (\<forall>i. i \<in> set (ordered_ids s ns) \<longleftrightarrow> map_of (store_entries s) (StoreKey ns i) \<noteq> None))"


lemma store_inv_new: "store_inv (store_new cap)"
  by (simp add: store_inv_def store_new_def ordered_ids_def)

lemma map_of_map_entry:
  "map_of (AList.map_entry k f m) = (map_of m)(k := map_option f (map_of m k))"
  by (induction m) auto

lemma fst_map_entry [simp]: "map fst (AList.map_entry k f m) = map fst m"
  by (induction m) auto

lemma length_delete:
  "distinct (map fst m) \<Longrightarrow> map_of m k = Some v \<Longrightarrow> Suc (length (AList.delete k m)) = length m"
proof (induction m)
  case (Cons a m)
  show ?case
  proof (cases "fst a = k")
    case True
    with Cons.prems have "map_of m k = None" by (auto simp: map_of_eq_None_iff)
    then have "AList.delete k m = m"
      by (simp add: AList.delete_eq map_of_eq_None_iff filter_id_conv) force
    with True show ?thesis by (cases a) (simp add: AList.delete_eq)
  qed (use Cons in \<open>auto simp: AList.delete_eq\<close>)
qed simp

lemma unat_Suc_less: "(n::usize) < m \<Longrightarrow> unat (n + 1) = Suc (unat n)"
  using unsigned_less [of m, where ?'a = nat] by (simp add: unat_word_ariths word_less_nat_alt)

text \<open>The creation-order index after each operation.\<close>

lemma ordered_ids_order_cong: "store_order s = store_order t \<Longrightarrow> ordered_ids s = ordered_ids t"
  by (simp add: ordered_ids_def fun_eq_iff)

lemma store_create_fresh:
  assumes inv: "store_inv s" and room: "store_count s < store_limit s"
    and free: "store_read s k = None"
  shows "\<exists>s'. store_create s k v = (Inr (), s') \<and> store_inv s' \<and>
           map_of (store_entries s') = (map_of (store_entries s))(k \<mapsto> v) \<and>
           ordered_ids s' = (ordered_ids s)(namespace k := ordered_ids s (namespace k) @ [key_id k]) \<and>
           store_limit s' = store_limit s \<and> store_count s' = store_count s + 1"
proof -
  let ?ns = "namespace k"
  define s' where "s' = snd (store_create s k v)"
  have created: "store_create s k v = (Inr (), s')"
    using room free by (auto simp: s'_def store_create_def store_read_def Let_def)
  have entries: "store_entries s' = (k, v) # store_entries s"
    and fixed: "store_limit s' = store_limit s" "store_count s' = store_count s + 1"
    using room free by (auto simp: s'_def store_create_def store_read_def Let_def)
  have order: "store_order s' =
      (if map_of (store_order s) ?ns = None then (?ns, [key_id k]) # store_order s
       else AList.map_entry ?ns (\<lambda>ids. ids @ [key_id k]) (store_order s))"
    using room free by (auto simp: s'_def store_create_def store_read_def Let_def)
  have ids: "ordered_ids s' = (ordered_ids s)(?ns := ordered_ids s ?ns @ [key_id k])"
    by (auto simp: ordered_ids_def order map_of_map_entry fun_eq_iff split: option.splits)
  have keys: "distinct (map fst (store_order s'))"
    using inv by (auto simp: order store_inv_def map_of_eq_None_iff)
  have key: "StoreKey ns i = k \<longleftrightarrow> ns = ?ns \<and> i = key_id k" for ns i
    by (cases k) auto
  have new: "k \<notin> fst ` set (store_entries s)"
    using free by (simp add: store_read_def map_of_eq_None_iff)
  have "store_inv s'"
    using inv free keys new unat_Suc_less [OF room] inc_le [OF room]
    by (auto simp: store_inv_def entries ids fixed key store_read_def)
  with created show ?thesis by (auto simp: entries ids fixed)
qed

lemma store_update_present:
  assumes inv: "store_inv s" and old: "store_read s k = Some w"
  shows "\<exists>s'. store_update s k v = (Inr (), s') \<and> store_inv s' \<and>
           map_of (store_entries s') = (map_of (store_entries s))(k \<mapsto> v) \<and>
           ordered_ids s' = ordered_ids s \<and>
           store_limit s' = store_limit s \<and> store_count s' = store_count s"
proof -
  define s' where "s' = s\<lparr>store_entries := AList.map_entry k (\<lambda>_. v) (store_entries s)\<rparr>"
  have ids: "ordered_ids s' = ordered_ids s"
    by (rule ordered_ids_order_cong) (simp add: s'_def)
  have entries: "map_of (store_entries s') = (map_of (store_entries s))(k \<mapsto> v)"
    using old by (simp add: s'_def store_read_def map_of_map_entry)
  have "length (store_entries s') = length (store_entries s)"
    by (metis fst_map_entry length_map s'_def store.select_convs(1) store.surjective
        store.update_convs(1))
  then have "store_inv s'"
    using inv old by (auto simp: store_inv_def ids entries store_read_def) (simp_all add: s'_def)
  moreover have "store_update s k v = (Inr (), s')"
    using old by (simp add: store_update_def store_read_def s'_def)
  ultimately show ?thesis using ids entries by (auto simp: s'_def)
qed

lemma store_delete_present:
  assumes inv: "store_inv s" and old: "store_read s k = Some w"
  shows "\<exists>s'. store_delete s k = (Inr (), s') \<and> store_inv s' \<and>
           map_of (store_entries s') = (map_of (store_entries s))(k := None) \<and>
           ordered_ids s' = (ordered_ids s)
             (namespace k := filter (\<lambda>i. i \<noteq> key_id k) (ordered_ids s (namespace k))) \<and>
           store_limit s' = store_limit s \<and> store_count s' = store_count s - 1"
proof -
  let ?ns = "namespace k"
  define s' where "s' = snd (store_delete s k)"
  have deleted: "store_delete s k = (Inr (), s')"
    and entries: "store_entries s' = AList.delete k (store_entries s)"
    and fixed: "store_limit s' = store_limit s" "store_count s' = store_count s - 1"
    and order: "store_order s' = AList.map_entry ?ns (filter (\<lambda>i. i \<noteq> key_id k)) (store_order s)"
    using old by (auto simp: s'_def store_delete_def store_read_def Let_def)
  have map: "map_of (store_entries s') = (map_of (store_entries s))(k := None)"
    by (simp add: entries AList.delete_conv')
  have ids: "ordered_ids s' = (ordered_ids s)
      (?ns := filter (\<lambda>i. i \<noteq> key_id k) (ordered_ids s ?ns))"
    by (auto simp: ordered_ids_def order map_of_map_entry fun_eq_iff split: option.splits)
  have key: "StoreKey ns i = k \<longleftrightarrow> ns = ?ns \<and> i = key_id k" for ns i
    by (cases k) auto
  have len: "Suc (length (store_entries s')) = length (store_entries s)"
    using inv old by (auto simp: entries store_inv_def store_read_def intro: length_delete)
  have pos: "store_count s \<noteq> 0"
    using inv len by (auto simp: store_inv_def)
  then have cnt: "unat (store_count s') = length (store_entries s')"
    using inv len unat_gt_0 [of "store_count s"]
    by (simp add: fixed store_inv_def unat_minus_one)
  have "store_count s' \<le> store_limit s'"
    using inv pos by (auto simp: fixed store_inv_def word_le_nat_alt unat_minus_one)
  with cnt have "store_inv s'"
    using inv by (auto simp: store_inv_def map ids key order) (simp add: entries AList.distinct_delete)
  with deleted show ?thesis by (auto simp: map ids fixed)
qed

lemma store_clear_inv: "store_inv (snd (store_clear s))"
  by (simp add: store_inv_def store_clear_def ordered_ids_def)


section \<open>The contract\<close>

text \<open>
  What a client may rely on: a view that lists each namespace's resources in creation order, and
  the effect and result of every operation on it. Nothing is evicted, a refused operation
  changes nothing, and the capacity is reported before a collision.
\<close>

locale resource_store =
  fixes inv :: "'s \<Rightarrow> bool"
    and view :: "'s \<Rightarrow> string \<Rightarrow> (string \<times> 'v) list"
    and full :: "'s \<Rightarrow> bool"
    and capacity :: "'s \<Rightarrow> usize"
    and create :: "'s \<Rightarrow> store_key \<Rightarrow> 'v \<Rightarrow> (store_error + unit) \<times> 's"
    and read :: "'s \<Rightarrow> store_key \<Rightarrow> 'v option"
    and update :: "'s \<Rightarrow> store_key \<Rightarrow> 'v \<Rightarrow> (store_error + unit) \<times> 's"
    and delete :: "'s \<Rightarrow> store_key \<Rightarrow> (store_error + unit) \<times> 's"
    and list :: "'s \<Rightarrow> string \<Rightarrow> 'v list"
  assumes view_distinct: "inv s \<Longrightarrow> distinct (map fst (view s ns))"
    and read_view: "inv s \<Longrightarrow> read s k = map_of (view s (namespace k)) (key_id k)"
    and list_view: "inv s \<Longrightarrow> list s ns = map snd (view s ns)"
    and create_full: "inv s \<Longrightarrow> full s \<Longrightarrow> create s k v = (Inl (CapacityExceeded (capacity s)), s)"
    and create_taken:
      "inv s \<Longrightarrow> \<not> full s \<Longrightarrow> read s k = Some w \<Longrightarrow> create s k v = (Inl (AlreadyExists k), s)"
    and create_fresh:
      "inv s \<Longrightarrow> \<not> full s \<Longrightarrow> read s k = None \<Longrightarrow>
         \<exists>s'. create s k v = (Inr (), s') \<and> inv s' \<and>
           view s' = (view s)(namespace k := view s (namespace k) @ [(key_id k, v)])"
    and update_absent: "inv s \<Longrightarrow> read s k = None \<Longrightarrow> update s k v = (Inl (NotFound k), s)"
    and update_present:
      "inv s \<Longrightarrow> read s k = Some w \<Longrightarrow>
         \<exists>s'. update s k v = (Inr (), s') \<and> inv s' \<and>
           view s' = (view s)(namespace k :=
             map (\<lambda>(i, x). (i, if i = key_id k then v else x)) (view s (namespace k)))"
    and delete_absent: "inv s \<Longrightarrow> read s k = None \<Longrightarrow> delete s k = (Inl (NotFound k), s)"
    and delete_present:
      "inv s \<Longrightarrow> read s k = Some w \<Longrightarrow>
         \<exists>s'. delete s k = (Inr (), s') \<and> inv s' \<and>
           view s' = (view s)(namespace k :=
             filter (\<lambda>(i, x). i \<noteq> key_id k) (view s (namespace k)))"
begin

lemma map_of_view_update:
  "map_of (map (\<lambda>(i, x). (i, if i = j then v else x)) xs) =
     (map_of xs)(j := map_option (\<lambda>_. v) (map_of xs j))"
  by (induction xs) auto

lemma map_of_view_filter: "map_of (filter (\<lambda>(i, x). i \<noteq> j) xs) = (map_of xs)(j := None)"
  by (induction xs) auto

lemmas create_laws = create_full create_taken create_fresh

lemma create_inv: "inv s \<Longrightarrow> inv (snd (create s k v))"
  using create_laws [of s k, where v = v] by (cases "full s"; cases "read s k") auto

lemma update_inv: "inv s \<Longrightarrow> inv (snd (update s k v))"
  using update_absent [of s k v] update_present [of s k _ v] by (cases "read s k") auto

lemma delete_inv: "inv s \<Longrightarrow> inv (snd (delete s k))"
  using delete_absent [of s k] delete_present [of s k] by (cases "read s k") auto

lemma create_ok_iff: "inv s \<Longrightarrow> fst (create s k v) = Inr () \<longleftrightarrow> \<not> full s \<and> read s k = None"
  using create_laws [of s k, where v = v] by (cases "full s"; cases "read s k") auto

lemma create_view:
  "inv s \<Longrightarrow> create s k v = (Inr (), s') \<Longrightarrow>
     inv s' \<and> view s' = (view s)(namespace k := view s (namespace k) @ [(key_id k, v)])"
  using create_ok_iff [of s k v] create_fresh [of s k v] by auto

lemma read_after_create:
  assumes "inv s" and "create s k v = (Inr (), s')"
  shows "read s' k' = (if k' = k then Some v else read s k')"
proof -
  have "inv s'" and view: "view s' = (view s)(namespace k := view s (namespace k) @ [(key_id k, v)])"
    using create_view assms by blast+
  moreover have "read s k = None"
    using create_ok_iff [of s k v] assms by simp
  ultimately show ?thesis
    using assms(1) by (cases k; cases k') (auto simp: read_view map_add_def split: option.splits)
qed

lemma list_after_create:
  "inv s \<Longrightarrow> create s k v = (Inr (), s') \<Longrightarrow>
     list s' ns = (if ns = namespace k then list s ns @ [v] else list s ns)"
  using create_view [of s k v s'] by (simp add: list_view)

lemma update_ok_iff: "inv s \<Longrightarrow> fst (update s k v) = Inr () \<longleftrightarrow> read s k \<noteq> None"
  using update_absent [of s k v] update_present [of s k _ v] by (cases "read s k") auto

lemma read_after_update:
  assumes "inv s" and "update s k v = (Inr (), s')"
  shows "read s' k' = (if k' = k then Some v else read s k')"
proof -
  obtain w where old: "read s k = Some w"
    using update_ok_iff [of s k v] assms by auto
  with assms have "inv s'" and "view s' = (view s)(namespace k :=
      map (\<lambda>(i, x). (i, if i = key_id k then v else x)) (view s (namespace k)))"
    using update_present [of s k w v] by auto
  with old show ?thesis
    using assms(1) by (cases k; cases k') (auto simp: read_view map_of_view_update)
qed

lemma delete_ok_iff: "inv s \<Longrightarrow> fst (delete s k) = Inr () \<longleftrightarrow> read s k \<noteq> None"
  using delete_absent [of s k] delete_present [of s k] by (cases "read s k") auto

lemma read_after_delete:
  assumes "inv s" and "delete s k = (Inr (), s')"
  shows "read s' k' = (if k' = k then None else read s k')"
proof -
  obtain w where old: "read s k = Some w"
    using delete_ok_iff [of s k] assms by auto
  with assms have "inv s'" and "view s' = (view s)(namespace k :=
      filter (\<lambda>(i, x). i \<noteq> key_id k) (view s (namespace k)))"
    using delete_present [of s k w] by auto
  then show ?thesis
    using assms(1) by (cases k; cases k') (auto simp: read_view map_of_view_filter)
qed

end

section \<open>The store meets the contract\<close>

definition store_view :: "store \<Rightarrow> string \<Rightarrow> (string \<times> value) list" where
  "store_view s ns =
     map (\<lambda>i. (i, the (map_of (store_entries s) (StoreKey ns i)))) (ordered_ids s ns)"

definition store_full :: "store \<Rightarrow> bool" where
  "store_full s \<longleftrightarrow> store_limit s \<le> store_count s"

lemma store_inv_ids:
  "store_inv s \<Longrightarrow> i \<in> set (ordered_ids s ns) \<longleftrightarrow> store_read s (StoreKey ns i) \<noteq> None"
  by (simp add: store_inv_def store_read_def)

lemma store_inv_distinct_ids: "store_inv s \<Longrightarrow> distinct (ordered_ids s ns)"
  by (simp add: store_inv_def)

lemma store_view_read:
  "store_view s ns = map (\<lambda>i. (i, the (store_read s (StoreKey ns i)))) (ordered_ids s ns)"
  by (simp add: store_view_def store_read_def)

lemma map_of_store_view:
  assumes "store_inv s"
  shows "map_of (store_view s ns) i = store_read s (StoreKey ns i)"
proof -
  have "map_of (map (\<lambda>i. (i, f i)) ids) i = (if i \<in> set ids then Some (f i) else None)"
    for f :: "string \<Rightarrow> value" and ids
    by (induction ids) auto
  then show ?thesis using store_inv_ids [OF assms] by (auto simp: store_view_read)
qed

lemma map_filter_total: "\<forall>x\<in>set xs. f x \<noteq> None \<Longrightarrow> List.map_filter f xs = map (\<lambda>x. the (f x)) xs"
  by (induction xs) (auto simp: List.map_filter_simps)

interpretation sto: resource_store store_inv store_view store_full store_limit store_create
  store_read store_update store_delete store_list
proof (unfold_locales, goal_cases)
  case (1 s ns)
  then show ?case by (simp add: store_view_def store_inv_distinct_ids comp_def)
next
  case (2 s k)
  then show ?case by (cases k) (simp add: map_of_store_view)
next
  case (3 s ns)
  then have "store_list s ns = map (\<lambda>i. the (store_read s (StoreKey ns i))) (ordered_ids s ns)"
    using store_inv_ids [OF 3, of _ ns]
    by (auto simp: store_list_def ordered_ids_def split: option.splits intro!: map_filter_total)
  then show ?case by (simp add: store_view_read)
next
  case (4 s k v)
  then show ?case by (simp add: store_full_def store_create_def)
next
  case (5 s k w v)
  then show ?case by (simp add: store_full_def store_create_def store_read_def Let_def)
next
  case (6 s k v)
  then obtain s' where "store_create s k v = (Inr (), s')" "store_inv s'"
    and map: "map_of (store_entries s') = (map_of (store_entries s))(k \<mapsto> v)"
    and ids: "ordered_ids s' =
      (ordered_ids s)(namespace k := ordered_ids s (namespace k) @ [key_id k])"
    using store_create_fresh [of s k v] by (auto simp: store_full_def not_le)
  moreover have "StoreKey (namespace k) i \<noteq> k" if "i \<in> set (ordered_ids s (namespace k))" for i
    using that 6 store_inv_ids [of s i "namespace k"] by auto
  ultimately show ?case by (cases k) (auto simp: store_view_def fun_eq_iff)
next
  case (7 s k v)
  then show ?case by (simp add: store_update_def store_read_def)
next
  case (8 s k w v)
  then obtain s' where "store_update s k v = (Inr (), s')" "store_inv s'"
    and "map_of (store_entries s') = (map_of (store_entries s))(k \<mapsto> v)"
    and "ordered_ids s' = ordered_ids s"
    using store_update_present [of s k w v] by auto
  then show ?case by (cases k) (auto simp: store_view_def fun_eq_iff)
next
  case (9 s k)
  then show ?case by (simp add: store_delete_def store_read_def)
next
  case (10 s k w)
  then obtain s' where "store_delete s k = (Inr (), s')" "store_inv s'"
    and "map_of (store_entries s') = (map_of (store_entries s))(k := None)"
    and "ordered_ids s' = (ordered_ids s)
      (namespace k := filter (\<lambda>i. i \<noteq> key_id k) (ordered_ids s (namespace k)))"
    using store_delete_present [of s k w] by auto
  then show ?case by (cases k) (auto simp: store_view_def fun_eq_iff filter_map comp_def)
qed

end
