(* ===== verification/Store_Spec.thy ===== *)
theory Store_Spec
  imports Store
begin

text \<open>
  An abstract store and the proof that \<open>store.rs\<close> implements it. The abstract state is one list of
  resources in the order they were created; the concrete one keeps a hash map, a separate index
  per namespace and a counter. The two are observationally equal: every sequence of requests
  gets the same sequence of replies.
\<close>

section \<open>Requests and replies\<close>

datatype store_request =
    ReqCreate store_key "value"
  | ReqRead store_key
  | ReqUpdate store_key "value"
  | ReqDelete store_key
  | ReqList string
  | ReqLen
  | ReqIsEmpty
  | ReqClear

datatype store_reply =
    Outcome "store_error + unit"
  | Found "value option"
  | Listing "value list"
  | Size usize
  | Flag bool

definition store_exec :: "store \<Rightarrow> store_request \<Rightarrow> store_reply \<times> store" where
  "store_exec s r =
     (case r of
        ReqCreate k v \<Rightarrow> map_prod Outcome id (store_create s k v)
      | ReqRead k \<Rightarrow> (Found (store_read s k), s)
      | ReqUpdate k v \<Rightarrow> map_prod Outcome id (store_update s k v)
      | ReqDelete k \<Rightarrow> map_prod Outcome id (store_delete s k)
      | ReqList ns \<Rightarrow> (Listing (store_list s ns), s)
      | ReqLen \<Rightarrow> (Size (store_len s), s)
      | ReqIsEmpty \<Rightarrow> (Flag (store_is_empty s), s)
      | ReqClear \<Rightarrow> map_prod Size id (store_clear s))"

fun store_run :: "store \<Rightarrow> store_request list \<Rightarrow> store_reply list" where
  "store_run s [] = []"
| "store_run s (r # rs) = (let (a, s') = store_exec s r in a # store_run s' rs)"

section \<open>The abstract store\<close>

type_synonym log = "(store_key \<times> value) list"

definition spec_exec :: "usize \<Rightarrow> log \<Rightarrow> store_request \<Rightarrow> store_reply \<times> log" where
  "spec_exec cap l r =
     (case r of
        ReqCreate k v \<Rightarrow>
          if unat cap \<le> length l then (Outcome (Inl (CapacityExceeded cap)), l)
          else if map_of l k \<noteq> None then (Outcome (Inl (AlreadyExists k)), l)
          else (Outcome (Inr ()), l @ [(k, v)])
      | ReqRead k \<Rightarrow> (Found (map_of l k), l)
      | ReqUpdate k v \<Rightarrow>
          if map_of l k = None then (Outcome (Inl (NotFound k)), l)
          else (Outcome (Inr ()), AList.map_entry k (\<lambda>_. v) l)
      | ReqDelete k \<Rightarrow>
          if map_of l k = None then (Outcome (Inl (NotFound k)), l)
          else (Outcome (Inr ()), AList.delete k l)
      | ReqList ns \<Rightarrow> (Listing (map snd (filter (\<lambda>e. namespace (fst e) = ns) l)), l)
      | ReqLen \<Rightarrow> (Size (of_nat (length l)), l)
      | ReqIsEmpty \<Rightarrow> (Flag (l = []), l)
      | ReqClear \<Rightarrow> (Size (of_nat (length l)), []))"

fun spec_run :: "usize \<Rightarrow> log \<Rightarrow> store_request list \<Rightarrow> store_reply list" where
  "spec_run cap l [] = []"
| "spec_run cap l (r # rs) = (let (a, l') = spec_exec cap l r in a # spec_run cap l' rs)"

section \<open>The simulation\<close>

definition represents :: "usize \<Rightarrow> store \<Rightarrow> log \<Rightarrow> bool" where
  "represents cap s l \<longleftrightarrow>
     store_inv s \<and> store_limit s = cap \<and> distinct (map fst l) \<and>
     map_of (store_entries s) = map_of l \<and>
     unat (store_count s) = length l \<and>
     (\<forall>ns. ordered_ids s ns = map (\<lambda>e. key_id (fst e)) (filter (\<lambda>e. namespace (fst e) = ns) l))"

lemma representsD:
  assumes "represents cap s l"
  shows "store_inv s" "store_limit s = cap" "distinct (map fst l)"
    "store_read s = map_of l" "unat (store_count s) = length l"
    "ordered_ids s ns = map (\<lambda>e. key_id (fst e)) (filter (\<lambda>e. namespace (fst e) = ns) l)"
  using assms by (auto simp: represents_def store_read_def)

lemma represents_new: "represents cap (store_new cap) []"
  by (simp add: represents_def store_inv_new) (simp add: store_new_def ordered_ids_def)

lemma represents_clear: "represents cap s l \<Longrightarrow> represents cap (snd (store_clear s)) []"
  by (simp add: represents_def store_clear_inv) (simp add: store_clear_def ordered_ids_def)

lemma represents_create:
  assumes rep: "represents cap s l" and room: "length l < unat cap" and free: "map_of l k = None"
  shows "\<exists>s'. store_create s k v = (Inr (), s') \<and> represents cap s' (l @ [(k, v)])"
proof -
  note R = representsD [OF rep]
  have lt: "store_count s < store_limit s"
    using room by (simp add: word_less_nat_alt R)
  with free obtain s' where s': "store_create s k v = (Inr (), s')" "store_inv s'"
    "map_of (store_entries s') = (map_of (store_entries s))(k \<mapsto> v)"
    "ordered_ids s' = (ordered_ids s)(namespace k := ordered_ids s (namespace k) @ [key_id k])"
    "store_limit s' = store_limit s" "store_count s' = store_count s + 1"
    using store_create_fresh [of s k v] R(1,4) by auto
  moreover have "map_of (store_entries s) = map_of l"
    using rep by (simp add: represents_def)
  moreover have "map_of (l @ [(k, v)]) = (map_of l)(k \<mapsto> v)"
    using free by (auto simp: fun_eq_iff map_add_def split: option.splits)
  moreover have "k \<notin> fst ` set l"
    using free by (simp add: map_of_eq_None_iff)
  ultimately have "represents cap s' (l @ [(k, v)])"
    using R unat_Suc_less [OF lt] by (simp add: represents_def)
  with s'(1) show ?thesis by blast
qed

lemma map_entry_keys:
  "map (\<lambda>e. key_id (fst e)) (filter (\<lambda>e. namespace (fst e) = ns) (AList.map_entry k f l)) =
   map (\<lambda>e. key_id (fst e)) (filter (\<lambda>e. namespace (fst e) = ns) l)"
  by (induction l) auto

lemma represents_update:
  assumes rep: "represents cap s l" and old: "map_of l k = Some w"
  shows "\<exists>s'. store_update s k v = (Inr (), s') \<and> represents cap s' (AList.map_entry k (\<lambda>_. v) l)"
proof -
  note R = representsD [OF rep]
  obtain s' where s': "store_update s k v = (Inr (), s')" "store_inv s'"
    "map_of (store_entries s') = (map_of (store_entries s))(k \<mapsto> v)"
    "ordered_ids s' = ordered_ids s"
    "store_limit s' = store_limit s" "store_count s' = store_count s"
    using store_update_present [of s k w v] R(1,4) old by auto
  have "map_of (store_entries s) = map_of l"
    using rep by (simp add: represents_def)
  moreover have "length (AList.map_entry k (\<lambda>_. v) l) = length l"
    by (metis fst_map_entry length_map)
  ultimately have "represents cap s' (AList.map_entry k (\<lambda>_. v) l)"
    using R old s' by (simp add: represents_def map_of_map_entry map_entry_keys)
  with s'(1) show ?thesis by blast
qed

lemma delete_keys:
  "map (\<lambda>e. key_id (fst e)) (filter (\<lambda>e. namespace (fst e) = ns) (AList.delete k l)) =
   (if ns = namespace k
    then filter (\<lambda>i. i \<noteq> key_id k)
           (map (\<lambda>e. key_id (fst e)) (filter (\<lambda>e. namespace (fst e) = ns) l))
    else map (\<lambda>e. key_id (fst e)) (filter (\<lambda>e. namespace (fst e) = ns) l))"
  by (induction l) (auto simp: AList.delete_eq store_key.expand)

lemma represents_delete:
  assumes rep: "represents cap s l" and old: "map_of l k = Some w"
  shows "\<exists>s'. store_delete s k = (Inr (), s') \<and> represents cap s' (AList.delete k l)"
proof -
  note R = representsD [OF rep]
  obtain s' where s': "store_delete s k = (Inr (), s')" "store_inv s'"
    "map_of (store_entries s') = (map_of (store_entries s))(k := None)"
    "ordered_ids s' = (ordered_ids s)
       (namespace k := filter (\<lambda>i. i \<noteq> key_id k) (ordered_ids s (namespace k)))"
    "store_limit s' = store_limit s" "store_count s' = store_count s - 1"
    using store_delete_present [of s k w] R(1,4) old by auto
  have "map_of (store_entries s) = map_of l"
    using rep by (simp add: represents_def)
  moreover have len: "Suc (length (AList.delete k l)) = length l"
    using R(3) old by (rule length_delete)
  moreover from len have "store_count s \<noteq> 0"
    using R(5) by auto
  ultimately have "represents cap s' (AList.delete k l)"
    using R s' by (auto simp: represents_def AList.delete_conv' delete_keys unat_minus_one
        AList.distinct_delete)
  with s'(1) show ?thesis by blast
qed

lemma store_list_represents:
  assumes rep: "represents cap s l"
  shows "store_list s ns = map snd (filter (\<lambda>e. namespace (fst e) = ns) l)"
proof -
  note R = representsD [OF rep]
  have val: "the (map_of l (StoreKey ns (key_id (fst e)))) = snd e"
    if "e \<in> set (filter (\<lambda>e. namespace (fst e) = ns) l)" for e
  proof -
    from that have "e \<in> set l" and key: "StoreKey ns (key_id (fst e)) = fst e"
      by (cases "fst e"; simp)+
    with R(3) have "map_of l (fst e) = Some (snd e)" by (cases e) simp
    with key show ?thesis by simp
  qed
  have "store_list s ns = map snd (store_view s ns)"
    using R(1) by (rule sto.list_view)
  also have "\<dots> = map (\<lambda>e. the (map_of l (StoreKey ns (key_id (fst e)))))
      (filter (\<lambda>e. namespace (fst e) = ns) l)"
    by (simp add: store_view_read R(4,6) comp_def)
  also have "\<dots> = map snd (filter (\<lambda>e. namespace (fst e) = ns) l)"
    using val by (intro map_cong) auto
  finally show ?thesis .
qed

lemma represents_exec:
  assumes rep: "represents cap s l"
  shows "\<exists>a s' l'. store_exec s r = (a, s') \<and> spec_exec cap l r = (a, l') \<and> represents cap s' l'"
proof -
  note R = representsD [OF rep]
  have sz: "of_nat (length l) = store_count s"
    using R(5) by (metis of_nat_unat ucast_id)
  have empty: "store_is_empty s \<longleftrightarrow> l = []"
    using rep by (auto simp: store_is_empty_def represents_def store_inv_def)
  show ?thesis
  proof (cases r)
    case (ReqCreate k v)
    consider (cap) "unat cap \<le> length l" | (taken) "length l < unat cap" "map_of l k \<noteq> None"
      | (free) "length l < unat cap" "map_of l k = None" by linarith
    then show ?thesis
    proof cases
      case cap
      then have "store_full s" using R by (simp add: store_full_def word_le_nat_alt)
      then show ?thesis
        using cap rep R sto.create_full [of s k v]
        by (simp add: ReqCreate store_exec_def spec_exec_def)
    next
      case taken
      then have "\<not> store_full s" using R by (simp add: store_full_def word_le_nat_alt)
      then show ?thesis
        using taken rep R sto.create_taken [of s k _ v]
        by (auto simp: ReqCreate store_exec_def spec_exec_def)
    next
      case free
      then show ?thesis
        using represents_create [OF rep, of k v]
        by (auto simp: ReqCreate store_exec_def spec_exec_def)
    qed
  next
    case (ReqUpdate k v)
    then show ?thesis
      using rep R sto.update_absent [of s k v] represents_update [OF rep, of k _ v]
      by (cases "map_of l k") (fastforce simp: store_exec_def spec_exec_def)+
  next
    case (ReqDelete k)
    then show ?thesis
      using rep R sto.delete_absent [of s k] represents_delete [OF rep, of k]
      by (cases "map_of l k") (fastforce simp: store_exec_def spec_exec_def)+
  next
    case ReqClear
    then show ?thesis
      using represents_clear [OF rep] sz by (simp add: store_exec_def spec_exec_def store_clear_def)
  qed (use rep R sz empty in \<open>auto simp: store_exec_def spec_exec_def store_list_represents store_len_def\<close>)
qed

lemma represents_run: "represents cap s l \<Longrightarrow> store_run s rs = spec_run cap l rs"
proof (induction rs arbitrary: s l)
  case (Cons r rs)
  then obtain a s' l' where "store_exec s r = (a, s')" "spec_exec cap l r = (a, l')"
    "represents cap s' l'"
    using represents_exec by blast
  with Cons.IH show ?case by simp
qed simp

section \<open>Properties\<close>

text \<open>
  C1. The store refines the abstract list of resources: for every capacity and every sequence of
  create, read, update, delete, list, len, is-empty and clear requests on a fresh store, the
  replies are exactly those of a list that appends on create, replaces in place on update, and
  drops on delete. In particular listings are in creation order, nothing is evicted, and a
  full store refuses a create whatever its key.
\<close>

theorem store_refines_log: "store_run (store_new cap) rs = spec_run cap [] rs"
  by (rule represents_run) (rule represents_new)

end
