(* ===== verification/Store_Concurrent.thy ===== *)
theory Store_Concurrent
  imports Store
begin

text \<open>
  \<open>Store::create\<close> and \<open>Store::delete\<close> of \<open>store.rs\<close> as concurrent programs: any number of threads,
  each one atomic action of \<open>scc\<close> or of the atomic counter at a time, interleaved without
  restriction. The program counter of a thread names the action it performs next; the actions
  on the shared store are those of the source between two scheduling points.
\<close>

section \<open>Threads and steps\<close>

datatype pc =
    Idle
  | Load store_key "value"
  | Exchange store_key "value" usize
  | Insert store_key "value"
  | Release store_key
  | ContainsOrder store_key
  | InsertOrder store_key
  | PushOrder store_key
  | Remove store_key
  | Decrement store_key
  | RetainOrder store_key

record conc =
  shared :: store
  pcs :: "nat \<Rightarrow> pc"

abbreviation goto :: "conc \<Rightarrow> nat \<Rightarrow> pc \<Rightarrow> conc" where
  "goto c t p \<equiv> c\<lparr>pcs := (pcs c)(t := p)\<rparr>"

inductive create_step :: "nat \<Rightarrow> conc \<Rightarrow> conc \<Rightarrow> bool" where
  call_create: "pcs c t = Idle \<Longrightarrow> create_step t c (goto c t (Load k v))"
| load_full: "pcs c t = Load k v \<Longrightarrow> store_limit (shared c) \<le> store_count (shared c) \<Longrightarrow>
    create_step t c (goto c t Idle)"
| load_room: "pcs c t = Load k v \<Longrightarrow> store_count (shared c) < store_limit (shared c) \<Longrightarrow>
    create_step t c (goto c t (Exchange k v (store_count (shared c))))"
| exchange_ok: "pcs c t = Exchange k v n \<Longrightarrow> store_count (shared c) = n \<Longrightarrow>
    create_step t c (goto (c\<lparr>shared := shared c\<lparr>store_count := n + 1\<rparr>\<rparr>) t (Insert k v))"
| exchange_retry: "pcs c t = Exchange k v n \<Longrightarrow> store_count (shared c) \<noteq> n \<Longrightarrow>
    create_step t c (goto c t (Load k v))"
| insert_taken: "pcs c t = Insert k v \<Longrightarrow> map_of (store_entries (shared c)) k \<noteq> None \<Longrightarrow>
    create_step t c (goto c t (Release k))"
| insert_free: "pcs c t = Insert k v \<Longrightarrow> map_of (store_entries (shared c)) k = None \<Longrightarrow>
    create_step t c (goto (c\<lparr>shared := shared c\<lparr>store_entries :=
      (k, v) # store_entries (shared c)\<rparr>\<rparr>) t (ContainsOrder k))"
| release: "pcs c t = Release k \<Longrightarrow>
    create_step t c (goto (c\<lparr>shared := shared c\<lparr>store_count :=
      store_count (shared c) - 1\<rparr>\<rparr>) t Idle)"
| contains_no: "pcs c t = ContainsOrder k \<Longrightarrow>
    map_of (store_order (shared c)) (namespace k) = None \<Longrightarrow>
    create_step t c (goto c t (InsertOrder k))"
| contains_yes: "pcs c t = ContainsOrder k \<Longrightarrow>
    map_of (store_order (shared c)) (namespace k) \<noteq> None \<Longrightarrow>
    create_step t c (goto c t (PushOrder k))"
| insert_order: "pcs c t = InsertOrder k \<Longrightarrow>
    create_step t c (goto (c\<lparr>shared := shared c\<lparr>store_order :=
      (if map_of (store_order (shared c)) (namespace k) = None
       then (namespace k, [key_id k]) # store_order (shared c)
       else store_order (shared c))\<rparr>\<rparr>) t Idle)"
| push_order: "pcs c t = PushOrder k \<Longrightarrow>
    create_step t c (goto (c\<lparr>shared := shared c\<lparr>store_order :=
      AList.map_entry (namespace k) (\<lambda>ids. ids @ [key_id k])
        (store_order (shared c))\<rparr>\<rparr>) t Idle)"

inductive delete_step :: "nat \<Rightarrow> conc \<Rightarrow> conc \<Rightarrow> bool" where
  call_delete: "pcs c t = Idle \<Longrightarrow> delete_step t c (goto c t (Remove k))"
| remove_absent: "pcs c t = Remove k \<Longrightarrow> map_of (store_entries (shared c)) k = None \<Longrightarrow>
    delete_step t c (goto c t Idle)"
| remove_present: "pcs c t = Remove k \<Longrightarrow> map_of (store_entries (shared c)) k \<noteq> None \<Longrightarrow>
    delete_step t c (goto (c\<lparr>shared := shared c\<lparr>store_entries :=
      AList.delete k (store_entries (shared c))\<rparr>\<rparr>) t (Decrement k))"
| decrement: "pcs c t = Decrement k \<Longrightarrow>
    delete_step t c (goto (c\<lparr>shared := shared c\<lparr>store_count :=
      store_count (shared c) - 1\<rparr>\<rparr>) t (RetainOrder k))"
| retain_order: "pcs c t = RetainOrder k \<Longrightarrow>
    delete_step t c (goto (c\<lparr>shared := shared c\<lparr>store_order :=
      AList.map_entry (namespace k) (filter (\<lambda>x. x \<noteq> key_id k))
        (store_order (shared c))\<rparr>\<rparr>) t Idle)"

definition conc_step :: "conc \<Rightarrow> conc \<Rightarrow> bool" where
  "conc_step c d \<longleftrightarrow> (\<exists>t. create_step t c d \<or> delete_step t c d)"

definition conc_new :: "usize \<Rightarrow> conc" where
  "conc_new cap = \<lparr>shared = store_new cap, pcs = (\<lambda>_. Idle)\<rparr>"

section \<open>The capacity invariant\<close>

text \<open>
  A thread holds a slot from its successful exchange until it has inserted, or until it has
  released the slot after a collision or a removal. Slots held and entries stored add up to the
  counter.
\<close>

fun holds_slot :: "pc \<Rightarrow> bool" where
  "holds_slot (Insert k v) = True"
| "holds_slot (Release k) = True"
| "holds_slot (Decrement k) = True"
| "holds_slot _ = False"

definition holders :: "conc \<Rightarrow> nat set" where
  "holders c = {t. holds_slot (pcs c t)}"

definition cap_inv :: "usize \<Rightarrow> conc \<Rightarrow> bool" where
  "cap_inv cap c \<longleftrightarrow>
     store_limit (shared c) = cap \<and> finite (holders c) \<and>
     distinct (map fst (store_entries (shared c))) \<and>
     unat (store_count (shared c)) = length (store_entries (shared c)) + card (holders c) \<and>
     store_count (shared c) \<le> cap \<and>
     (\<forall>t k v n. pcs c t = Exchange k v n \<longrightarrow> n < cap)"

lemma holders_upd:
  "holders (c\<lparr>shared := x, pcs := (pcs c)(t := p)\<rparr>) =
     (if holds_slot p then insert t (holders c) else holders c - {t})"
  "holders (c\<lparr>pcs := (pcs c)(t := p)\<rparr>) =
     (if holds_slot p then insert t (holders c) else holders c - {t})"
  by (auto simp: holders_def split: if_splits)

lemma holder_mem: "t \<in> holders c \<longleftrightarrow> holds_slot (pcs c t)"
  by (simp add: holders_def)

lemma holder_card_Suc: "finite (holders c) \<Longrightarrow> holds_slot (pcs c t) \<Longrightarrow>
    card (holders c) = Suc (card (holders c - {t}))"
  by (metis card_Suc_Diff1 holder_mem)

lemma dec_word_nat: "unat (n::usize) = Suc m \<Longrightarrow> unat (n - 1) = m"
  by (metis diff_Suc_1 nat.distinct(1) unat_0 unat_minus_one)

lemma dec_word_le: "unat (n::usize) = Suc m \<Longrightarrow> n \<le> cap \<Longrightarrow> n - 1 \<le> cap"
  by (simp add: word_le_nat_alt dec_word_nat)

lemma cap_inv_create: "create_step t c d \<Longrightarrow> cap_inv cap c \<Longrightarrow> cap_inv cap d"
proof (induction rule: create_step.induct)
  case (exchange_ok c t k v n)
  then have lt: "n < cap" by (auto simp: cap_inv_def)
  with exchange_ok show ?case
    using unat_Suc_less [OF lt] inc_le [OF lt]
    by (auto simp: cap_inv_def holders_upd card_insert_if holder_mem)
next
  case (insert_free c t k v)
  then show ?case
    using holder_card_Suc [of c t]
    by (auto simp: cap_inv_def holders_upd map_of_eq_None_iff)
next
  case (release c t k)
  then show ?case
    using holder_card_Suc [of c t] dec_word_nat dec_word_le
    by (auto simp: cap_inv_def holders_upd)
qed (auto simp: cap_inv_def holders_upd holder_mem card_Diff_singleton_if insert_absorb)

lemma cap_inv_delete: "delete_step t c d \<Longrightarrow> cap_inv cap c \<Longrightarrow> cap_inv cap d"
proof (induction rule: delete_step.induct)
  case (remove_present c t k)
  then obtain v where v: "map_of (store_entries (shared c)) k = Some v" by auto
  with remove_present show ?case
    using length_delete [OF _ v]
    by (auto simp: cap_inv_def holders_upd card_insert_if holder_mem AList.distinct_delete)
next
  case (decrement c t k)
  then show ?case
    using holder_card_Suc [of c t] dec_word_nat dec_word_le
    by (auto simp: cap_inv_def holders_upd)
qed (auto simp: cap_inv_def holders_upd holder_mem card_Diff_singleton_if)

interpretation cs: invariant_system "\<lambda>c. c = conc_new cap" conc_step "cap_inv cap" for cap
proof
  show "c = conc_new cap \<Longrightarrow> cap_inv cap c" for c
    by (simp add: cap_inv_def conc_new_def store_new_def holders_def)
  show "cap_inv cap c \<Longrightarrow> conc_step c d \<Longrightarrow> cap_inv cap d" for c d
    using cap_inv_create cap_inv_delete by (auto simp: conc_step_def)
qed

text \<open>
  C2. Under every interleaving of any number of concurrent creates and deletes the store never
  holds more than its capacity, the counter never wraps below zero or passes the capacity, and
  it always equals the stored entries plus the slots threads are holding: reserving a slot
  before inserting makes the capacity check exact.
\<close>

theorem concurrent_capacity:
  assumes "reachable_from (\<lambda>c. c = conc_new cap) conc_step c"
  shows "length (store_entries (shared c)) \<le> unat cap
    \<and> unat (store_count (shared c)) = length (store_entries (shared c)) + card (holders c)
    \<and> unat (store_count (shared c)) \<le> unat cap"
  using cs.reachable_inv [OF assms] by (auto simp: cap_inv_def word_le_nat_alt)


section \<open>Runs\<close>

abbreviation conc_reachable :: "usize \<Rightarrow> conc \<Rightarrow> bool" where
  "conc_reachable cap \<equiv> reachable_from (\<lambda>c. c = conc_new cap) conc_step"

lemma conc_reachable_new: "conc_reachable cap (conc_new cap)"
  by (rule reachable_from.start) simp

lemma conc_reachable_create: "conc_reachable cap c \<Longrightarrow> create_step t c d \<Longrightarrow> conc_reachable cap d"
  by (rule reachable_from.more) (auto simp: conc_step_def)

text \<open>One thread runs undisturbed from the call to the point where its entry is stored.\<close>

lemma conc_reachable_insert:
  assumes "conc_reachable cap c" and "pcs c t = Idle"
    and "store_count (shared c) < store_limit (shared c)"
    and "map_of (store_entries (shared c)) k = None"
  shows "conc_reachable cap (goto (c\<lparr>shared := shared c\<lparr>
      store_count := store_count (shared c) + 1,
      store_entries := (k, v) # store_entries (shared c)\<rparr>\<rparr>) t (ContainsOrder k))"
proof -
  let ?n = "store_count (shared c)"
  have "conc_reachable cap (goto c t (Load k v))"
    using assms(1,2) by (rule conc_reachable_create [OF _ call_create])
  then have "conc_reachable cap (goto c t (Exchange k v ?n))"
    using conc_reachable_create [OF _ load_room [of "goto c t (Load k v)" t k v]] assms(3) by simp
  then have "conc_reachable cap (goto (c\<lparr>shared := shared c\<lparr>store_count := ?n + 1\<rparr>\<rparr>) t (Insert k v))"
    using conc_reachable_create [OF _ exchange_ok [of "goto c t (Exchange k v ?n)" t k v ?n]] by simp
  then show ?thesis
    using assms(4) conc_reachable_create [OF _ insert_free [of
        "goto (c\<lparr>shared := shared c\<lparr>store_count := ?n + 1\<rparr>\<rparr>) t (Insert k v)" t k v]] by simp
qed

lemma conc_reachable_contains_no:
  assumes "conc_reachable cap c" and "pcs c t = ContainsOrder k"
    and "map_of (store_order (shared c)) (namespace k) = None"
  shows "conc_reachable cap (goto c t (InsertOrder k))"
  using assms by (blast intro: conc_reachable_create contains_no)

text \<open>The hypothesis of C2 holds after a thread has called \<open>create\<close> on a store of two.\<close>

theorem concurrent_capacity_witness:
  "conc_reachable 2 (goto (conc_new 2) 0 (Load (StoreKey ''w'' ''a'') Null))
   \<and> length (store_entries (shared (goto (conc_new 2) 0 (Load (StoreKey ''w'' ''a'') Null)))) \<le> unat (2::usize)"
proof -
  have reach: "conc_reachable 2 (goto (conc_new 2) 0 (Load (StoreKey ''w'' ''a'') Null))"
    by (rule conc_reachable_create [OF conc_reachable_new call_create]) (simp add: conc_new_def)
  show ?thesis using reach concurrent_capacity [OF reach] by simp
qed

text \<open>
  C3. The listing race: two concurrent creates in a new namespace can both find the order index
  missing; the second \<open>insert_sync\<close> then fails and its result is dropped by \<open>.ok()\<close>. Both
  creates have returned, the second resource is readable, and it is in no listing.
\<close>

theorem concurrent_create_lost_listing:
  "\<exists>c. conc_reachable 8 c \<and> (\<forall>t. pcs c t = Idle) \<and>
     store_read (shared c) (StoreKey ''/w'' ''b'') = Some (Bool True) \<and>
     store_list (shared c) ''/w'' = [Null]"
proof -
  let ?a = "StoreKey ''/w'' ''a''" and ?b = "StoreKey ''/w'' ''b''"
  define c1 where "c1 = goto (conc_new 8\<lparr>shared := (store_new 8)\<lparr>store_entries := [(?a, Null)],
      store_count := 1\<rparr>\<rparr>) 0 (ContainsOrder ?a)"
  define c2 where "c2 = goto (c1\<lparr>shared := (shared c1)\<lparr>
      store_entries := [(?b, Bool True), (?a, Null)], store_count := 2\<rparr>\<rparr>) 1 (ContainsOrder ?b)"
  define c3 where "c3 = goto (goto c2 0 (InsertOrder ?a)) 1 (InsertOrder ?b)"
  define c4 where "c4 = goto (c3\<lparr>shared := (shared c3)\<lparr>store_order := [(''/w'', [''a''])]\<rparr>\<rparr>) 0 Idle"
  define c5 where "c5 = goto (c4\<lparr>shared := shared c4\<rparr>) 1 Idle"
  note defs = c1_def c2_def c3_def c4_def c5_def conc_new_def store_new_def
  have "conc_reachable 8 c1"
    using conc_reachable_insert [OF conc_reachable_new, of 8 0 ?a Null] by (simp add: defs)
  then have "conc_reachable 8 c2"
    using conc_reachable_insert [of 8 c1 1 ?b "Bool True"] by (simp add: defs)
  then have "conc_reachable 8 (goto c2 0 (InsertOrder ?a))"
    by (rule conc_reachable_contains_no) (simp_all add: defs)
  then have "conc_reachable 8 c3"
    unfolding c3_def by (rule conc_reachable_contains_no) (simp_all add: defs)
  then have "conc_reachable 8 c4"
    using conc_reachable_create [OF _ insert_order [of c3 0 ?a]] by (simp add: defs)
  then have "conc_reachable 8 c5"
    using conc_reachable_create [OF _ insert_order [of c4 1 ?b]] by (simp add: defs)
  moreover have "\<forall>t. pcs c5 t = Idle" by (simp add: defs)
  moreover have "store_read (shared c5) ?b = Some (Bool True)"
    by (simp add: defs store_read_def)
  moreover have "store_list (shared c5) ''/w'' = [Null]"
    by (simp add: defs store_list_def store_read_def List.map_filter_simps)
  ultimately show ?thesis by blast
qed

end
