(* ===== verification/Scenario.thy ===== *)
theory Scenario
  imports Json
begin

text \<open>
  The scenario state machine, \<open>specmock-core/src/scenario.rs\<close>: states, transitions, the machine and
  its queries, and the work-list search for states no transition reaches, with its correctness
  against the reachability relation of the machine.
\<close>

section \<open>Data\<close>

datatype state = State (state_name: string)

instantiation state :: linorder
begin

definition less_eq_state :: "state \<Rightarrow> state \<Rightarrow> bool" where
  "less_eq_state a b \<longleftrightarrow> state_name a \<le> state_name b"

definition less_state :: "state \<Rightarrow> state \<Rightarrow> bool" where
  "less_state a b \<longleftrightarrow> state_name a < state_name b"

instance
  by intro_classes (auto simp: less_eq_state_def less_state_def state.expand)

end

text \<open>\<open>ResponseOverride\<close> is declared in \<open>sidecar.rs\<close>; the machine only carries it.\<close>

datatype response_override = ResponseOverride (override_body: "value option")

record transition =
  target :: "state option"
  responses :: "(string \<times> response_override) list"

definition transition_to :: "state \<Rightarrow> transition" where
  "transition_to t = \<lparr>target = Some t, responses = []\<rparr>"

definition transition_stay :: transition where
  "transition_stay = \<lparr>target = None, responses = []\<rparr>"

record scenario =
  scenario_name :: string
  initial :: state
  states :: "(state \<times> (string \<times> transition) list) list"

section \<open>Queries\<close>

definition scenario_new ::
  "string \<Rightarrow> state \<Rightarrow> (state \<times> (string \<times> transition) list) list \<Rightarrow> scenario" where
  "scenario_new n i ss = \<lparr>scenario_name = n, initial = i, states = ss\<rparr>"

definition allows :: "scenario \<Rightarrow> state \<Rightarrow> string \<Rightarrow> bool" where
  "allows m st op =
     (case map_of (states m) st of None \<Rightarrow> False | Some ops \<Rightarrow> map_of ops op \<noteq> None)"

definition transition_of :: "scenario \<Rightarrow> state \<Rightarrow> string \<Rightarrow> transition option" where
  "transition_of m st op = Option.bind (map_of (states m) st) (\<lambda>ops. map_of ops op)"

definition next_state :: "scenario \<Rightarrow> state \<Rightarrow> string \<Rightarrow> state option" where
  "next_state m st op = Option.bind (transition_of m st op) target"

definition state_names :: "scenario \<Rightarrow> string list" where
  "state_names m = map (\<lambda>(st, _). state_name st) (states m)"

definition operations :: "scenario \<Rightarrow> string list" where
  "operations m =
     map fst (foldl (\<lambda>names (_, ops). foldl (\<lambda>names (n, _). bt_insert n () names) names ops) []
       (states m))"

lemma allows_iff_transition: "allows m st op \<longleftrightarrow> transition_of m st op \<noteq> None"
  by (auto simp: allows_def transition_of_def split: option.splits)

lemma next_state_allowed: "next_state m st op = Some t \<Longrightarrow> allows m st op"
  by (auto simp: next_state_def allows_iff_transition bind_eq_Some_conv)

section \<open>Unreachable states\<close>

text \<open>The targets pushed for one popped state, in the order of its operations.\<close>

definition targets :: "scenario \<Rightarrow> state \<Rightarrow> state list" where
  "targets m st =
     (case map_of (states m) st of
        None \<Rightarrow> []
      | Some ops \<Rightarrow> List.map_filter (\<lambda>(_, tr). target tr) ops)"

definition all_targets :: "scenario \<Rightarrow> state set" where
  "all_targets m = (\<Union>st \<in> fst ` set (states m). set (targets m st))"

lemma targets_all: "set (targets m st) \<subseteq> all_targets m"
proof (cases "map_of (states m) st")
  case (Some ops)
  then have "st \<in> fst ` set (states m)"
    by (metis domI dom_map_of_conv_image_fst)
  then show ?thesis by (auto simp: all_targets_def)
qed (simp add: targets_def)

lemma finite_all_targets [simp]: "finite (all_targets m)"
  by (simp add: all_targets_def)

text \<open>
  The loop of \<open>unreachable_states\<close>: pop a state from the stack, skip it if it was seen, otherwise
  push the target of each of its transitions. The stack's top is the head of the list.
\<close>

function explore :: "scenario \<Rightarrow> state list \<Rightarrow> state list \<Rightarrow> state list" where
  "explore m seen [] = seen"
| "explore m seen (st # rest) =
     (if st \<in> set seen then explore m seen rest
      else explore m (st # seen) (rev (targets m st) @ rest))"
  by pat_completeness auto
termination
proof (relation "inv_image (less_than <*lex*> less_than)
    (\<lambda>(m, seen, frontier). (card ((all_targets m \<union> set frontier) - set seen), length frontier))",
    goal_cases)
  case (2 m seen st rest)
  then have "(all_targets m \<union> set (st # rest)) - set seen = (all_targets m \<union> set rest) - set seen"
    by auto
  then show ?case by simp
next
  case (3 m seen st rest)
  then have "(all_targets m \<union> set (rev (targets m st) @ rest)) - set (st # seen)
      \<subset> (all_targets m \<union> set (st # rest)) - set seen"
    using targets_all [of m st] by auto
  then have "card ((all_targets m \<union> set (rev (targets m st) @ rest)) - set (st # seen))
      < card ((all_targets m \<union> set (st # rest)) - set seen)"
    by (intro psubset_card_mono) auto
  then show ?case by simp
qed auto

definition unreachable_states :: "scenario \<Rightarrow> state list" where
  "unreachable_states m =
     (let reached = explore m [] [initial m]
      in map fst (filter (\<lambda>(st, _). st \<notin> set reached) (states m)))"

subsection \<open>Correctness of the search\<close>

inductive moves :: "scenario \<Rightarrow> state \<Rightarrow> state \<Rightarrow> bool" for m where
  moveI: "next_state m st op = Some t \<Longrightarrow> moves m st t"

text \<open>Objects of the sidecar are ordered maps, so a state's operations have distinct names.\<close>

definition wf_scenario :: "scenario \<Rightarrow> bool" where
  "wf_scenario m \<longleftrightarrow> bt_wf (states m) \<and> (\<forall>x\<in>set (states m). bt_wf (snd x))"

lemma set_map_filter: "y \<in> set (List.map_filter f xs) \<longleftrightarrow> (\<exists>x\<in>set xs. f x = Some y)"
  by (induction xs) (auto simp: List.map_filter_simps split: option.splits)

lemma moves_targets:
  assumes "wf_scenario m"
  shows "moves m st t \<longleftrightarrow> t \<in> set (targets m st)"
proof (cases "map_of (states m) st")
  case None
  then show ?thesis
    by (auto simp: targets_def next_state_def transition_of_def elim: moves.cases)
next
  case (Some ops)
  then have "(st, ops) \<in> set (states m)" by (rule map_of_SomeD)
  with assms have "bt_wf ops" by (auto simp: wf_scenario_def)
  then have op: "map_of ops n = Some tr \<longleftrightarrow> (n, tr) \<in> set ops" for n tr
    by (simp add: bt_wf_distinct)
  have "moves m st t \<longleftrightarrow> (\<exists>n tr. map_of ops n = Some tr \<and> target tr = Some t)"
    by (auto simp: moves.simps next_state_def transition_of_def Some bind_eq_Some_conv)
  also have "\<dots> \<longleftrightarrow> (\<exists>x\<in>set ops. (case x of (_, tr) \<Rightarrow> target tr) = Some t)"
    unfolding op by force
  finally show ?thesis
    by (simp add: targets_def Some set_map_filter)
qed

lemma explore_mono: "set seen \<union> set frontier \<subseteq> set (explore m seen frontier)"
  by (induction m seen frontier rule: explore.induct) auto

lemma explore_closed:
  "\<forall>x\<in>set seen. set (targets m x) \<subseteq> set seen \<union> set frontier \<Longrightarrow>
   x \<in> set (explore m seen frontier) \<Longrightarrow> set (targets m x) \<subseteq> set (explore m seen frontier)"
  by (induction m seen frontier rule: explore.induct) (auto split: if_splits)

lemma explore_sound:
  "wf_scenario m \<Longrightarrow> x \<in> set (explore m seen frontier) \<Longrightarrow>
     x \<in> set seen \<or> (\<exists>f\<in>set frontier. (moves m)\<^sup>*\<^sup>* f x)"
proof (induction m seen frontier rule: explore.induct)
  case (2 m seen st rest)
  show ?case
  proof (cases "st \<in> set seen")
    case False
    with 2 consider "x = st" | "x \<in> set seen" | f where "f \<in> set (targets m st)" "(moves m)\<^sup>*\<^sup>* f x"
      | f where "f \<in> set rest" "(moves m)\<^sup>*\<^sup>* f x" by auto
    then show ?thesis
    proof cases
      case 3
      then have "(moves m)\<^sup>*\<^sup>* st x"
        using moves_targets [OF "2.prems"(1)] by (meson converse_rtranclp_into_rtranclp)
      then show ?thesis by auto
    qed auto
  qed (use 2 in auto)
qed simp

lemma explore_complete:
  assumes "wf_scenario m" and "(moves m)\<^sup>*\<^sup>* (initial m) x"
  shows "x \<in> set (explore m [] [initial m])"
  using assms(2)
proof (induction rule: rtranclp_induct)
  case base
  show ?case using explore_mono [of "[]" "[initial m]" m] by auto
next
  case (step y z)
  then have "z \<in> set (targets m y)"
    using moves_targets [OF assms(1)] by simp
  with step.IH show ?case
    using explore_closed [of "[]" m "[initial m]" y] by auto
qed

text \<open>
  C4. The search for dead configuration is exact: \<open>unreachable_states\<close> reports a state if and only
  if it is declared and no sequence of transitions leads to it from the initial state.
\<close>

theorem unreachable_states_exact:
  assumes "wf_scenario m"
  shows "set (unreachable_states m) =
    {st \<in> fst ` set (states m). \<not> (moves m)\<^sup>*\<^sup>* (initial m) st}"
  using explore_sound [OF assms, of _ "[]" "[initial m]"] explore_complete [OF assms]
  by (auto simp: unreachable_states_def Let_def image_iff)

text \<open>C4 at a machine whose state \<open>lost\<close> is declared but never entered.\<close>

definition demo_machine :: scenario where
  "demo_machine = scenario_new ''demo'' (State ''a'')
     [(State ''a'', [(''go'', transition_to (State ''b''))]),
      (State ''b'', [(''back'', transition_to (State ''a'')), (''rest'', transition_stay)]),
      (State ''lost'', [(''go'', transition_to (State ''a''))])]"

theorem unreachable_states_exact_witness:
  "wf_scenario demo_machine \<and>
   {st \<in> fst ` set (states demo_machine).
      \<not> (moves demo_machine)\<^sup>*\<^sup>* (initial demo_machine) st} = {State ''lost''}"
proof -
  have wf: "wf_scenario demo_machine" by code_simp
  have "unreachable_states demo_machine = [State ''lost'']" by code_simp
  then show ?thesis using unreachable_states_exact [OF wf] wf by simp
qed

end
