(* ===== verification/Sidecar.thy ===== *)
theory Sidecar
  imports Scenario Store
begin

text \<open>
  The scenario sidecar, \<open>specmock-core/src/sidecar.rs\<close>: the document types, load-time validation and
  the warnings. Deserialising a JSON value into a sidecar is \<open>serde\<close>'s derived code and enters
  as a parameter of \<open>sidecar_parse\<close>.
\<close>

definition SUPPORTED_VERSION :: u32 where
  "SUPPORTED_VERSION = 1"

definition CONTROL_PREFIX :: string where
  "CONTROL_PREFIX = ''/_specmock''"

section \<open>Data\<close>

datatype sidecar_error =
    Malformed string
  | UnsupportedVersion string
  | UnknownState string string
  | UnknownTransitionTarget string string string
  | UnknownOperation string string string
  | DuplicateScenario string
  | UnknownInitialState string string
  | MissingKey string store_action
  | BadKeyPointer string string

fun store_action_debug :: "store_action \<Rightarrow> string" where
  "store_action_debug Create = ''Create''"
| "store_action_debug Read = ''Read''"
| "store_action_debug Update = ''Update''"
| "store_action_debug Delete = ''Delete''"
| "store_action_debug List = ''List''"

fun sidecar_error_display :: "sidecar_error \<Rightarrow> string" where
  "sidecar_error_display (Malformed m) = ''sidecar is not a valid scenario document: '' @ m"
| "sidecar_error_display (UnsupportedVersion found) =
     ''unsupported sidecar version '' @ found @ ''; this build supports '' @ nat_to_string (unat SUPPORTED_VERSION)"
| "sidecar_error_display (UnknownState sc st) = ''scenario '' @ quoted sc @ '': unknown state '' @ quoted st"
| "sidecar_error_display (UnknownTransitionTarget sc st t) =
     ''scenario '' @ quoted sc @ '', state '' @ quoted st @ '': transition to unknown state '' @ quoted t"
| "sidecar_error_display (UnknownOperation sc st op) =
     ''scenario '' @ quoted sc @ '', state '' @ quoted st @ '': unknown operation '' @ quoted op"
| "sidecar_error_display (DuplicateScenario n) = ''duplicate scenario name '' @ quoted n"
| "sidecar_error_display (UnknownInitialState sc i) =
     ''scenario '' @ quoted sc @ '': initial state '' @ quoted i @ '' is not declared''"
| "sidecar_error_display (MissingKey op a) =
     ''operation '' @ quoted op @ '': store action '' @ quoted (store_action_debug a) @ '' needs ''
       @ quoted ''key'' @ '' or '' @ quoted ''keyFrom''"
| "sidecar_error_display (BadKeyPointer op p) =
     ''operation '' @ quoted op @ '': keyFrom pointer '' @ quoted p @ '' is not a valid JSON pointer''"

datatype key_location = RequestBody | ResponseBody

datatype key_source = KeySource (location: key_location) (pointer: string)

datatype store_action_wire = WCreate | WRead | WUpdate | WDelete | WList

fun store_action_from :: "store_action_wire \<Rightarrow> store_action" where
  "store_action_from WCreate = Create"
| "store_action_from WRead = Read"
| "store_action_from WUpdate = Update"
| "store_action_from WDelete = Delete"
| "store_action_from WList = List"

record store_spec =
  resource :: string
  wire_action :: store_action_wire
  spec_key :: "string option"
  key_from :: "key_source option"

definition action :: "store_spec \<Rightarrow> store_action" where
  "action sp = store_action_from (wire_action sp)"

datatype operation_match = OperationMatch (match_method: string) (match_path: string)

record operation_entry =
  matcher :: operation_match
  entry_store :: "store_spec option"
  entry_responses :: "(string \<times> response_override) list"

definition operation_key :: "operation_entry \<Rightarrow> string" where
  "operation_key e = to_ascii_uppercase (match_method (matcher e)) @ '' '' @ match_path (matcher e)"

datatype seed_entry = SeedEntry (seed_resource: string) (seed_items: "value list")

record step_entry =
  step_target :: "string option"
  step_responses :: "(string \<times> response_override) list"

record scenario_entry =
  entry_name :: string
  initial_state :: string
  seed :: "seed_entry list"
  entry_states :: "(string \<times> (string \<times> step_entry) list) list"

record sidecar =
  version :: u32
  sidecar_operations :: "(string \<times> operation_entry) list"
  scenarios :: "scenario_entry list"

datatype sidecar_warning = UnreachableState string string | UnusedOperation string

definition sidecar_warning_display :: "sidecar_warning \<Rightarrow> string" where
  "sidecar_warning_display w =
     (case w of
        UnreachableState sc st \<Rightarrow>
          ''scenario '' @ quoted sc @ '': state '' @ quoted st @ '' is unreachable''
      | UnusedOperation op \<Rightarrow>
          ''operation '' @ quoted op @ '' is declared but never used'')"

record validated_sidecar =
  document :: sidecar
  warnings :: "sidecar_warning list"

definition find_scenario :: "validated_sidecar \<Rightarrow> string \<Rightarrow> scenario_entry option" where
  "find_scenario v n = find (\<lambda>sc. entry_name sc = n) (scenarios (document v))"

definition default_scenario :: "validated_sidecar \<Rightarrow> scenario_entry option" where
  "default_scenario v = (case scenarios (document v) of [] \<Rightarrow> None | sc # _ \<Rightarrow> Some sc)"

definition scenario_names :: "validated_sidecar \<Rightarrow> string list" where
  "scenario_names v = map entry_name (scenarios (document v))"

section \<open>Validation\<close>

definition is_valid_pointer :: "string \<Rightarrow> bool" where
  "is_valid_pointer p = (p = [] \<or> starts_with p ''/'')"

definition validate_operation :: "string \<Rightarrow> operation_entry \<Rightarrow> sidecar_error + unit" where
  "validate_operation name e =
     (case entry_store e of
        None \<Rightarrow> Inr ()
      | Some sp \<Rightarrow>
          (case key_from sp of
             Some src \<Rightarrow>
               if \<not> is_valid_pointer (pointer src)
               then Inl (BadKeyPointer name (pointer src))
               else if action sp \<noteq> List \<and> spec_key sp = None \<and> key_from sp = None
               then Inl (MissingKey name (action sp))
               else Inr ()
           | None \<Rightarrow>
               if action sp \<noteq> List \<and> spec_key sp = None \<and> key_from sp = None
               then Inl (MissingKey name (action sp))
               else Inr ()))"

fun validate_operations :: "(string \<times> operation_entry) list \<Rightarrow> sidecar_error + unit" where
  "validate_operations [] = Inr ()"
| "validate_operations ((name, e) # rest) =
     (case validate_operation name e of
        Inl err \<Rightarrow> Inl err
      | Inr _ \<Rightarrow>
          if starts_with (match_path (matcher e)) CONTROL_PREFIX
          then Inl (UnknownOperation ''-'' ''-''
                 (name @ '' declares '' @ quoted (match_path (matcher e)) @ '', which is reserved''))
          else validate_operations rest)"

fun validate_steps ::
  "sidecar \<Rightarrow> scenario_entry \<Rightarrow> string \<Rightarrow> (string \<times> step_entry) list \<Rightarrow> sidecar_error + unit" where
  "validate_steps sd sc st [] = Inr ()"
| "validate_steps sd sc st ((op, stp) # rest) =
     (if map_of (sidecar_operations sd) op = None
      then Inl (UnknownOperation (entry_name sc) st op)
      else case step_target stp of
             Some t \<Rightarrow>
               if map_of (entry_states sc) t = None
               then Inl (UnknownTransitionTarget (entry_name sc) st t)
               else validate_steps sd sc st rest
           | None \<Rightarrow> validate_steps sd sc st rest)"

fun validate_states ::
  "sidecar \<Rightarrow> scenario_entry \<Rightarrow> (string \<times> (string \<times> step_entry) list) list \<Rightarrow> sidecar_error + unit" where
  "validate_states sd sc [] = Inr ()"
| "validate_states sd sc ((st, ops) # rest) =
     (case validate_steps sd sc st ops of
        Inl err \<Rightarrow> Inl err
      | Inr _ \<Rightarrow> validate_states sd sc rest)"

fun validate_scenarios ::
  "sidecar \<Rightarrow> string list \<Rightarrow> scenario_entry list \<Rightarrow> sidecar_error + unit" where
  "validate_scenarios sd seen [] = Inr ()"
| "validate_scenarios sd seen (sc # rest) =
     (if entry_name sc \<in> set seen then Inl (DuplicateScenario (entry_name sc))
      else if map_of (entry_states sc) (initial_state sc) = None
      then Inl (UnknownInitialState (entry_name sc) (initial_state sc))
      else case validate_states sd sc (entry_states sc) of
             Inl err \<Rightarrow> Inl err
           | Inr _ \<Rightarrow> validate_scenarios sd (entry_name sc # seen) rest)"

definition validate_sidecar :: "sidecar \<Rightarrow> sidecar_error + unit" where
  "validate_sidecar sd =
     (case validate_operations (sidecar_operations sd) of
        Inl err \<Rightarrow> Inl err
      | Inr _ \<Rightarrow> validate_scenarios sd [] (scenarios sd))"

section \<open>Warnings\<close>

text \<open>The machine of a scenario entry, built the same way here and in the runtime.\<close>

definition step_transition :: "step_entry \<Rightarrow> transition" where
  "step_transition stp =
     (case step_target stp of
        None \<Rightarrow> transition_stay
      | Some t \<Rightarrow> transition_to (State t))\<lparr>responses := step_responses stp\<rparr>"

definition machine_of :: "scenario_entry \<Rightarrow> scenario" where
  "machine_of sc =
     scenario_new (entry_name sc) (State (initial_state sc))
       (bt_of_list (map (\<lambda>(st, ops).
          (State st, bt_of_list (map (\<lambda>(op, stp). (op, step_transition stp)) ops)))
          (entry_states sc)))"

definition used_operations :: "scenario_entry \<Rightarrow> string list" where
  "used_operations sc = concat (map (\<lambda>(_, ops). map fst ops) (entry_states sc))"

definition scenario_warnings :: "sidecar \<Rightarrow> scenario_entry \<Rightarrow> sidecar_warning list" where
  "scenario_warnings sd sc =
     map (\<lambda>st. UnreachableState (entry_name sc) (state_name st)) (unreachable_states (machine_of sc))
     @ map (\<lambda>op. UnusedOperation op)
         (filter (\<lambda>op. op \<notin> set (used_operations sc)) (map fst (sidecar_operations sd)))"

definition collect_warnings :: "sidecar \<Rightarrow> sidecar_warning list" where
  "collect_warnings sd = concat (map (scenario_warnings sd) (scenarios sd))"

definition sidecar_parse ::
  "(value \<Rightarrow> string + sidecar) \<Rightarrow> value \<Rightarrow> sidecar_error + validated_sidecar" where
  "sidecar_parse from_value v =
     (case from_value v of
        Inl e \<Rightarrow> Inl (Malformed e)
      | Inr sd \<Rightarrow>
          if version sd \<noteq> SUPPORTED_VERSION
          then Inl (UnsupportedVersion (nat_to_string (unat (version sd))))
          else case validate_sidecar sd of
                 Inl err \<Rightarrow> Inl err
               | Inr _ \<Rightarrow> Inr \<lparr>document = sd, warnings = collect_warnings sd\<rparr>)"

section \<open>What validation guarantees\<close>

text \<open>The conditions of the sidecar format, stated without reference to the order of the checks.\<close>

definition operation_ok :: "operation_entry \<Rightarrow> bool" where
  "operation_ok e \<longleftrightarrow>
     \<not> prefix CONTROL_PREFIX (match_path (matcher e)) \<and>
     (\<forall>sp. entry_store e = Some sp \<longrightarrow>
        (\<forall>src. key_from sp = Some src \<longrightarrow> pointer src = [] \<or> hd (pointer src) = CHR ''/'') \<and>
        (action sp = List \<or> spec_key sp \<noteq> None \<or> key_from sp \<noteq> None))"

definition scenario_ok :: "sidecar \<Rightarrow> scenario_entry \<Rightarrow> bool" where
  "scenario_ok sd sc \<longleftrightarrow>
     initial_state sc \<in> fst ` set (entry_states sc) \<and>
     (\<forall>(st, ops) \<in> set (entry_states sc). \<forall>(op, stp) \<in> set ops.
        op \<in> fst ` set (sidecar_operations sd) \<and>
        (\<forall>t. step_target stp = Some t \<longrightarrow> t \<in> fst ` set (entry_states sc)))"

definition sidecar_ok :: "sidecar \<Rightarrow> bool" where
  "sidecar_ok sd \<longleftrightarrow>
     (\<forall>(name, e) \<in> set (sidecar_operations sd). operation_ok e) \<and>
     distinct (map entry_name (scenarios sd)) \<and>
     (\<forall>sc \<in> set (scenarios sd). scenario_ok sd sc)"

lemma Inr_unit_iff: "r = Inr () \<longleftrightarrow> (\<exists>u. r = Inr u)" for r :: "'e + unit"
  by auto

lemma is_valid_pointer_iff: "is_valid_pointer p \<longleftrightarrow> p = [] \<or> hd p = CHR ''/''"
  by (cases p) (auto simp: is_valid_pointer_def starts_with_def)

lemma validate_operation_ok:
  "validate_operation name e = Inr () \<and> \<not> starts_with (match_path (matcher e)) CONTROL_PREFIX
     \<longleftrightarrow> operation_ok e"
  by (auto simp: validate_operation_def operation_ok_def is_valid_pointer_iff starts_with_def
      split: option.splits)

lemma validate_operations_ok:
  "validate_operations ops = Inr () \<longleftrightarrow> (\<forall>(name, e) \<in> set ops. operation_ok e)"
proof (induction ops rule: validate_operations.induct)
  case (2 name e rest)
  then show ?case
    using validate_operation_ok [of name e] by (auto split: sum.splits)
qed simp

lemma validate_steps_ok:
  "validate_steps sd sc st ops = Inr () \<longleftrightarrow>
     (\<forall>(op, stp) \<in> set ops. op \<in> fst ` set (sidecar_operations sd) \<and>
        (\<forall>t. step_target stp = Some t \<longrightarrow> t \<in> fst ` set (entry_states sc)))"
  by (induction sd sc st ops rule: validate_steps.induct)
    (auto simp: map_of_eq_None_iff split: option.splits)

lemma validate_states_ok:
  "validate_states sd sc sts = Inr () \<longleftrightarrow>
     (\<forall>(st, ops) \<in> set sts. validate_steps sd sc st ops = Inr ())"
  by (induction sd sc sts rule: validate_states.induct) (auto split: sum.splits)

lemma validate_scenarios_ok:
  "validate_scenarios sd seen scs = Inr () \<longleftrightarrow>
     distinct (map entry_name scs) \<and> set seen \<inter> entry_name ` set scs = {} \<and>
     (\<forall>sc \<in> set scs. scenario_ok sd sc)"
proof (induction sd seen scs rule: validate_scenarios.induct)
  case (2 sd seen sc rest)
  have sc: "map_of (entry_states sc) (initial_state sc) \<noteq> None \<and>
      validate_states sd sc (entry_states sc) = Inr () \<longleftrightarrow> scenario_ok sd sc"
    by (simp add: scenario_ok_def validate_states_ok validate_steps_ok map_of_eq_None_iff)
  show ?case
    using 2 sc by (cases "validate_states sd sc (entry_states sc)") auto
qed simp

lemma validate_sidecar_ok: "validate_sidecar sd = Inr () \<longleftrightarrow> sidecar_ok sd"
  by (cases "validate_operations (sidecar_operations sd)")
    (auto simp: validate_sidecar_def sidecar_ok_def validate_scenarios_ok
      simp flip: validate_operations_ok)

subsection \<open>The machines of a validated sidecar\<close>

lemma machine_of_wf: "wf_scenario (machine_of sc)"
  by (auto simp: wf_scenario_def machine_of_def scenario_new_def dest!: bt_of_list_mem)

lemma machine_of_declared:
  "fst ` set (states (machine_of sc)) = State ` fst ` set (entry_states sc)"
  by (force simp: machine_of_def scenario_new_def bt_of_list_keys)

lemma machine_of_transition:
  assumes "transition_of (machine_of sc) st op = Some tr"
  shows "\<exists>n ops stp. st = State n \<and> (n, ops) \<in> set (entry_states sc) \<and> (op, stp) \<in> set ops \<and>
    tr = step_transition stp"
proof -
  obtain mops where mops: "map_of (states (machine_of sc)) st = Some mops"
    and tr: "map_of mops op = Some tr"
    using assms by (auto simp: transition_of_def bind_eq_Some_conv)
  from mops have "(st, mops) \<in> set (states (machine_of sc))" by (rule map_of_SomeD)
  then obtain n ops where n: "st = State n" "(n, ops) \<in> set (entry_states sc)"
    and ops: "mops = bt_of_list (map (\<lambda>(op, stp). (op, step_transition stp)) ops)"
    by (auto simp: machine_of_def scenario_new_def dest!: bt_of_list_mem)
  from tr have "(op, tr) \<in> set mops" by (rule map_of_SomeD)
  then obtain stp where "(op, stp) \<in> set ops" "tr = step_transition stp"
    by (auto simp: ops dest!: bt_of_list_mem)
  with n show ?thesis by blast
qed

lemma target_step_transition:
  "target (step_transition stp) = map_option State (step_target stp)"
  by (simp add: step_transition_def transition_stay_def transition_to_def split: option.splits)

lemma scenario_ok_next_declared:
  assumes "scenario_ok sd sc" and "next_state (machine_of sc) st op = Some t"
  shows "t \<in> fst ` set (states (machine_of sc))"
proof -
  obtain tr where tr: "transition_of (machine_of sc) st op = Some tr" "target tr = Some t"
    using assms(2) by (auto simp: next_state_def bind_eq_Some_conv)
  then obtain n ops stp where "(n, ops) \<in> set (entry_states sc)" "(op, stp) \<in> set ops"
    "tr = step_transition stp"
    using machine_of_transition by blast
  with tr(2) assms(1) show ?thesis
    by (fastforce simp: scenario_ok_def machine_of_declared target_step_transition)
qed

lemma scenario_ok_allowed_catalogued:
  assumes "scenario_ok sd sc" and "allows (machine_of sc) st op"
  shows "op \<in> fst ` set (sidecar_operations sd)"
proof -
  obtain n ops stp where "(n, ops) \<in> set (entry_states sc)" "(op, stp) \<in> set ops"
    using assms(2) machine_of_transition [of sc st op] by (auto simp: allows_iff_transition)
  with assms(1) show ?thesis unfolding scenario_ok_def by blast
qed

lemma sidecar_parse_ok:
  "sidecar_parse fv v = Inr vs \<Longrightarrow> sidecar_ok (document vs) \<and> version (document vs) = SUPPORTED_VERSION"
  by (auto simp: sidecar_parse_def simp flip: validate_sidecar_ok split: sum.splits if_splits)


lemma scenario_ok_reachable_declared:
  assumes ok: "scenario_ok sd sc" and "(moves (machine_of sc))\<^sup>*\<^sup>* (initial (machine_of sc)) st"
  shows "st \<in> fst ` set (states (machine_of sc))"
  using assms(2)
proof (induction rule: rtranclp_induct)
  case base
  show ?case using ok by (simp add: machine_of_declared)
    (simp add: machine_of_def scenario_new_def scenario_ok_def)
next
  case (step y z)
  from step.hyps(2) show ?case
    by (cases rule: moves.cases) (auto intro: scenario_ok_next_declared [OF ok])
qed

text \<open>
  C6. A machine of a parsed sidecar never gets lost: whatever operations fire, from its initial
  state it only ever visits declared states, and every operation it allows there is in the
  catalogue, so the runtime can always resolve it.
\<close>

theorem parsed_machine_closed:
  assumes "sidecar_parse fv v = Inr vs" and "sc \<in> set (scenarios (document vs))"
    and "(moves (machine_of sc))\<^sup>*\<^sup>* (initial (machine_of sc)) st"
  shows "st \<in> fst ` set (states (machine_of sc)) \<and>
    (\<forall>op. allows (machine_of sc) st op \<longrightarrow> op \<in> fst ` set (sidecar_operations (document vs)))"
proof -
  have ok: "scenario_ok (document vs) sc"
    using sidecar_parse_ok [OF assms(1)] assms(2) by (simp add: sidecar_ok_def)
  then have "st \<in> fst ` set (states (machine_of sc))"
    using assms(3) by (rule scenario_ok_reachable_declared)
  with ok show ?thesis using scenario_ok_allowed_catalogued by blast
qed

text \<open>C6 at a sidecar with one scenario, read from any document by a constant deserialiser.\<close>

definition demo_sidecar :: sidecar where
  "demo_sidecar =
     \<lparr>version = 1,
      sidecar_operations = [(''get'', \<lparr>matcher = OperationMatch ''GET'' ''/w'',
        entry_store = None, entry_responses = []\<rparr>)],
      scenarios = [\<lparr>entry_name = ''s'', initial_state = ''a'', seed = [],
        entry_states = [(''a'', [(''get'', \<lparr>step_target = Some ''b'', step_responses = []\<rparr>)]),
          (''b'', [])]\<rparr>]\<rparr>"

theorem parsed_machine_closed_witness:
  "State ''b'' \<in> fst ` set (states (machine_of (hd (scenarios demo_sidecar))))"
proof -
  let ?sc = "hd (scenarios demo_sidecar)"
  let ?fv = "\<lambda>_. Inr demo_sidecar"
  obtain vs where vs: "sidecar_parse ?fv Null = Inr vs" and doc: "document vs = demo_sidecar"
  proof -
    have "validate_sidecar demo_sidecar = Inr ()" by code_simp
    then show thesis
      by (intro that [of "\<lparr>document = demo_sidecar, warnings = collect_warnings demo_sidecar\<rparr>"])
        (simp_all add: sidecar_parse_def demo_sidecar_def SUPPORTED_VERSION_def)
  qed
  have sc: "?sc \<in> set (scenarios (document vs))"
    by (simp add: doc demo_sidecar_def)
  have "next_state (machine_of ?sc) (State ''a'') ''get'' = Some (State ''b'')" by code_simp
  moreover have "initial (machine_of ?sc) = State ''a''" by code_simp
  ultimately have "(moves (machine_of ?sc))\<^sup>*\<^sup>* (initial (machine_of ?sc)) (State ''b'')"
    by (auto intro: moves.intros)
  with parsed_machine_closed [OF vs sc] show ?thesis by blast
qed

end
