(* ===== verification/Scenario_Runtime.thy ===== *)
theory Scenario_Runtime
  imports Sidecar "HOL-Library.Product_Lexorder"
begin

text \<open>
  Session-scoped scenario execution, \<open>specmock-runtime/src/http/scenarios.rs\<close>: instances (a machine
  state and a store), their creation under the session cap, the store actions of an operation, and
  the resolution of a governed request, one request at a time. The live instances are a map from
  scenario and session to an instance; a request that reads or advances its instance returns the
  changed map. The JSON printer of \<open>serde_json\<close> is the parameter \<open>to_json\<close>.
\<close>

definition DEFAULT_SESSION :: string where
  "DEFAULT_SESSION = ''__default__''"

section \<open>Data\<close>

datatype stateful_failure =
    UnknownScenario string "string list"
  | IllegalOperation string string string string
  | ResourceNotFound string
  | ResourceExists string
  | SessionCapExceeded usize
  | StoreCapExceeded usize

fun failure_status :: "stateful_failure \<Rightarrow> nat" where
  "failure_status (UnknownScenario _ _) = 404"
| "failure_status (ResourceNotFound _) = 404"
| "failure_status (IllegalOperation _ _ _ _) = 409"
| "failure_status (ResourceExists _) = 409"
| "failure_status (SessionCapExceeded _) = 429"
| "failure_status (StoreCapExceeded _) = 500"

definition usize_text :: "usize \<Rightarrow> string" where
  "usize_text n = nat_to_string (unat n)"

fun failure_detail :: "stateful_failure \<Rightarrow> string" where
  "failure_detail (UnknownScenario requested available) =
     (if available = [] then ''no scenarios are declared, so '' @ quoted requested @ '' cannot be resolved''
      else ''unknown scenario '' @ quoted requested @ ''; declared scenarios: '' @ join '', '' available)"
| "failure_detail (IllegalOperation sc session st operation) =
     ''operation '' @ quoted operation @ '' is not legal in state '' @ quoted st @ '' of scenario ''
       @ quoted sc @ '' (session '' @ quoted session @ '')''"
| "failure_detail (ResourceNotFound k) = ''no resource exists at '' @ k"
| "failure_detail (ResourceExists k) = ''a resource already exists at '' @ k"
| "failure_detail (SessionCapExceeded cap) =
     ''live session cap of '' @ usize_text cap @ '' reached; raise --max-sessions''"
| "failure_detail (StoreCapExceeded cap) =
     ''store entry cap of '' @ usize_text cap @ '' reached; raise --max-store-entries''"

fun failure_extensions :: "stateful_failure \<Rightarrow> (string \<times> value) list" where
  "failure_extensions (IllegalOperation sc session st operation) =
     [(''scenario'', Str sc), (''session'', Str session), (''state'', Str st), (''operation'', Str operation)]"
| "failure_extensions (UnknownScenario requested _) = [(''scenario'', Str requested)]"
| "failure_extensions (ResourceNotFound k) = [(''resource'', Str k)]"
| "failure_extensions (ResourceExists k) = [(''resource'', Str k)]"
| "failure_extensions (SessionCapExceeded cap) = [(''limit'', value_of_u64 cap)]"
| "failure_extensions (StoreCapExceeded cap) = [(''limit'', value_of_u64 cap)]"

datatype resolution =
    Ungoverned
  | Body "value"
  | Empty
  | Forced nat "value option"
  | FailedWith stateful_failure

record scenario_instance =
  inst_scenario :: string
  inst_initial :: state
  inst_state :: state
  inst_store :: store
  inst_seed :: "seed_entry list"

record resolved_operation =
  resolved_name :: string
  resolved_store :: "store_spec option"
  resolved_responses :: "(string \<times> response_override) list"

type_synonym instance_key = "string \<times> string"

record scenario_runtime =
  rt_sidecar :: validated_sidecar
  by_request :: "string \<rightharpoonup> resolved_operation"
  live :: "(instance_key \<times> scenario_instance) list"
  max_sessions :: usize
  max_store_entries :: usize

datatype create_value = FollowKeySource | StoreResponse

text \<open>The arguments of one resolution.\<close>

record governed_request =
  want_scenario :: "string option"
  want_session :: "string option"
  req_method :: string
  req_template :: string
  req_params :: "(string \<times> string) list"
  req_body :: "value option"
  generated_body :: "value"
  forced_code :: bool
  validated :: bool
  create_from :: create_value

section \<open>Keys and namespaces\<close>

definition request_key :: "string \<Rightarrow> string \<Rightarrow> string" where
  "request_key m template = to_ascii_lowercase m @ '' '' @ template"

function bind_namespace :: "string \<Rightarrow> (string \<times> string) list \<Rightarrow> string" where
  "bind_namespace template ps =
     (case split_once CHR ''{'' template of
        None \<Rightarrow> template
      | Some (before, after) \<Rightarrow>
          before @
          (case split_once CHR ''}'' after of
             None \<Rightarrow> CHR ''{'' # after
           | Some (parameter, rest) \<Rightarrow>
               (case map_of ps parameter of Some v \<Rightarrow> v | None \<Rightarrow> ''{'' @ parameter @ ''}'')
                 @ bind_namespace rest ps))"
  by pat_completeness auto

termination
  by (relation "measure (\<lambda>(t, _). length t)") (auto simp: split_once_Some_iff)

declare bind_namespace.simps [simp del]

definition pointer_segments :: "string \<Rightarrow> string list" where
  "pointer_segments ptr = split_on CHR ''/'' (trim_start_matches CHR ''/'' ptr)"

definition pointer_value :: "(value \<Rightarrow> string) \<Rightarrow> value \<Rightarrow> string \<Rightarrow> string option" where
  "pointer_value to_json subject ptr =
     (case (if ptr = [] then Some subject
            else foldl (\<lambda>node seg. Option.bind node (\<lambda>n. get n seg)) (Some subject) (pointer_segments ptr)) of
        None \<Rightarrow> None
      | Some (Str s) \<Rightarrow> Some s
      | Some Null \<Rightarrow> None
      | Some other \<Rightarrow> Some (to_json other))"

definition resolve_create_key ::
  "(value \<Rightarrow> string) \<Rightarrow> store_spec \<Rightarrow> value option \<Rightarrow> value \<Rightarrow> string option" where
  "resolve_create_key to_json spec body gen =
     Option.bind (key_from spec) (\<lambda>src.
       Option.bind (case location src of RequestBody \<Rightarrow> body | ResponseBody \<Rightarrow> Some gen) (\<lambda>subject.
         pointer_value to_json subject (pointer src)))"

definition resolve_key ::
  "(value \<Rightarrow> string) \<Rightarrow> store_spec \<Rightarrow> (string \<times> string) list \<Rightarrow> value option \<Rightarrow> value \<Rightarrow> string option" where
  "resolve_key to_json spec ps body gen =
     (case Option.bind (spec_key spec) (\<lambda>name.
             map_of ps (case Option.bind (strip_prefix ''{'' name) (strip_suffix ''}'') of
                          Some parameter \<Rightarrow> parameter
                        | None \<Rightarrow> name)) of
        Some bound \<Rightarrow> Some bound
      | None \<Rightarrow> if key_from spec \<noteq> None then resolve_create_key to_json spec body gen else None)"

text \<open>Writing the identifier at a pointer, with missing or non-object parents replaced by objects.\<close>

definition members :: "value \<Rightarrow> (string \<times> value) list" where
  "members v = (case v of Object m \<Rightarrow> m | _ \<Rightarrow> [])"

fun align_at :: "string list \<Rightarrow> string \<Rightarrow> value \<Rightarrow> value" where
  "align_at [] ident v = v"
| "align_at [seg] ident v = Object (bt_insert seg (Str ident) (members v))"
| "align_at (seg # rest) ident v =
     Object (bt_insert seg
       (align_at rest ident (case map_of (members v) seg of Some w \<Rightarrow> w | None \<Rightarrow> Object []))
       (members v))"

definition align_identifier :: "value \<Rightarrow> string \<Rightarrow> string \<Rightarrow> value" where
  "align_identifier v ptr ident = (if ptr = [] then v else align_at (pointer_segments ptr) ident v)"

section \<open>Store actions\<close>

fun map_store_error :: "store_error \<Rightarrow> store_key \<Rightarrow> stateful_failure" where
  "map_store_error (NotFound _) k = ResourceNotFound (store_key_display k)"
| "map_store_error (AlreadyExists _) k = ResourceExists (store_key_display k)"
| "map_store_error (CapacityExceeded cap) k = StoreCapExceeded cap"

text \<open>The value a \<open>create\<close> files under an identifier.\<close>

definition created_value :: "store_spec \<Rightarrow> value option \<Rightarrow> value \<Rightarrow> create_value \<Rightarrow> string \<Rightarrow> value" where
  "created_value spec body gen cv ident =
     (if cv = FollowKeySource
         \<and> (case key_from spec of Some src \<Rightarrow> location src = RequestBody | None \<Rightarrow> False)
      then (case body of Some v \<Rightarrow> v | None \<Rightarrow> Null)
      else case key_from spec of
             Some src \<Rightarrow> if cv = StoreResponse then align_identifier gen (pointer src) ident else gen
           | None \<Rightarrow> gen)"

definition store_outcome ::
  "(store_error + unit) \<times> store \<Rightarrow> resolution \<Rightarrow> store_key \<Rightarrow> (stateful_failure + resolution) \<times> store" where
  "store_outcome r ok k =
     (case r of
        (Inr _, s) \<Rightarrow> (Inr ok, s)
      | (Inl e, s) \<Rightarrow> (Inl (map_store_error e k), s))"

definition apply_store ::
  "(value \<Rightarrow> string) \<Rightarrow> store \<Rightarrow> store_spec \<Rightarrow> governed_request
     \<Rightarrow> (stateful_failure + resolution) \<times> store" where
  "apply_store to_json s spec q =
     (let ns = bind_namespace (resource spec) (req_params q) in
      if action spec = List then (Inr (Body (Array (store_list s ns))), s)
      else if action spec = Create then
        (case resolve_create_key to_json spec (req_body q) (generated_body q) of
           None \<Rightarrow> (Inl (ResourceNotFound ns), s)
         | Some ident \<Rightarrow>
             let k = StoreKey ns ident;
                 v = created_value spec (req_body q) (generated_body q) (create_from q) ident
             in store_outcome (store_create s k v) (Body v) k)
      else
        case resolve_key to_json spec (req_params q) (req_body q) (generated_body q) of
          None \<Rightarrow> (Inl (ResourceNotFound ns), s)
        | Some ident \<Rightarrow>
            let k = StoreKey ns ident in
            case action spec of
              Read \<Rightarrow>
                (case store_read s k of
                   Some v \<Rightarrow> (Inr (Body v), s)
                 | None \<Rightarrow> (Inl (ResourceNotFound (store_key_display k)), s))
            | Update \<Rightarrow>
                let v = (case req_body q of Some v \<Rightarrow> v | None \<Rightarrow> Null)
                in store_outcome (store_update s k v) (Body v) k
            | Delete \<Rightarrow> store_outcome (store_delete s k) Empty k
            | _ \<Rightarrow> (Inr Ungoverned, s))"

section \<open>Instances\<close>

definition seed_identifier :: "(value \<Rightarrow> string) \<Rightarrow> value \<Rightarrow> nat \<Rightarrow> string" where
  "seed_identifier to_json item i =
     (case get item ''id'' of
        None \<Rightarrow> nat_to_string i
      | Some (Str s) \<Rightarrow> s
      | Some other \<Rightarrow> to_json other)"

text \<open>A seed item that collides with an earlier one is dropped with a warning.\<close>

definition apply_seed :: "(value \<Rightarrow> string) \<Rightarrow> seed_entry list \<Rightarrow> store \<Rightarrow> store" where
  "apply_seed to_json entries s =
     foldl (\<lambda>s entry.
       foldl (\<lambda>s (i, item).
           snd (store_create s (StoreKey (seed_resource entry) (seed_identifier to_json item i)) item))
         s (List.enumerate 0 (seed_items entry)))
       s entries"

definition instance_new ::
  "(value \<Rightarrow> string) \<Rightarrow> string \<Rightarrow> state \<Rightarrow> seed_entry list \<Rightarrow> usize \<Rightarrow> scenario_instance" where
  "instance_new to_json sc st sd cap =
     \<lparr>inst_scenario = sc, inst_initial = st, inst_state = st,
      inst_store = apply_seed to_json sd (store_new cap), inst_seed = sd\<rparr>"

definition instance_reset :: "(value \<Rightarrow> string) \<Rightarrow> scenario_instance \<Rightarrow> scenario_instance" where
  "instance_reset to_json i =
     i\<lparr>inst_state := inst_initial i,
       inst_store := apply_seed to_json (inst_seed i) (snd (store_clear (inst_store i)))\<rparr>"

definition move_to :: "scenario_instance \<Rightarrow> state \<Rightarrow> scenario_instance" where
  "move_to i st = i\<lparr>inst_state := st\<rparr>"

section \<open>The runtime\<close>

definition runtime_new :: "validated_sidecar \<Rightarrow> usize \<Rightarrow> usize \<Rightarrow> scenario_runtime" where
  "runtime_new vs sessions_cap store_cap =
     \<lparr>rt_sidecar = vs,
      by_request = map_of (rev (map (\<lambda>(name, e).
        (request_key (match_method (matcher e)) (match_path (matcher e)),
         \<lparr>resolved_name = name, resolved_store = entry_store e, resolved_responses = entry_responses e\<rparr>))
        (sidecar_operations (document vs)))),
      live = [], max_sessions = sessions_cap, max_store_entries = store_cap\<rparr>"

definition runtime_from_value ::
  "(value \<Rightarrow> string + sidecar) \<Rightarrow> value \<Rightarrow> usize \<Rightarrow> usize \<Rightarrow> sidecar_error + scenario_runtime" where
  "runtime_from_value from_value v sessions_cap store_cap =
     map_sum id (\<lambda>vs. runtime_new vs sessions_cap store_cap) (sidecar_parse from_value v)"

definition default_scenario_name :: "scenario_runtime \<Rightarrow> string option" where
  "default_scenario_name rt = map_option entry_name (default_scenario (rt_sidecar rt))"

definition runtime_scenario_names :: "scenario_runtime \<Rightarrow> string list" where
  "runtime_scenario_names rt = scenario_names (rt_sidecar rt)"

definition session_count :: "scenario_runtime \<Rightarrow> nat" where
  "session_count rt = length (live rt)"

definition release :: "scenario_runtime \<Rightarrow> string \<Rightarrow> string \<Rightarrow> bool \<times> scenario_runtime" where
  "release rt sc session =
     (map_of (live rt) (sc, session) \<noteq> None, rt\<lparr>live := AList.delete (sc, session) (live rt)\<rparr>)"

definition reset_all :: "(value \<Rightarrow> string) \<Rightarrow> scenario_runtime \<Rightarrow> nat \<times> scenario_runtime" where
  "reset_all to_json rt =
     (length (live rt), rt\<lparr>live := map (\<lambda>(k, i). (k, instance_reset to_json i)) (live rt)\<rparr>)"

definition session_state_for :: "scenario_runtime \<Rightarrow> string \<Rightarrow> string \<Rightarrow> (string \<times> string) option" where
  "session_state_for rt sc session =
     map_option (\<lambda>i. (inst_scenario i, state_name (inst_state i)))
       (map_of (live rt) (sc, if session = [] then DEFAULT_SESSION else session))"

definition session_state :: "scenario_runtime \<Rightarrow> string \<Rightarrow> (string \<times> string) option" where
  "session_state rt session =
     Option.bind (default_scenario_name rt) (\<lambda>sc. session_state_for rt sc session)"

definition sessions :: "scenario_runtime \<Rightarrow> instance_key list" where
  "sessions rt = sort (map fst (live rt))"

definition runtime_machine :: "scenario_runtime \<Rightarrow> string \<Rightarrow> scenario option" where
  "runtime_machine rt name = map_option machine_of (find_scenario (rt_sidecar rt) name)"

text \<open>
  The live instance of a machine and a session, created on first use unless the cap is reached.
  The second lookup before the insertion guards against a concurrent insertion; no other request
  runs in between here.
\<close>

definition acquire ::
  "(value \<Rightarrow> string) \<Rightarrow> scenario_runtime \<Rightarrow> scenario \<Rightarrow> string
     \<Rightarrow> (stateful_failure + scenario_instance) \<times> scenario_runtime" where
  "acquire to_json rt m session =
     (let k = (scenario_name m, session) in
      case map_of (live rt) k of
        Some i \<Rightarrow> (Inr i, rt)
      | None \<Rightarrow>
          if unat (max_sessions rt) \<le> length (live rt)
          then (Inl (SessionCapExceeded (max_sessions rt)), rt)
          else case find_scenario (rt_sidecar rt) (scenario_name m) of
                 None \<Rightarrow> (Inl (UnknownScenario (scenario_name m) (runtime_scenario_names rt)), rt)
               | Some e \<Rightarrow>
                   let fresh = instance_new to_json (scenario_name m) (initial m) (seed e) (max_store_entries rt)
                   in (Inr fresh, rt\<lparr>live := (k, fresh) # live rt\<rparr>))"

definition step_overrides :: "scenario \<Rightarrow> state \<Rightarrow> string \<Rightarrow> (string \<times> response_override) list" where
  "step_overrides m st operation =
     (case transition_of m st operation of None \<Rightarrow> [] | Some tr \<Rightarrow> responses tr)"

text \<open>The declared override of an operation, the state's first, applied to an outcome that is not a failure.\<close>

definition apply_override ::
  "(string \<times> response_override) list \<Rightarrow> (string \<times> response_override) list \<Rightarrow> resolution \<Rightarrow> resolution" where
  "apply_override of_state of_operation outcome =
     (case outcome of
        FailedWith _ \<Rightarrow> outcome
      | Forced _ _ \<Rightarrow> outcome
      | _ \<Rightarrow>
          (case of_state @ of_operation of
             [] \<Rightarrow> outcome
           | (declared, spec) # _ \<Rightarrow>
               let st = (case parse_unsigned u16_max declared of Some n \<Rightarrow> n | None \<Rightarrow> 500) in
               case outcome of
                 Body b \<Rightarrow> Forced st (Some (case override_body spec of Some v \<Rightarrow> v | None \<Rightarrow> b))
               | _ \<Rightarrow> Forced st (override_body spec)))"

text \<open>What a request does to the instance it addresses.\<close>

definition serve_instance ::
  "(value \<Rightarrow> string) \<Rightarrow> scenario \<Rightarrow> string \<Rightarrow> resolved_operation \<Rightarrow> governed_request \<Rightarrow> scenario_instance
     \<Rightarrow> resolution \<times> scenario_instance" where
  "serve_instance to_json m session operation q i =
     (let st = inst_state i; name = resolved_name operation in
      if \<not> allows m st name then
        (FailedWith (IllegalOperation (scenario_name m) session (state_name st) name), i)
      else if \<not> validated q then (Ungoverned, i)
      else
        let (result, s) = (case resolved_store operation of
                             None \<Rightarrow> (Inr Ungoverned, inst_store i)
                           | Some spec \<Rightarrow> apply_store to_json (inst_store i) spec q);
            outcome = apply_override (step_overrides m st name) (resolved_responses operation)
              (case result of Inl f \<Rightarrow> FailedWith f | Inr r \<Rightarrow> r);
            i = i\<lparr>inst_store := s\<rparr>
        in (outcome, case next_state m st name of Some t \<Rightarrow> move_to i t | None \<Rightarrow> i))"

definition resolve_with ::
  "(value \<Rightarrow> string) \<Rightarrow> scenario_runtime \<Rightarrow> governed_request \<Rightarrow> resolution \<times> scenario_runtime" where
  "resolve_with to_json rt q =
     (if forced_code q then (Ungoverned, rt)
      else
        let name = (case want_scenario q of
                      Some n \<Rightarrow> n
                    | None \<Rightarrow> (case default_scenario_name rt of Some n \<Rightarrow> n | None \<Rightarrow> [])) in
        case runtime_machine rt name of
          None \<Rightarrow>
            (case want_scenario q of
               Some requested \<Rightarrow> (FailedWith (UnknownScenario requested (runtime_scenario_names rt)), rt)
             | None \<Rightarrow> (Ungoverned, rt))
        | Some m \<Rightarrow>
            (case by_request rt (request_key (req_method q) (req_template q)) of
               None \<Rightarrow> (Ungoverned, rt)
             | Some operation \<Rightarrow>
                 let session = (case want_session q of Some s \<Rightarrow> s | None \<Rightarrow> DEFAULT_SESSION) in
                 (case acquire to_json rt m session of
                    (Inl f, rt) \<Rightarrow> (FailedWith f, rt)
                  | (Inr i, rt) \<Rightarrow>
                      let (r, i') = serve_instance to_json m session operation q i
                      in (r, rt\<lparr>live := AList.map_entry (scenario_name m, session) (\<lambda>_. i') (live rt)\<rparr>))))"

definition scenario_resolve ::
  "(value \<Rightarrow> string) \<Rightarrow> scenario_runtime \<Rightarrow> string option \<Rightarrow> string option \<Rightarrow> string \<Rightarrow> string
     \<Rightarrow> (string \<times> string) list \<Rightarrow> value option \<Rightarrow> value \<Rightarrow> bool \<Rightarrow> bool \<Rightarrow> resolution \<times> scenario_runtime" where
  "scenario_resolve to_json rt sc session m template ps body gen code ok =
     resolve_with to_json rt
       \<lparr>want_scenario = sc, want_session = session, req_method = m, req_template = template,
        req_params = ps, req_body = body, generated_body = gen, forced_code = code, validated = ok,
        create_from = FollowKeySource\<rparr>"

definition resolve_channel ::
  "(value \<Rightarrow> string) \<Rightarrow> scenario_runtime \<Rightarrow> string \<Rightarrow> string \<Rightarrow> string \<Rightarrow> value option \<Rightarrow> value
     \<Rightarrow> resolution \<times> scenario_runtime" where
  "resolve_channel to_json rt sc session channel incoming gen =
     scenario_resolve to_json rt (Some sc) (Some session) ''channel'' channel [] incoming gen False True"

definition resolve_grpc ::
  "(value \<Rightarrow> string) \<Rightarrow> scenario_runtime \<Rightarrow> string option \<Rightarrow> string option \<Rightarrow> string \<Rightarrow> value \<Rightarrow> value
     \<Rightarrow> resolution \<times> scenario_runtime" where
  "resolve_grpc to_json rt sc session method_path request response =
     resolve_with to_json rt
       \<lparr>want_scenario = sc, want_session = session, req_method = ''unary'', req_template = method_path,
        req_params = [], req_body = Some request, generated_body = response, forced_code = False,
        validated = True, create_from = StoreResponse\<rparr>"

end
