(* ===== verification/Scenario_Props.thy ===== *)
theory Scenario_Props
  imports Scenario_Runtime
begin

text \<open>
  What the scenario runtime guarantees: an invariant of every reachable runtime, isolation of the
  sessions, what a refused request leaves alone, what the store actions read back, and what a reset
  restores.
\<close>

section \<open>Stores and instances\<close>

lemma store_limit_ops [simp]:
  "store_limit (snd (store_create s k v)) = store_limit s"
  "store_limit (snd (store_update s k v)) = store_limit s"
  "store_limit (snd (store_delete s k)) = store_limit s"
  "store_limit (snd (store_clear s)) = store_limit s"
  "store_limit (store_new cap) = cap"
  by (auto simp: store_op_defs Let_def split: option.splits)

definition store_ok :: "usize \<Rightarrow> store \<Rightarrow> bool" where
  "store_ok cap s \<longleftrightarrow> store_inv s \<and> store_limit s = cap"

lemma store_ok_ops [simp]:
  "store_ok cap s \<Longrightarrow> store_ok cap (snd (store_create s k v))"
  "store_ok cap s \<Longrightarrow> store_ok cap (snd (store_update s k v))"
  "store_ok cap s \<Longrightarrow> store_ok cap (snd (store_delete s k))"
  "store_ok cap (store_new cap)"
  by (simp_all add: store_ok_def sto.create_inv sto.update_inv sto.delete_inv store_inv_new)

lemma store_clear_new: "snd (store_clear s) = store_new (store_limit s)"
  by (simp add: store_clear_def store_new_def)

lemma snd_store_outcome [simp]: "snd (store_outcome r ok k) = snd r"
  by (auto simp: store_outcome_def split: prod.split sum.split)

lemma apply_store_ok: "store_ok cap s \<Longrightarrow> store_ok cap (snd (apply_store tj s spec q))"
  by (auto simp: apply_store_def Let_def split: option.split store_action.split)

lemma apply_seed_ok: "store_ok cap s \<Longrightarrow> store_ok cap (apply_seed tj entries s)"
proof (unfold apply_seed_def, induction entries arbitrary: s)
  case (Cons e entries)
  have "store_ok cap s \<Longrightarrow> store_ok cap (foldl (\<lambda>s (i, item).
      snd (store_create s (StoreKey (seed_resource e) (seed_identifier tj item i)) item)) s xs)" for xs
    by (induction xs arbitrary: s) auto
  with Cons show ?case by simp
qed simp

definition instance_ok :: "scenario_entry \<Rightarrow> usize \<Rightarrow> scenario_instance \<Rightarrow> bool" where
  "instance_ok e cap i \<longleftrightarrow>
     inst_scenario i = entry_name e \<and> inst_initial i = State (initial_state e) \<and> inst_seed i = seed e \<and>
     store_ok cap (inst_store i) \<and>
     (moves (machine_of e))\<^sup>*\<^sup>* (State (initial_state e)) (inst_state i)"

text \<open>The instance a session starts with.\<close>

definition fresh_instance :: "(value \<Rightarrow> string) \<Rightarrow> usize \<Rightarrow> scenario_entry \<Rightarrow> scenario_instance" where
  "fresh_instance tj cap e = instance_new tj (entry_name e) (State (initial_state e)) (seed e) cap"

lemma fresh_instance_ok: "instance_ok e cap (fresh_instance tj cap e)"
  by (simp add: instance_ok_def fresh_instance_def instance_new_def apply_seed_ok)

lemma reset_is_fresh: "instance_ok e cap i \<Longrightarrow> instance_reset tj i = fresh_instance tj cap e"
  by (simp add: instance_ok_def instance_reset_def fresh_instance_def instance_new_def store_clear_new store_ok_def)

lemma machine_of_sel [simp]:
  "scenario_name (machine_of e) = entry_name e" "initial (machine_of e) = State (initial_state e)"
  by (simp_all add: machine_of_def scenario_new_def)

lemma serve_instance_ok:
  assumes "instance_ok e cap i"
  shows "instance_ok e cap (snd (serve_instance tj (machine_of e) session operation q i))"
  using assms apply_store_ok [of cap "inst_store i" tj _ q]
  by (auto simp: instance_ok_def serve_instance_def move_to_def Let_def split_def
      intro: moves.intros rtranclp.rtrancl_into_rtrancl split: option.split)

section \<open>Reachable runtimes\<close>

definition runtime_inv :: "scenario_runtime \<Rightarrow> bool" where
  "runtime_inv rt \<longleftrightarrow>
     sidecar_ok (document (rt_sidecar rt)) \<and> distinct (map fst (live rt)) \<and>
     length (live rt) \<le> unat (max_sessions rt) \<and>
     (\<forall>(k, i)\<in>set (live rt). \<exists>e. find_scenario (rt_sidecar rt) (fst k) = Some e \<and>
        instance_ok e (max_store_entries rt) i)"

lemma find_scenario_name: "find_scenario vs n = Some e \<Longrightarrow> entry_name e = n \<and> e \<in> set (scenarios (document vs))"
  by (auto simp: find_scenario_def dest: find_Some_mem)

lemma runtime_inv_instance:
  assumes "runtime_inv rt" and "map_of (live rt) (n, s) = Some i" and "find_scenario (rt_sidecar rt) n = Some e"
  shows "instance_ok e (max_store_entries rt) i"
  using assms map_of_SomeD [OF assms(2)] by (auto simp: runtime_inv_def)

text \<open>Where a request goes: its scenario, its session and its operation, if a scenario governs it.\<close>

definition governed ::
  "scenario_runtime \<Rightarrow> governed_request \<Rightarrow> (scenario_entry \<times> string \<times> resolved_operation) option" where
  "governed rt q =
     (if forced_code q then None
      else Option.bind (find_scenario (rt_sidecar rt)
              (case want_scenario q of Some n \<Rightarrow> n
               | None \<Rightarrow> (case default_scenario_name rt of Some n \<Rightarrow> n | None \<Rightarrow> []))) (\<lambda>e.
            map_option (\<lambda>operation. (e, case want_session q of Some s \<Rightarrow> s | None \<Rightarrow> DEFAULT_SESSION, operation))
              (by_request rt (request_key (req_method q) (req_template q)))))"

lemma governed_name: "governed rt q = Some (e, s, operation) \<Longrightarrow> find_scenario (rt_sidecar rt) (entry_name e) = Some e"
  using find_scenario_name by (fastforce simp: governed_def bind_eq_Some_conv split: if_splits)

lemma resolve_ungoverned: "governed rt q = None \<Longrightarrow> snd (resolve_with tj rt q) = rt"
  by (auto simp: governed_def resolve_with_def runtime_machine_def Let_def split: option.splits if_splits)

lemma map_entry_same: "map_of m k = Some v \<Longrightarrow> distinct (map fst m) \<Longrightarrow> AList.map_entry k (\<lambda>_. v) m = m"
  by (induction m) (auto simp: map_of_eq_None_iff image_iff dest: map_of_SomeD)

lemma map_entry_absent: "k \<notin> fst ` set m \<Longrightarrow> AList.map_entry k f m = m"
  by (induction m) auto

lemma map_entry_mem: "x \<in> set (AList.map_entry k (\<lambda>_. v) m) \<Longrightarrow> x = (k, v) \<or> x \<in> set m"
  by (induction m) (auto split: if_splits)

lemma length_map_entry [simp]: "length (AList.map_entry k f m) = length m"
  by (induction m) auto

text \<open>A governed request serves the live instance, or a fresh one if the cap allows it.\<close>

lemma resolve_governed:
  assumes "governed rt q = Some (e, s, operation)"
  shows "resolve_with tj rt q =
    (case map_of (live rt) (entry_name e, s) of
       Some i \<Rightarrow>
         let (r, i') = serve_instance tj (machine_of e) s operation q i
         in (r, rt\<lparr>live := AList.map_entry (entry_name e, s) (\<lambda>_. i') (live rt)\<rparr>)
     | None \<Rightarrow>
         if unat (max_sessions rt) \<le> length (live rt) then (FailedWith (SessionCapExceeded (max_sessions rt)), rt)
         else let (r, i') = serve_instance tj (machine_of e) s operation q (fresh_instance tj (max_store_entries rt) e)
              in (r, rt\<lparr>live := ((entry_name e, s), i') # live rt\<rparr>))"
proof -
  have "resolve_with tj rt q =
    (case acquire tj rt (machine_of e) s of
       (Inl f, rt) \<Rightarrow> (FailedWith f, rt)
     | (Inr i, rt) \<Rightarrow>
         let (r, i') = serve_instance tj (machine_of e) s operation q i
         in (r, rt\<lparr>live := AList.map_entry (entry_name e, s) (\<lambda>_. i') (live rt)\<rparr>))"
    using assms
    by (auto simp: governed_def resolve_with_def runtime_machine_def Let_def bind_eq_Some_conv
        split: if_splits prod.split sum.split)
  moreover have "AList.map_entry (entry_name e, s) f (live rt) = live rt"
    if "map_of (live rt) (entry_name e, s) = None" for f
    using that by (intro map_entry_absent) (simp add: map_of_eq_None_iff)
  ultimately show ?thesis
    using governed_name [OF assms]
    by (auto simp: acquire_def Let_def fresh_instance_def split_def split: option.splits)
qed

text \<open>Every request leaves the configuration alone.\<close>

lemma resolve_config [simp]:
  "rt_sidecar (snd (resolve_with tj rt q)) = rt_sidecar rt"
  "by_request (snd (resolve_with tj rt q)) = by_request rt"
  "max_sessions (snd (resolve_with tj rt q)) = max_sessions rt"
  "max_store_entries (snd (resolve_with tj rt q)) = max_store_entries rt"
  by (cases "governed rt q";
      auto simp: resolve_ungoverned resolve_governed Let_def split_def split: option.splits)+

inductive runtime_step :: "(value \<Rightarrow> string) \<Rightarrow> scenario_runtime \<Rightarrow> scenario_runtime \<Rightarrow> bool" for tj where
  serve: "runtime_step tj rt (snd (resolve_with tj rt q))"
| closed: "runtime_step tj rt (snd (release rt sc session))"
| cleared: "runtime_step tj rt (snd (reset_all tj rt))"

definition started :: "(value \<Rightarrow> string + sidecar) \<Rightarrow> scenario_runtime \<Rightarrow> bool" where
  "started from_value rt \<longleftrightarrow> (\<exists>v m n. runtime_from_value from_value v m n = Inr rt)"

lemma resolve_inv:
  assumes inv: "runtime_inv rt"
  shows "runtime_inv (snd (resolve_with tj rt q))"
proof (cases "governed rt q")
  case None
  with inv show ?thesis by (simp add: resolve_ungoverned)
next
  case (Some g)
  obtain e s operation where g: "governed rt q = Some (e, s, operation)" using Some by (cases g) auto
  let ?k = "(entry_name e, s)" and ?serve = "\<lambda>i. snd (serve_instance tj (machine_of e) s operation q i)"
  note e = governed_name [OF g]
  show ?thesis
  proof (cases "map_of (live rt) ?k")
    case None
    have "instance_ok e (max_store_entries rt) (?serve (fresh_instance tj (max_store_entries rt) e))"
      by (intro serve_instance_ok fresh_instance_ok)
    moreover have "?k \<notin> fst ` set (live rt)" using None by (simp add: map_of_eq_None_iff)
    ultimately show ?thesis
      using None inv e by (auto simp: resolve_governed [OF g] runtime_inv_def Let_def split_def)
  next
    case (Some i)
    have "instance_ok e (max_store_entries rt) (?serve i)"
      using runtime_inv_instance [OF inv Some e] by (rule serve_instance_ok)
    with Some inv e show ?thesis
      by (auto simp: resolve_governed [OF g] runtime_inv_def Let_def split_def dest!: map_entry_mem)
  qed
qed

lemma release_inv: "runtime_inv rt \<Longrightarrow> runtime_inv (snd (release rt sc session))"
  using AList.length_delete_le [of "(sc, session)" "live rt"]
  by (auto simp: runtime_inv_def release_def AList.distinct_delete) (auto simp: AList.delete_eq)

lemma reset_all_inv:
  assumes "runtime_inv rt"
  shows "runtime_inv (snd (reset_all tj rt))"
  using assms reset_is_fresh fresh_instance_ok
  by (fastforce simp: runtime_inv_def reset_all_def comp_def split_def)

interpretation sr: invariant_system "started fv" "runtime_step tj" runtime_inv for fv tj
proof
  fix rt
  assume "started fv rt"
  then obtain v vs m n where "sidecar_parse fv v = Inr vs" "rt = runtime_new vs m n"
    by (auto simp: started_def runtime_from_value_def elim!: map_sum_InrE)
  then show "runtime_inv rt"
    using sidecar_parse_ok [of fv v vs] by (simp add: runtime_inv_def runtime_new_def)
next
  fix rt rt'
  assume "runtime_inv rt" "runtime_step tj rt rt'"
  then show "runtime_inv rt'"
    by (auto elim!: runtime_step.cases intro: resolve_inv release_inv reset_all_inv)
qed

text \<open>
  Every reachable scenario runtime is sound: it holds at most \<open>max_sessions\<close> instances, each
  belongs to the declared scenario it is filed under and is in a state that scenario declares,
  and its store holds at most \<open>max_store_entries\<close> resources, whatever requests, releases and resets
  came before.
\<close>

theorem scenario_runtime_invariant:
  assumes "reachable_from (started fv) (runtime_step tj) rt"
  shows "session_count rt \<le> unat (max_sessions rt)
    \<and> (\<forall>sc session i. map_of (live rt) (sc, session) = Some i \<longrightarrow>
        (\<exists>e. find_scenario (rt_sidecar rt) sc = Some e \<and> inst_scenario i = sc \<and>
           inst_state i \<in> fst ` set (states (machine_of e)) \<and>
           length (store_entries (inst_store i)) \<le> unat (max_store_entries rt)))"
proof (intro conjI allI impI)
  have inv: "runtime_inv rt" using assms by (rule sr.reachable_inv)
  then show "session_count rt \<le> unat (max_sessions rt)" by (simp add: runtime_inv_def session_count_def)
  fix sc session i
  assume i: "map_of (live rt) (sc, session) = Some i"
  obtain e where e: "find_scenario (rt_sidecar rt) sc = Some e" and ok: "instance_ok e (max_store_entries rt) i"
    using inv map_of_SomeD [OF i] by (auto simp: runtime_inv_def)
  have "scenario_ok (document (rt_sidecar rt)) e"
    using inv find_scenario_name [OF e] by (auto simp: runtime_inv_def sidecar_ok_def)
  then have "inst_state i \<in> fst ` set (states (machine_of e))"
    using ok by (auto simp: instance_ok_def intro: scenario_ok_reachable_declared)
  moreover have "length (store_entries (inst_store i)) \<le> unat (max_store_entries rt)"
    using ok by (auto simp: instance_ok_def store_ok_def store_inv_def word_le_nat_alt)
  ultimately show "\<exists>e. find_scenario (rt_sidecar rt) sc = Some e \<and> inst_scenario i = sc \<and>
      inst_state i \<in> fst ` set (states (machine_of e)) \<and>
      length (store_entries (inst_store i)) \<le> unat (max_store_entries rt)"
    using e ok find_scenario_name [OF e] by (auto simp: instance_ok_def)
qed

section \<open>Requests that must not move anything\<close>

fun store_failure :: "stateful_failure \<Rightarrow> bool" where
  "store_failure (ResourceNotFound _) = True"
| "store_failure (ResourceExists _) = True"
| "store_failure (StoreCapExceeded _) = True"
| "store_failure _ = False"

lemma map_store_error_failure [simp]: "store_failure (map_store_error e k)"
  by (cases e) simp_all

lemma apply_store_failure: "fst (apply_store tj s spec q) = Inl f \<Longrightarrow> store_failure f"
  by (auto simp: apply_store_def store_outcome_def Let_def
      split: option.splits store_action.splits if_splits prod.splits sum.splits)

lemma apply_store_never_fails [simp]: "fst (apply_store tj s spec q) \<noteq> Inr (FailedWith f)"
  by (auto simp: apply_store_def store_outcome_def Let_def
      split: option.splits store_action.splits if_splits prod.splits sum.splits)

definition not_carried_out :: "governed_request \<Rightarrow> resolution \<Rightarrow> bool" where
  "not_carried_out q r \<longleftrightarrow>
     forced_code q \<or> \<not> validated q \<or> (\<exists>f. r = FailedWith f \<and> \<not> store_failure f)"

lemma apply_override_failure: "apply_override a b r = FailedWith f \<longleftrightarrow> r = FailedWith f"
  by (cases r) (auto simp: apply_override_def Let_def split: list.splits)

lemma serve_not_carried_out:
  assumes "not_carried_out q (fst (serve_instance tj m s operation q i))" and "\<not> forced_code q"
  shows "snd (serve_instance tj m s operation q i) = i"
proof (cases "allows m (inst_state i) (resolved_name operation) \<and> validated q")
  case True
  with assms obtain f where "fst (serve_instance tj m s operation q i) = FailedWith f" "\<not> store_failure f"
    by (auto simp: not_carried_out_def)
  with True apply_store_failure [of tj "inst_store i" _ q f] show ?thesis
    by (auto simp: serve_instance_def Let_def split_def apply_override_failure split: option.splits sum.splits)
qed (auto simp: serve_instance_def Let_def)

text \<open>
  C11. A request that is not carried out changes no state and no store: if it asks for a code, fails
  validation, or is answered with a failure other than that of a store action (an operation that is
  illegal in the current state, an unknown scenario, the session cap), then every live instance is
  left as it was, and the only instance that can appear is a fresh one of a declared scenario.
\<close>

theorem refused_request_changes_nothing:
  assumes "reachable_from (started fv) (runtime_step tj) rt"
    and "resolve_with tj rt q = (r, rt')" and "not_carried_out q r"
  shows "live rt' = live rt \<or>
    (\<exists>e session. find_scenario (rt_sidecar rt) (entry_name e) = Some e \<and>
       map_of (live rt) (entry_name e, session) = None \<and>
       live rt' = ((entry_name e, session), fresh_instance tj (max_store_entries rt) e) # live rt)"
proof (cases "governed rt q")
  case None
  with assms(2) resolve_ungoverned [of rt q tj] show ?thesis by simp
next
  case (Some g)
  obtain e s operation where g: "governed rt q = Some (e, s, operation)" using Some by (cases g) auto
  then have code: "\<not> forced_code q" by (auto simp: governed_def)
  have distinct: "distinct (map fst (live rt))"
    using sr.reachable_inv [OF assms(1)] by (simp add: runtime_inv_def)
  show ?thesis
    using assms(2,3) governed_name [OF g] map_entry_same [OF _ distinct]
    by (auto simp: resolve_governed [OF g] Let_def split_def
        serve_not_carried_out [OF _ code] split: option.splits if_splits)
qed

section \<open>What store actions read back\<close>

definition reads_key :: "(value \<Rightarrow> string) \<Rightarrow> store_spec \<Rightarrow> governed_request \<Rightarrow> store_key \<Rightarrow> bool" where
  "reads_key tj spec q k \<longleftrightarrow> action spec = Read \<and> bind_namespace (resource spec) (req_params q) = namespace k \<and>
     resolve_key tj spec (req_params q) (req_body q) (generated_body q) = Some (key_id k)"

definition addressed_key :: "(value \<Rightarrow> string) \<Rightarrow> store_spec \<Rightarrow> governed_request \<Rightarrow> store_key option" where
  "addressed_key tj spec q =
     map_option (StoreKey (bind_namespace (resource spec) (req_params q)))
       (if action spec = Create then resolve_create_key tj spec (req_body q) (generated_body q)
        else resolve_key tj spec (req_params q) (req_body q) (generated_body q))"

definition read_answer :: "store_key \<Rightarrow> value option \<Rightarrow> stateful_failure + resolution" where
  "read_answer k found =
     (case found of Some v \<Rightarrow> Inr (Body v) | None \<Rightarrow> Inl (ResourceNotFound (store_key_display k)))"

lemma apply_read: "reads_key tj spec q k \<Longrightarrow> apply_store tj s spec q = (read_answer k (store_read s k), s)"
  by (cases k) (auto simp: reads_key_def apply_store_def read_answer_def Let_def split: option.splits)

lemma store_outcome_Inr: "store_outcome x ok k = (Inr r, s') \<longleftrightarrow> r = ok \<and> x = (Inr (), s')"
  by (auto simp: store_outcome_def split: prod.splits sum.splits)

lemma store_read_back:
  assumes "store_inv s" and "apply_store tj s spec q = (Inr r, s')"
    and "action spec \<in> {Create, Update, Delete}" and "reads_key tj spec' q' k"
  shows "fst (apply_store tj s' spec' q') =
    (if addressed_key tj spec q \<noteq> Some k then fst (apply_store tj s spec' q')
     else if action spec = Delete then Inl (ResourceNotFound (store_key_display k)) else Inr r)"
proof -
  obtain k0 where k0: "addressed_key tj spec q = Some k0"
    using assms(2,3) by (auto simp: apply_store_def addressed_key_def Let_def split: option.splits)
  have "store_read s' k = (if k = k0 then (case r of Body v \<Rightarrow> Some v | _ \<Rightarrow> None) else store_read s k)"
    and "r = Empty \<longleftrightarrow> action spec = Delete" and "action spec = Delete \<or> (\<exists>v. r = Body v)"
    using assms(2,3) k0
    by (auto simp: apply_store_def addressed_key_def Let_def store_outcome_Inr
        sto.read_after_create [OF assms(1)] sto.read_after_update [OF assms(1)]
        sto.read_after_delete [OF assms(1)] split: option.splits)
  then show ?thesis
    using k0 by (auto simp: apply_read [OF assms(4)] read_answer_def split: option.splits)
qed

text \<open>
  C12. Store actions read back: once a create or update answers with a body, a read of the same
  identifier answers with exactly that body, whatever operation and request it comes from; once a
  delete answers, the read answers that there is no such resource; and a read of any other
  identifier, of that or another namespace, answers as before.
\<close>

theorem store_actions_read_back:
  assumes "store_inv s" and "apply_store tj s spec q = (Inr r, s')"
    and "action spec \<in> {Create, Update, Delete}" and "reads_key tj spec' q' k"
  shows "fst (apply_store tj s' spec' q') =
    (if addressed_key tj spec q \<noteq> Some k then fst (apply_store tj s spec' q')
     else if action spec = Delete then Inl (ResourceNotFound (store_key_display k)) else Inr r)"
  using assms by (rule store_read_back)

text \<open>Aligning a document puts the identifier where the pointer finds it.\<close>

abbreviation follow :: "value \<Rightarrow> string list \<Rightarrow> value option" where
  "follow v segs \<equiv> foldl (\<lambda>node seg. Option.bind node (\<lambda>n. get n seg)) (Some v) segs"

lemma follow_Cons: "follow v (seg # segs) = Option.bind (get v seg) (\<lambda>n. follow n segs)"
proof -
  have "foldl (\<lambda>node seg. Option.bind node (\<lambda>n. get n seg)) None segs = None" by (induction segs) auto
  then show ?thesis by (cases "get v seg") auto
qed

lemma follow_align: "segs \<noteq> [] \<Longrightarrow> follow (align_at segs ident v) segs = Some (Str ident)"
proof (induction segs ident v rule: align_at.induct)
  case (3 seg seg' rest ident v)
  then show ?case by (subst follow_Cons) simp
qed simp_all

text \<open>
  A resource created over gRPC carries the identifier it is filed under: reading the declared
  pointer in the stored response gives back the identifier, whatever the generated response looks
  like, so the client can look up the resource with the identifier it was handed.
\<close>

theorem created_response_identifies:
  assumes "key_from spec = Some src" and "pointer src \<noteq> []"
  shows "pointer_value tj (created_value spec body gen StoreResponse ident) (pointer src) = Some ident"
  using assms
  by (simp add: created_value_def align_identifier_def pointer_value_def pointer_segments_def follow_align)

section \<open>Reset\<close>


section \<open>Isolation of sessions\<close>

text \<open>The instance a request addresses, and the replies of a sequence of requests.\<close>

definition addressed :: "scenario_runtime \<Rightarrow> governed_request \<Rightarrow> instance_key option" where
  "addressed rt q = map_option (\<lambda>(e, s, _). (entry_name e, s)) (governed rt q)"

fun run_requests ::
  "(value \<Rightarrow> string) \<Rightarrow> scenario_runtime \<Rightarrow> governed_request list \<Rightarrow> (governed_request \<times> resolution) list" where
  "run_requests tj rt [] = []"
| "run_requests tj rt (q # qs) = (let (r, rt') = resolve_with tj rt q in (q, r) # run_requests tj rt' qs)"

abbreviation live_keys :: "scenario_runtime \<Rightarrow> instance_key set" where
  "live_keys rt \<equiv> fst ` set (live rt)"

definition same_config :: "scenario_runtime \<Rightarrow> scenario_runtime \<Rightarrow> bool" where
  "same_config a b \<longleftrightarrow> rt_sidecar a = rt_sidecar b \<and> by_request a = by_request b \<and>
     max_sessions a = max_sessions b \<and> max_store_entries a = max_store_entries b"

lemma same_config_resolve [simp]:
  "same_config (snd (resolve_with tj a q)) b = same_config a b"
  "same_config a (snd (resolve_with tj b q)) = same_config a b"
  by (simp_all add: same_config_def)

lemma governed_config: "same_config a b \<Longrightarrow> governed a q = governed b q"
proof -
  assume same: "same_config a b"
  then have "default_scenario_name a = default_scenario_name b"
    by (simp add: same_config_def default_scenario_name_def)
  with same show ?thesis by (cases "want_scenario q") (simp_all add: same_config_def governed_def)
qed

lemma addressed_config: "same_config a b \<Longrightarrow> addressed a q = addressed b q"
  by (simp add: addressed_def governed_config)

lemma addressedE:
  assumes "addressed rt q = Some k"
  obtains e s operation where "governed rt q = Some (e, s, operation)" "k = (entry_name e, s)"
  using assms by (auto simp: addressed_def)

lemma resolve_other:
  assumes "addressed rt q \<noteq> Some k"
  shows "map_of (live (snd (resolve_with tj rt q))) k = map_of (live rt) k"
proof (cases "governed rt q")
  case (Some g)
  obtain e s operation where g: "governed rt q = Some (e, s, operation)" using Some by (cases g) auto
  with assms have "k \<noteq> (entry_name e, s)" by (simp add: addressed_def)
  then show ?thesis
    by (auto simp: resolve_governed [OF g] Let_def split_def map_of_map_entry split: option.split)
qed (simp add: resolve_ungoverned)

lemma resolve_keys:
  "live_keys rt \<subseteq> live_keys (snd (resolve_with tj rt q)) \<and>
   live_keys (snd (resolve_with tj rt q)) \<subseteq> live_keys rt \<union> set_option (addressed rt q)"
proof (cases "governed rt q")
  case (Some g)
  obtain e s operation where g: "governed rt q = Some (e, s, operation)" using Some by (cases g) auto
  have "fst ` set (AList.map_entry k f m) = fst ` set m" for k :: instance_key and f and m :: "(instance_key \<times> scenario_instance) list"
    by (metis fst_map_entry list.set_map)
  then show ?thesis
    by (auto simp: resolve_governed [OF g] addressed_def g Let_def split_def split: option.split)
qed (auto simp: resolve_ungoverned)

lemma resolve_same:
  assumes "addressed a q = Some k" and "same_config a b" and "map_of (live a) k = map_of (live b) k"
    and "map_of (live a) k = None \<Longrightarrow>
      length (live a) < unat (max_sessions a) \<and> length (live b) < unat (max_sessions b)"
  shows "fst (resolve_with tj a q) = fst (resolve_with tj b q) \<and>
    map_of (live (snd (resolve_with tj a q))) k = map_of (live (snd (resolve_with tj b q))) k"
proof -
  obtain e s operation where g: "governed a q = Some (e, s, operation)" "k = (entry_name e, s)"
    using assms(1) by (rule addressedE)
  then have h: "governed b q = Some (e, s, operation)" using governed_config [OF assms(2)] by simp
  show ?thesis
    using assms(2-4) g(2)
    by (cases "map_of (live a) k")
      (auto simp: resolve_governed [OF g(1)] resolve_governed [OF h] same_config_def map_of_map_entry
        Let_def split_def)
qed

lemma resolve_acquires:
  assumes "addressed rt q = Some k" and "map_of (live rt) k = None \<Longrightarrow> length (live rt) < unat (max_sessions rt)"
  shows "map_of (live (snd (resolve_with tj rt q))) k \<noteq> None"
  using assms
  by (auto elim!: addressedE simp: resolve_governed map_of_map_entry Let_def split_def split: option.splits)

lemma length_live: "runtime_inv rt \<Longrightarrow> length (live rt) = card (live_keys rt)"
  by (metis runtime_inv_def distinct_card length_map list.set_map)

lemma isolation:
  assumes "runtime_inv a" and "runtime_inv b" and "same_config a b" and "map_of (live a) k = map_of (live b) k"
    and "live_keys b \<subseteq> live_keys a" and "card (live_keys a \<union> (\<Union>q\<in>set qs. set_option (addressed a q))) \<le> unat (max_sessions a)"
  shows "filter (\<lambda>(q, _). addressed a q = Some k) (run_requests tj a qs) =
    run_requests tj b (filter (\<lambda>q. addressed a q = Some k) qs)"
  using assms
proof (induction qs arbitrary: a b)
  case (Cons q qs)
  let ?a = "snd (resolve_with tj a q)" and ?b = "snd (resolve_with tj b q)"
  let ?all = "live_keys a \<union> (\<Union>q\<in>set (q # qs). set_option (addressed a q))"
  have "finite (set_option x)" for x :: "instance_key option" by (cases x) auto
  then have all: "finite ?all" by simp
  have addr: "addressed ?a = addressed a" by (auto intro!: addressed_config simp: same_config_def)
  have "live_keys ?a \<union> (\<Union>q\<in>set qs. set_option (addressed ?a q)) \<subseteq> ?all"
    using resolve_keys [of a tj q] by (auto simp: addr)
  from card_mono [OF all this]
  have room: "card (live_keys ?a \<union> (\<Union>q\<in>set qs. set_option (addressed ?a q))) \<le> unat (max_sessions ?a)"
    using Cons.prems(6) unfolding resolve_config(3) by (rule le_trans)
  show ?case
  proof (cases "addressed a q = Some k")
    case False
    have "filter (\<lambda>(q, _). addressed ?a q = Some k) (run_requests tj ?a qs) =
        run_requests tj b (filter (\<lambda>q. addressed ?a q = Some k) qs)"
      using Cons.prems resolve_other [OF False] subset_trans [OF Cons.prems(5) conjunct1 [OF resolve_keys [of a tj q]]]
      by (intro Cons.IH resolve_inv room) simp_all
    with False show ?thesis by (simp add: addr split_def Let_def)
  next
    case True
    have lt: "length (live x) < unat (max_sessions a)"
      if "runtime_inv x" "live_keys x \<subseteq> live_keys a" "map_of (live x) k = None" for x
    proof -
      have "live_keys x \<subset> ?all" using that(2,3) True by (auto simp: map_of_eq_None_iff)
      then have "card (live_keys x) < card ?all" by (intro psubset_card_mono all)
      with Cons.prems(6) length_live [OF that(1)] show ?thesis by simp
    qed
    have same: "fst (resolve_with tj a q) = fst (resolve_with tj b q)" "map_of (live ?a) k = map_of (live ?b) k"
      using resolve_same [OF True Cons.prems(3,4), of tj] lt [of a] lt [of b] Cons.prems
      by (auto simp: same_config_def)
    have "k \<in> live_keys ?a"
      using resolve_acquires [OF True, of tj] lt [of a] Cons.prems(1) by (auto simp: map_of_eq_None_iff)
    moreover have "live_keys ?b \<subseteq> insert k (live_keys b)"
      using resolve_keys [of b tj q] True addressed_config [OF Cons.prems(3), of q] by simp
    ultimately have "live_keys ?b \<subseteq> live_keys ?a"
      using resolve_keys [of a tj q] Cons.prems(5) by (meson insert_subset order_trans)
    then have "filter (\<lambda>(q, _). addressed ?a q = Some k) (run_requests tj ?a qs) =
        run_requests tj ?b (filter (\<lambda>q. addressed ?a q = Some k) qs)"
      using Cons.prems same(2) by (intro Cons.IH resolve_inv room) auto
    with True same(1) show ?thesis by (simp add: addr split_def Let_def)
  qed
qed simp

text \<open>
  C10. Sessions are isolated: as long as the requests address no more instances than the cap allows,
  the replies one session receives in an interleaved sequence of requests are exactly those it
  would receive if every other session's requests had never been sent.
\<close>

theorem sessions_isolated:
  assumes "reachable_from (started fv) (runtime_step tj) rt"
    and "card (live_keys rt \<union> (\<Union>q\<in>set qs. set_option (addressed rt q))) \<le> unat (max_sessions rt)"
  shows "filter (\<lambda>(q, _). addressed rt q = Some k) (run_requests tj rt qs) =
    run_requests tj rt (filter (\<lambda>q. addressed rt q = Some k) qs)"
  using sr.reachable_inv [OF assms(1)] assms(2) by (intro isolation) (auto simp: same_config_def)

section \<open>A concrete runtime\<close>

text \<open>Widgets that can be created, read and deleted in one scenario; \<open>close\<close> leads to a state without operations.\<close>

definition widget_spec :: "store_action_wire \<Rightarrow> store_spec" where
  "widget_spec a = \<lparr>resource = ''/widgets'', wire_action = a,
     spec_key = (if a = WCreate then None else Some ''id''),
     key_from = (if a = WCreate then Some (KeySource RequestBody ''/id'') else None)\<rparr>"

definition widget_sidecar :: sidecar where
  "widget_sidecar =
     (let entry = (\<lambda>m p sp. \<lparr>matcher = OperationMatch m p, entry_store = sp, entry_responses = []\<rparr>);
          stay = \<lparr>step_target = None, step_responses = []\<rparr>
      in \<lparr>version = 1,
          sidecar_operations = [(''add'', entry ''POST'' ''/widgets'' (Some (widget_spec WCreate))),
            (''close'', entry ''POST'' ''/close'' None),
            (''get'', entry ''GET'' ''/widgets/{id}'' (Some (widget_spec WRead)))],
          scenarios = [\<lparr>entry_name = ''flow'', initial_state = ''open'',
            seed = [SeedEntry ''/widgets'' [Object [(''id'', Str ''a'')]]],
            entry_states = [(''done'', []),
              (''open'', [(''add'', stay), (''close'', stay\<lparr>step_target := Some ''done''\<rparr>), (''get'', stay)])]\<rparr>]\<rparr>)"

definition widget_runtime :: scenario_runtime where
  "widget_runtime = projr (runtime_from_value (\<lambda>_. Inr widget_sidecar) Null 2 3)"

abbreviation no_json :: "value \<Rightarrow> string" where "no_json \<equiv> (\<lambda>_. [])"

definition widget_request :: "string \<Rightarrow> string \<Rightarrow> string \<Rightarrow> (string \<times> string) list \<Rightarrow> value option \<Rightarrow> governed_request" where
  "widget_request session m template ps body =
     \<lparr>want_scenario = None, want_session = Some session, req_method = m, req_template = template,
      req_params = ps, req_body = body, generated_body = Null, forced_code = False, validated = True,
      create_from = FollowKeySource\<rparr>"

abbreviation widget_close :: "string \<Rightarrow> governed_request" where
  "widget_close session \<equiv> widget_request session ''POST'' ''/close'' [] None"

abbreviation widget_get :: "string \<Rightarrow> governed_request" where
  "widget_get session \<equiv> widget_request session ''GET'' ''/widgets/{id}'' [(''id'', ''a'')] None"

lemma widget_started: "started (\<lambda>_. Inr widget_sidecar) widget_runtime"
proof -
  have "isl (runtime_from_value (\<lambda>_. Inr widget_sidecar) Null 2 3) = False" by code_simp
  then have "runtime_from_value (\<lambda>_. Inr widget_sidecar) Null 2 3 = Inr widget_runtime"
    unfolding widget_runtime_def by (metis sum.collapse(2))
  then show ?thesis unfolding started_def by blast
qed

lemma widget_reachable:
  "reachable_from (started (\<lambda>_. Inr widget_sidecar)) (runtime_step no_json) widget_runtime"
  using widget_started by (rule reachable_from.start)

text \<open>The runtime after session \<open>x\<close> closed.\<close>

definition widget_closed :: scenario_runtime where
  "widget_closed = snd (resolve_with no_json widget_runtime (widget_close ''x''))"

lemma widget_closed_reachable: "reachable_from (started (\<lambda>_. Inr widget_sidecar)) (runtime_step no_json) widget_closed"
  unfolding widget_closed_def by (rule reachable_from.more [OF widget_reachable serve])

theorem scenario_runtime_invariant_witness: "session_count widget_closed \<le> 2"
proof -
  have "max_sessions widget_closed = 2" by code_simp
  with scenario_runtime_invariant [OF widget_closed_reachable] show ?thesis by simp
qed

theorem refused_request_changes_nothing_witness:
  "live (snd (resolve_with no_json widget_closed (widget_get ''x''))) = live widget_closed"
proof -
  let ?r = "fst (resolve_with no_json widget_closed (widget_get ''x''))"
    and ?rt = "snd (resolve_with no_json widget_closed (widget_get ''x''))"
  have "?r = FailedWith (IllegalOperation ''flow'' ''x'' ''done'' ''get'')" by code_simp
  then have "not_carried_out (widget_get ''x'') ?r" by (simp add: not_carried_out_def)
  from refused_request_changes_nothing [OF widget_closed_reachable _ this, of ?rt]
  have "live ?rt = live widget_closed \<or> length (live ?rt) = Suc (length (live widget_closed))" by auto
  moreover have "length (live ?rt) = 1" "length (live widget_closed) = 1" by code_simp+
  ultimately show ?thesis by simp
qed

definition widget_created :: "(stateful_failure + resolution) \<times> store" where
  "widget_created = apply_store no_json (store_new 3) (widget_spec WCreate)
     (widget_request ''x'' ''POST'' ''/widgets'' [] (Some (Object [(''id'', Str ''a'')])))"

theorem store_actions_read_back_witness:
  "fst (apply_store no_json (snd widget_created) (widget_spec WRead) (widget_get ''x'')) =
     Inr (Body (Object [(''id'', Str ''a'')]))"
proof -
  let ?q = "widget_request ''x'' ''POST'' ''/widgets'' [] (Some (Object [(''id'', Str ''a'')]))"
  have created: "apply_store no_json (store_new 3) (widget_spec WCreate) ?q =
      (Inr (Body (Object [(''id'', Str ''a'')])), snd widget_created)"
    by code_simp
  have "reads_key no_json (widget_spec WRead) (widget_get ''x'') (StoreKey ''/widgets'' ''a'')" by code_simp
  moreover have "action (widget_spec WCreate) = Create" by code_simp
  moreover have "addressed_key no_json (widget_spec WCreate) ?q = Some (StoreKey ''/widgets'' ''a'')" by code_simp
  ultimately show ?thesis
    using store_actions_read_back [OF store_inv_new created] by simp
qed

theorem created_response_identifies_witness:
  "pointer_value no_json (created_value (widget_spec WCreate) None Null StoreResponse ''7'') ''/id'' = Some ''7''"
  using created_response_identifies [of "widget_spec WCreate" "KeySource RequestBody ''/id''" no_json None Null "''7''"]
  by (simp add: widget_spec_def)


theorem sessions_isolated_witness:
  "filter (\<lambda>(q, _). addressed widget_runtime q = Some (''flow'', ''y''))
     (run_requests no_json widget_runtime [widget_close ''x'', widget_get ''y'', widget_get ''x'']) =
   [(widget_get ''y'', Body (Object [(''id'', Str ''a'')]))]"
proof -
  let ?qs = "[widget_close ''x'', widget_get ''y'', widget_get ''x'']"
  have "card (live_keys widget_runtime \<union> (\<Union>q\<in>set ?qs. set_option (addressed widget_runtime q))) \<le> unat (max_sessions widget_runtime)"
    by code_simp
  from sessions_isolated [OF widget_reachable this, of "(''flow'', ''y'')"]
  have "filter (\<lambda>(q, _). addressed widget_runtime q = Some (''flow'', ''y''))
      (run_requests no_json widget_runtime ?qs) =
    run_requests no_json widget_runtime
      (filter (\<lambda>q. addressed widget_runtime q = Some (''flow'', ''y'')) ?qs)" .
  also have "\<dots> = [(widget_get ''y'', Body (Object [(''id'', Str ''a'')]))]" by code_simp
  finally show ?thesis .
qed

end
