(* ===== verification/Scenario_Concurrent.thy ===== *)
theory Scenario_Concurrent
  imports Scenario_Runtime
begin

text \<open>
  \<open>ScenarioRuntime::instance\<close> of \<open>http/scenarios.rs\<close> under concurrency: at most \<open>n\<close> requests at a time
  look up or create an instance, each one operation of the concurrent map at a time, interleaved
  without restriction, while closing connections release instances. The length of the map and the
  insertion are separate operations, so the session cap is not exact.
\<close>

section \<open>Threads and steps\<close>

datatype acquire_pc =
    Waiting
  | Lookup scenario string
  | CheckCap scenario string
  | Build scenario string
  | Recheck scenario string scenario_instance
  | Publish scenario string scenario_instance

record pool =
  pool_rt :: scenario_runtime
  pool_pcs :: "nat \<Rightarrow> acquire_pc"

abbreviation resume :: "pool \<Rightarrow> nat \<Rightarrow> acquire_pc \<Rightarrow> pool" where
  "resume c t p \<equiv> c\<lparr>pool_pcs := (pool_pcs c)(t := p)\<rparr>"

abbreviation live_in :: "pool \<Rightarrow> (instance_key \<times> scenario_instance) list" where
  "live_in c \<equiv> live (pool_rt c)"

inductive acquire_step :: "(value \<Rightarrow> string) \<Rightarrow> nat \<Rightarrow> pool \<Rightarrow> pool \<Rightarrow> bool" for tj where
  request: "pool_pcs c t = Waiting \<Longrightarrow> acquire_step tj t c (resume c t (Lookup m s))"
| found: "pool_pcs c t = Lookup m s \<Longrightarrow> map_of (live_in c) (scenario_name m, s) \<noteq> None \<Longrightarrow>
    acquire_step tj t c (resume c t Waiting)"
| missing: "pool_pcs c t = Lookup m s \<Longrightarrow> map_of (live_in c) (scenario_name m, s) = None \<Longrightarrow>
    acquire_step tj t c (resume c t (CheckCap m s))"
| full: "pool_pcs c t = CheckCap m s \<Longrightarrow> unat (max_sessions (pool_rt c)) \<le> length (live_in c) \<Longrightarrow>
    acquire_step tj t c (resume c t Waiting)"
| room: "pool_pcs c t = CheckCap m s \<Longrightarrow> length (live_in c) < unat (max_sessions (pool_rt c)) \<Longrightarrow>
    acquire_step tj t c (resume c t (Build m s))"
| undeclared: "pool_pcs c t = Build m s \<Longrightarrow> find_scenario (rt_sidecar (pool_rt c)) (scenario_name m) = None \<Longrightarrow>
    acquire_step tj t c (resume c t Waiting)"
| built: "pool_pcs c t = Build m s \<Longrightarrow> find_scenario (rt_sidecar (pool_rt c)) (scenario_name m) = Some e \<Longrightarrow>
    acquire_step tj t c (resume c t (Recheck m s
      (instance_new tj (scenario_name m) (initial m) (seed e) (max_store_entries (pool_rt c)))))"
| won: "pool_pcs c t = Recheck m s i \<Longrightarrow> map_of (live_in c) (scenario_name m, s) \<noteq> None \<Longrightarrow>
    acquire_step tj t c (resume c t Waiting)"
| again: "pool_pcs c t = Recheck m s i \<Longrightarrow> map_of (live_in c) (scenario_name m, s) = None \<Longrightarrow>
    acquire_step tj t c (resume c t (Publish m s i))"
| adopted: "pool_pcs c t = Publish m s i \<Longrightarrow> map_of (live_in c) (scenario_name m, s) \<noteq> None \<Longrightarrow>
    acquire_step tj t c (resume c t Waiting)"
| published: "pool_pcs c t = Publish m s i \<Longrightarrow> map_of (live_in c) (scenario_name m, s) = None \<Longrightarrow>
    acquire_step tj t c (resume (c\<lparr>pool_rt := (pool_rt c)\<lparr>live := ((scenario_name m, s), i) # live_in c\<rparr>\<rparr>) t Waiting)"
| released: "pool_pcs c t = Waiting \<Longrightarrow>
    acquire_step tj t c (c\<lparr>pool_rt := snd (release (pool_rt c) sc s)\<rparr>)"

definition pool_step :: "(value \<Rightarrow> string) \<Rightarrow> nat \<Rightarrow> pool \<Rightarrow> pool \<Rightarrow> bool" where
  "pool_step tj n c d \<longleftrightarrow> (\<exists>t<n. acquire_step tj t c d)"

definition pool_start :: "scenario_runtime \<Rightarrow> pool \<Rightarrow> bool" where
  "pool_start rt c \<longleftrightarrow> c = \<lparr>pool_rt = rt\<lparr>live := []\<rparr>, pool_pcs = (\<lambda>_. Waiting)\<rparr>"

section \<open>How far the cap can be exceeded\<close>

text \<open>A request past the check of the cap may still add an instance.\<close>

fun past_check :: "acquire_pc \<Rightarrow> bool" where
  "past_check (Build _ _) = True"
| "past_check (Recheck _ _ _) = True"
| "past_check (Publish _ _ _) = True"
| "past_check _ = False"

definition pending :: "nat \<Rightarrow> pool \<Rightarrow> nat set" where
  "pending n c = {t. t < n \<and> past_check (pool_pcs c t)}"

lemma pending_finite [simp]: "finite (pending n c)"
  by (simp add: pending_def)

lemma pending_resume [simp]:
  "t < n \<Longrightarrow> pending n (resume c t p) = (if past_check p then insert t (pending n c) else pending n c - {t})"
  "t < n \<Longrightarrow> pending n (c\<lparr>pool_rt := rt, pool_pcs := (pool_pcs c)(t := p)\<rparr>) =
     (if past_check p then insert t (pending n c) else pending n c - {t})"
  by (auto simp: pending_def split: if_splits)

lemma pending_rt [simp]: "pending n (c\<lparr>pool_rt := rt\<rparr>) = pending n c"
  by (simp add: pending_def)

lemma pending_mem: "t \<in> pending n c \<longleftrightarrow> t < n \<and> past_check (pool_pcs c t)"
  by (simp add: pending_def)

definition pool_inv :: "scenario_runtime \<Rightarrow> nat \<Rightarrow> pool \<Rightarrow> bool" where
  "pool_inv rt n c \<longleftrightarrow>
     (pool_rt c)\<lparr>live := []\<rparr> = rt\<lparr>live := []\<rparr> \<and> distinct (map fst (live_in c)) \<and>
     length (live_in c) + card (pending n c) \<le> unat (max_sessions rt) + (n - 1)"

lemma card_pending_drop: "card (pending n c - {t}) \<le> card (pending n c)"
  by (simp add: card_mono)

lemma same_max: "rt\<lparr>live := []\<rparr> = rt'\<lparr>live := []\<rparr> \<Longrightarrow> max_sessions rt = max_sessions rt'"
  by (metis scenario_runtime.select_convs(4) scenario_runtime.surjective scenario_runtime.update_convs(3))

lemma pool_inv_step:
  assumes "acquire_step tj t c d" and "pool_inv rt n c" and "t < n"
  shows "pool_inv rt n d"
  using assms(1)
proof cases
  case (room m s)
  have "pending n c \<subseteq> {..<n} - {t}" using room(2) by (auto simp: pending_def)
  then have "card (pending n c) \<le> n - 1"
    using assms(3) card_mono [of "{..<n} - {t}" "pending n c"] by simp
  moreover have "t \<notin> pending n c" using room(2) by (simp add: pending_mem)
  ultimately show ?thesis
    using room assms same_max [of "pool_rt c" rt] by (simp add: pool_inv_def)
next
  case (published m s i)
  then have "t \<in> pending n c" using assms(3) by (simp add: pending_mem)
  then have "Suc (card (pending n c - {t})) = card (pending n c)" by (intro card_Suc_Diff1) simp_all
  with published assms show ?thesis by (auto simp: pool_inv_def map_of_eq_None_iff)
next
  case (released sc s)
  then show ?thesis
    using assms AList.length_delete_le [of "(sc, s)" "live_in c"]
    by (simp add: pool_inv_def release_def AList.distinct_delete)
next
  case (built m s e)
  then have "t \<in> pending n c" using assms(3) by (simp add: pending_mem)
  with built assms show ?thesis by (simp add: pool_inv_def insert_absorb)
next
  case (again m s i)
  then have "t \<in> pending n c" using assms(3) by (simp add: pending_mem)
  with again assms show ?thesis by (simp add: pool_inv_def insert_absorb)
qed (use assms(2,3) card_pending_drop [of n c t] in \<open>auto simp: pool_inv_def\<close>)

interpretation sc: invariant_system "pool_start rt" "pool_step tj n" "pool_inv rt n" for rt tj n
proof
  show "pool_inv rt n c" if "pool_start rt c" for c
    using that by (simp add: pool_start_def pool_inv_def pending_def)
  show "pool_inv rt n d" if "pool_inv rt n c" "pool_step tj n c d" for c d
    using that pool_inv_step by (auto simp: pool_step_def)
qed

text \<open>
  C14. The session cap can be exceeded, but only by the number of concurrent requests: with at most
  \<open>n\<close> requests in flight there are never more than \<open>max_sessions + n - 1\<close> live instances. The bound
  is met: two concurrent requests for new sessions under a cap of one leave two instances.
\<close>

theorem concurrent_sessions_bounded:
  assumes "reachable_from (pool_start rt) (pool_step tj n) c"
  shows "length (live_in c) \<le> unat (max_sessions rt) + (n - 1)"
  using sc.reachable_inv [OF assms] by (simp add: pool_inv_def)

lemma pool_more:
  "reachable_from (pool_start rt) (pool_step tj n) c \<Longrightarrow> t < n \<Longrightarrow> acquire_step tj t c d \<Longrightarrow>
     reachable_from (pool_start rt) (pool_step tj n) d"
  using reachable_from.more [of "pool_start rt" "pool_step tj n" c d] by (auto simp: pool_step_def)

lemma pool_reaches_build:
  assumes "reachable_from (pool_start rt) (pool_step tj n) c" and "t < n" and "pool_pcs c t = Waiting"
    and "map_of (live_in c) (scenario_name m, s) = None" and "length (live_in c) < unat (max_sessions (pool_rt c))"
  shows "reachable_from (pool_start rt) (pool_step tj n) (resume c t (Build m s))"
  using pool_more [OF pool_more [OF pool_more [OF assms(1,2) request [OF assms(3)]] assms(2) missing] assms(2) room]
    assms(4,5) by simp

lemma pool_publishes:
  assumes "reachable_from (pool_start rt) (pool_step tj n) c" and "t < n" and "pool_pcs c t = Build m s"
    and "map_of (live_in c) (scenario_name m, s) = None"
    and "find_scenario (rt_sidecar (pool_rt c)) (scenario_name m) = Some e"
  shows "\<exists>i. reachable_from (pool_start rt) (pool_step tj n)
    (resume (c\<lparr>pool_rt := (pool_rt c)\<lparr>live := ((scenario_name m, s), i) # live_in c\<rparr>\<rparr>) t Waiting)"
  using pool_more [OF pool_more [OF pool_more [OF assms(1,2) built [OF assms(3,5)]] assms(2) again] assms(2) published]
    assms(4) by auto

definition race_runtime :: scenario_runtime where
  "race_runtime = runtime_new \<lparr>document = demo_sidecar, warnings = []\<rparr> 1 8"

theorem concurrent_sessions_bounded_witness:
  "\<exists>c. reachable_from (pool_start race_runtime) (pool_step (\<lambda>_. []) 2) c \<and>
     length (live_in c) = 2 \<and> max_sessions race_runtime = 1 \<and> length (live_in c) \<le> unat (max_sessions race_runtime) + (2 - 1)"
proof -
  let ?m = "machine_of (hd (scenarios demo_sidecar))"
    and ?reach = "reachable_from (pool_start race_runtime) (pool_step (\<lambda>_. []) 2)"
  define c0 where "c0 = \<lparr>pool_rt = race_runtime, pool_pcs = (\<lambda>_. Waiting)\<rparr>"
  define c1 where "c1 = resume (resume c0 0 (Build ?m ''x'')) 1 (Build ?m ''y'')"
  have rt: "live race_runtime = []" "max_sessions race_runtime = 1"
    and e: "find_scenario (rt_sidecar race_runtime) (scenario_name ?m) = Some (hd (scenarios demo_sidecar))"
    by code_simp+
  have "?reach c0" by (rule reachable_from.start) (simp add: pool_start_def c0_def race_runtime_def runtime_new_def)
  then have "?reach (resume c0 0 (Build ?m ''x''))"
    by (rule pool_reaches_build) (simp_all add: c0_def rt)
  then have "?reach c1" unfolding c1_def by (rule pool_reaches_build) (simp_all add: c0_def rt)
  then obtain i where "?reach (resume (c1\<lparr>pool_rt := (pool_rt c1)\<lparr>live := [((scenario_name ?m, ''x''), i)]\<rparr>\<rparr>) 0 Waiting)"
    using pool_publishes [of race_runtime "\<lambda>_. []" 2 c1 0 ?m "''x''"] e by (auto simp: c1_def c0_def rt)
  then obtain j where j: "?reach (resume (resume (c1\<lparr>pool_rt := (pool_rt c1)\<lparr>live :=
      [((scenario_name ?m, ''y''), j), ((scenario_name ?m, ''x''), i)]\<rparr>\<rparr>) 0 Waiting) 1 Waiting)"
    using pool_publishes [of race_runtime "\<lambda>_. []" 2 _ 1 ?m "''y''"] e by (fastforce simp: c1_def c0_def)
  show ?thesis
    using j concurrent_sessions_bounded [OF j] by (intro exI conjI) (assumption, simp_all add: rt)
qed

end
