(* ===== verification/Errors.thy ===== *)
theory Errors
  imports Json
begin

text \<open>
  The error models of \<open>specmock-core/src/error.rs\<close>: validation issues, RFC 7807 problem details
  with their constructors, and the core error type.
\<close>

definition PROBLEM_JSON_CONTENT_TYPE :: string where
  "PROBLEM_JSON_CONTENT_TYPE = ''application/problem+json''"

record validation_issue =
  instance_pointer :: string
  schema_pointer :: string
  keyword :: string
  message :: string

record problem_details =
  problem_type :: string
  title :: string
  status :: nat
  detail :: string
  "instance" :: "string option"
  errors :: "validation_issue list"
  extensions :: "(string \<times> value) list"

definition title_for_status :: "nat \<Rightarrow> string" where
  "title_for_status s =
     (if s = 400 then ''Bad Request''
      else if s = 401 then ''Unauthorized''
      else if s = 403 then ''Forbidden''
      else if s = 404 then ''Not Found''
      else if s = 405 then ''Method Not Allowed''
      else if s = 406 then ''Not Acceptable''
      else if s = 409 then ''Conflict''
      else if s = 413 then ''Payload Too Large''
      else if s = 415 then ''Unsupported Media Type''
      else if s = 422 then ''Unprocessable Entity''
      else if s = 429 then ''Too Many Requests''
      else if s = 500 then ''Internal Server Error''
      else if s = 502 then ''Bad Gateway''
      else if s = 503 then ''Service Unavailable''
      else ''Unknown Error'')"

definition problem_validation_error :: "nat \<Rightarrow> validation_issue list \<Rightarrow> problem_details" where
  "problem_validation_error s issues =
     \<lparr>problem_type = ''about:blank'', title = title_for_status s, status = s,
      detail = ''Request validation failed'', instance = None, errors = issues, extensions = []\<rparr>"

definition problem_not_found :: "string \<Rightarrow> problem_details" where
  "problem_not_found d =
     \<lparr>problem_type = ''about:blank'', title = ''Not Found'', status = 404,
      detail = d, instance = None, errors = [], extensions = []\<rparr>"

definition problem_stateful_error ::
  "nat \<Rightarrow> string \<Rightarrow> (string \<times> value) list \<Rightarrow> problem_details" where
  "problem_stateful_error s d exts =
     \<lparr>problem_type = ''about:blank'', title = title_for_status s, status = s,
      detail = d, instance = None, errors = [], extensions = bt_of_list exts\<rparr>"

definition problem_unsupported_media_type :: "string \<Rightarrow> problem_details" where
  "problem_unsupported_media_type d =
     \<lparr>problem_type = ''about:blank'', title = ''Unsupported Media Type'', status = 415,
      detail = d, instance = None, errors = [], extensions = []\<rparr>"

definition problem_not_acceptable :: "string \<Rightarrow> problem_details" where
  "problem_not_acceptable d =
     \<lparr>problem_type = ''about:blank'', title = ''Not Acceptable'', status = 406,
      detail = d, instance = None, errors = [], extensions = []\<rparr>"

definition problem_payload_too_large :: "string \<Rightarrow> problem_details" where
  "problem_payload_too_large d =
     \<lparr>problem_type = ''about:blank'', title = ''Payload Too Large'', status = 413,
      detail = d, instance = None, errors = [], extensions = []\<rparr>"

lemmas problem_defs [op_simps] = problem_validation_error_def problem_not_found_def
  problem_stateful_error_def problem_unsupported_media_type_def problem_not_acceptable_def
  problem_payload_too_large_def

datatype core_error = SchemaError string | FakerError string | RefError string

definition core_error_display :: "core_error \<Rightarrow> string" where
  "core_error_display e =
     (case e of
        SchemaError m \<Rightarrow> ''schema compilation failed: '' @ m
      | FakerError m \<Rightarrow> ''data generation failed: '' @ m
      | RefError m \<Rightarrow> ''$ref resolution failed: '' @ m)"

end
