(* ===== verification/Validate.thy ===== *)
theory Validate
  imports Errors
begin

text \<open>
  The validation helpers of \<open>specmock-core/src/validate.rs\<close>: the cache key of a schema, the
  process-wide cache of compiled validators with its trimming loop, and the conversion of errors
  into issues. The JSON-schema compiler, the 64-bit hash of a byte stream, the printer of floats
  and the iteration order of the concurrent hash map are parameters.
\<close>

section \<open>The cache key\<close>

text \<open>
  The bytes fed to the hasher: \<open>write_u8\<close> is one byte, \<open>write_usize\<close> eight bytes little-endian,
  and \<open>str::hash\<close> the bytes of the string followed by \<open>0xFF\<close>, which no UTF-8 string contains.
\<close>

definition usize_bytes :: "nat \<Rightarrow> u8 list" where
  "usize_bytes n = map (\<lambda>i. word_of_nat (n div 256 ^ i)) [0..<8]"

definition str_bytes :: "string \<Rightarrow> u8 list" where
  "str_bytes s = map of_char s @ [0xFF]"

definition number_to_string :: "(flt \<Rightarrow> string) \<Rightarrow> number \<Rightarrow> string" where
  "number_to_string fmt n =
     (case n of
        PosInt k \<Rightarrow> nat_to_string (unat k)
      | NegInt k \<Rightarrow> (if k < 0 then ''-'' else []) @ nat_to_string (nat \<bar>k\<bar>)
      | Float x \<Rightarrow> fmt x)"

fun hash_json_value :: "(flt \<Rightarrow> string) \<Rightarrow> value \<Rightarrow> u8 list" where
  "hash_json_value fmt Null = [0]"
| "hash_json_value fmt (Bool b) = [1, if b then 1 else 0]"
| "hash_json_value fmt (Number n) = 2 # str_bytes (number_to_string fmt n)"
| "hash_json_value fmt (Str s) = 3 # str_bytes s"
| "hash_json_value fmt (Array xs) =
     4 # usize_bytes (length xs) @ concat (map (hash_json_value fmt) xs)"
| "hash_json_value fmt (Object m) =
     5 # usize_bytes (length m) @ concat (map (\<lambda>kv. str_bytes (fst kv) @ hash_json_value fmt (snd kv)) m)"

definition hash_value :: "(u8 list \<Rightarrow> u64) \<Rightarrow> (flt \<Rightarrow> string) \<Rightarrow> value \<Rightarrow> u64" where
  "hash_value hash64 fmt v = hash64 (hash_json_value fmt v)"

text \<open>
  What a document of the running program satisfies: strings are UTF-8, so no byte is \<open>0xFF\<close>;
  a vector has fewer than \<open>2 ^ 64\<close> elements; numbers are as \<open>wf_value\<close> says. And what the printer
  of floats promises: distinct texts for distinct finite floats, each with a \<open>.\<close> or an \<open>e\<close>.
\<close>

definition utf8_like :: "string \<Rightarrow> bool" where
  "utf8_like s \<longleftrightarrow> CHR 0xFF \<notin> set s"

fun hashable :: "value \<Rightarrow> bool" where
  "hashable (Str s) = utf8_like s"
| "hashable (Array xs) = (length xs < 2 ^ 64 \<and> (\<forall>x\<in>set xs. hashable x))"
| "hashable (Object m) =
     (length m < 2 ^ 64 \<and> (\<forall>kv\<in>set m. utf8_like (fst kv) \<and> hashable (snd kv)))"
| "hashable (Number (NegInt k)) = (k < 0)"
| "hashable (Number (Float x)) = is_finite x"
| "hashable _ = True"

definition faithful_format :: "(flt \<Rightarrow> string) \<Rightarrow> bool" where
  "faithful_format fmt \<longleftrightarrow>
     (\<forall>x y. is_finite x \<longrightarrow> is_finite y \<longrightarrow> fmt x = fmt y \<longrightarrow> x = y) \<and>
     (\<forall>x. is_finite x \<longrightarrow> utf8_like (fmt x) \<and> (CHR ''.'' \<in> set (fmt x) \<or> CHR ''e'' \<in> set (fmt x)))"

subsection \<open>The byte stream determines the document\<close>

lemma unat_of_char_u8: "unat (of_char c :: u8) = of_char c"
proof -
  have "(of_char c :: u8) = word_of_nat (of_char c)" by (simp only: of_nat_of_char)
  then show ?thesis by (simp only: unat_of_nat) simp
qed

lemma of_char_u8_inject [simp]: "(of_char c :: u8) = of_char d \<longleftrightarrow> c = d"
  by (metis of_char_eq_iff unat_of_char_u8)

lemma of_char_u8_FF: "(of_char c :: u8) = 0xFF \<longleftrightarrow> c = CHR 0xFF"
  using of_char_u8_inject [of c "CHR 0xFF"] by simp

lemma str_bytes_prefix:
  "utf8_like s \<Longrightarrow> utf8_like t \<Longrightarrow> str_bytes s @ r = str_bytes t @ q \<Longrightarrow> s = t \<and> r = q"
proof (induction s arbitrary: t)
  case Nil
  then show ?case by (cases t) (auto simp: str_bytes_def utf8_like_def of_char_u8_FF dest!: sym [of "0xFF"])
next
  case (Cons c s)
  then obtain d t' where t: "t = d # t'"
    by (cases t) (auto simp: str_bytes_def utf8_like_def of_char_u8_FF)
  with Cons.prems have "c = d" "str_bytes s @ r = str_bytes t' @ q" "utf8_like s" "utf8_like t'"
    by (auto simp: str_bytes_def utf8_like_def)
  with Cons.IH t show ?case by blast
qed

lemma base256_digits:
  fixes m n :: nat
  assumes "\<And>i. i < k \<Longrightarrow> n div 256 ^ i mod 256 = m div 256 ^ i mod 256"
  shows "n mod 256 ^ k = m mod 256 ^ k"
  using assms
proof (induction k)
  case (Suc k)
  then have "n mod 256 ^ k = m mod 256 ^ k" "n div 256 ^ k mod 256 = m div 256 ^ k mod 256" by simp_all
  then show ?case by (simp add: mod_mult2_eq mult.commute [of 256])
qed simp

lemma usize_bytes_inject:
  assumes "n < 2 ^ 64" "m < 2 ^ 64" "usize_bytes n = usize_bytes m"
  shows "n = m"
proof -
  have "n div 256 ^ i mod 256 = m div 256 ^ i mod 256" if "i < 8" for i
  proof -
    have "usize_bytes n ! i = usize_bytes m ! i" using assms(3) by simp
    then have "(word_of_nat (n div 256 ^ i) :: u8) = word_of_nat (m div 256 ^ i)"
      using that by (simp add: usize_bytes_def)
    then have "unat (word_of_nat (n div 256 ^ i) :: u8) = unat (word_of_nat (m div 256 ^ i) :: u8)"
      by simp
    then show ?thesis by (simp add: unat_of_nat)
  qed
  then have "n mod 256 ^ 8 = m mod 256 ^ 8" by (rule base256_digits)
  with assms(1,2) show ?thesis by simp
qed

lemma length_usize_bytes [simp]: "length (usize_bytes n) = 8"
  by (simp add: usize_bytes_def)

lemma usize_bytes_prefix:
  "n < 2 ^ 64 \<Longrightarrow> m < 2 ^ 64 \<Longrightarrow> usize_bytes n @ r = usize_bytes m @ q \<Longrightarrow> n = m \<and> r = q"
  using usize_bytes_inject [of n m] by simp

lemma concat_prefix:
  assumes "\<forall>x\<in>set xs. \<forall>y r q. P y \<longrightarrow> f x @ r = f y @ q \<longrightarrow> x = y \<and> r = q"
    and "\<forall>y\<in>set ys. P y" and "length xs = length ys"
    and "concat (map f xs) @ r = concat (map f ys) @ q"
  shows "xs = ys \<and> r = q"
  using assms(3,1,2,4)
proof (induction xs ys rule: list_induct2)
  case (Cons x xs y ys)
  from Cons.prems(3) have "f x @ concat (map f xs) @ r = f y @ concat (map f ys) @ q" by simp
  moreover have "P y" using Cons.prems(2) by simp
  ultimately have "x = y" "concat (map f xs) @ r = concat (map f ys) @ q"
    using Cons.prems(1) by (meson list.set_intros(1))+
  moreover have "xs = ys \<and> r = q"
  proof (rule Cons.IH)
    show "\<forall>x\<in>set xs. \<forall>y r q. P y \<longrightarrow> f x @ r = f y @ q \<longrightarrow> x = y \<and> r = q"
      using Cons.prems(1) by (meson list.set_intros(2))
    show "\<forall>y\<in>set ys. P y" using Cons.prems(2) by simp
  qed (fact calculation(2))
  ultimately show ?case by simp
qed simp

lemma nat_to_string_no_float_char:
  "CHR ''.'' \<notin> set (nat_to_string n)" "CHR ''e'' \<notin> set (nat_to_string n)"
  "CHR ''-'' \<notin> set (nat_to_string n)" "utf8_like (nat_to_string n)"
  using nat_to_string_digits [of n]
  by (auto simp: list_all_iff utf8_like_def is_ascii_digit_def char_code_def)

lemma number_to_string_utf8:
  "faithful_format fmt \<Longrightarrow> hashable (Number n) \<Longrightarrow> utf8_like (number_to_string fmt n)"
  using nat_to_string_no_float_char(4)
  by (cases n) (auto simp: number_to_string_def faithful_format_def utf8_like_def)

lemma nat_to_string_not_minus: "nat_to_string n \<noteq> CHR ''-'' # s"
  by (metis list.set_intros(1) nat_to_string_no_float_char(3))

lemma float_not_int:
  "faithful_format fmt \<Longrightarrow> is_finite x \<Longrightarrow>
     fmt x \<noteq> nat_to_string n \<and> fmt x \<noteq> CHR ''-'' # nat_to_string n"
proof -
  assume "faithful_format fmt" "is_finite x"
  then have "CHR ''.'' \<in> set (fmt x) \<or> CHR ''e'' \<in> set (fmt x)" by (simp add: faithful_format_def)
  then have "set (fmt x) \<noteq> set (nat_to_string n)" "set (fmt x) \<noteq> set (CHR ''-'' # nat_to_string n)"
    using nat_to_string_no_float_char(1,2) [of n] by auto
  then show ?thesis by metis
qed

lemma number_to_string_inject:
  assumes "faithful_format fmt" "hashable (Number m)" "hashable (Number n)"
    and "number_to_string fmt m = number_to_string fmt n"
  shows "m = n"
  using assms float_not_int [OF assms(1)] float_not_int [OF assms(1), THEN conjunct1, THEN not_sym]
    float_not_int [OF assms(1), THEN conjunct2, THEN not_sym]
  by (cases m; cases n)
    (auto simp: number_to_string_def nat_to_string_not_minus nat_to_string_not_minus [THEN not_sym]
      faithful_format_def unsigned_word_eqI split: if_splits)

lemma hash_json_value_prefix:
  assumes "faithful_format fmt"
  shows "hashable v \<Longrightarrow> hashable w \<Longrightarrow> hash_json_value fmt v @ r = hash_json_value fmt w @ q \<Longrightarrow>
    v = w \<and> r = q"
proof (induction v arbitrary: w r q)
  case (Number n)
  then obtain m where w: "w = Number m" by (cases w) auto
  with Number str_bytes_prefix [of "number_to_string fmt n" "number_to_string fmt m" r q]
  have "number_to_string fmt n = number_to_string fmt m" "r = q"
    by (auto simp: number_to_string_utf8 [OF assms])
  with number_to_string_inject [OF assms] Number w show ?case by blast
next
  case (Str s)
  then obtain t where "w = Str t" by (cases w) auto
  with Str str_bytes_prefix [of s t r q] show ?case by auto
next
  case (Array xs)
  then obtain ys where w: "w = Array ys" by (cases w) auto
  let ?s = "concat (map (hash_json_value fmt) xs) @ r" and ?t = "concat (map (hash_json_value fmt) ys) @ q"
  from w Array.prems have "length xs = length ys" "?s = ?t"
    using usize_bytes_prefix [of "length xs" "length ys" ?s ?t] by simp_all
  moreover have "\<forall>x\<in>set xs. \<forall>y r q. hashable y \<longrightarrow>
      hash_json_value fmt x @ r = hash_json_value fmt y @ q \<longrightarrow> x = y \<and> r = q"
  proof (intro ballI allI impI)
    fix x y r q
    assume "x \<in> set xs" "hashable y" "hash_json_value fmt x @ r = hash_json_value fmt y @ q"
    moreover have "hashable x" using Array.prems(1) calculation(1) by simp
    ultimately show "x = y \<and> r = q" by (metis Array.IH)
  qed
  moreover have "\<forall>y\<in>set ys. hashable y" using Array.prems(2) w by simp
  ultimately have "xs = ys \<and> r = q"
    using concat_prefix [of xs hashable "hash_json_value fmt" ys r q] by blast
  with w show ?case by simp
next
  case (Object m)
  let ?f = "\<lambda>kv. str_bytes (fst kv) @ hash_json_value fmt (snd kv)"
  let ?P = "\<lambda>kv. utf8_like (fst kv) \<and> hashable (snd kv)"
  from Object obtain m' where w: "w = Object m'" by (cases w) auto
  let ?s = "concat (map ?f m) @ r" and ?t = "concat (map ?f m') @ q"
  from w Object.prems have eq: "length m = length m'" "?s = ?t"
    using usize_bytes_prefix [of "length m" "length m'" ?s ?t] by simp_all
  have el: "\<forall>x\<in>set m. \<forall>y r q. ?P y \<longrightarrow> ?f x @ r = ?f y @ q \<longrightarrow> x = y \<and> r = q"
  proof (intro ballI allI impI)
    fix x y r q
    assume that: "x \<in> set m" "?P y" "?f x @ r = ?f y @ q"
    have "utf8_like (fst x)" "hashable (snd x)" using that(1) Object.prems(1) by auto
    with that(2,3) str_bytes_prefix [of "fst x" "fst y"]
    have "fst x = fst y" "hash_json_value fmt (snd x) @ r = hash_json_value fmt (snd y) @ q" by auto
    with Object.IH [of x "snd x"] that \<open>hashable (snd x)\<close> show "x = y \<and> r = q"
      by (auto simp: prod_eq_iff snds.simps)
  qed
  have "\<forall>y\<in>set m'. ?P y" using Object.prems(2) w by simp
  from concat_prefix [OF el this eq] w show ?case by simp
next
  case Null
  then show ?case by (cases w) auto
next
  case (Bool b)
  then show ?case by (cases w) (auto split: if_splits)
qed

section \<open>The validator cache\<close>

text \<open>An error of the JSON-schema library: its two paths and its text.\<close>

record schema_failure =
  instance_path :: string
  schema_path :: string
  failure_text :: string

text \<open>
  The libraries below the cache. \<open>validator_for\<close> fails with a text and a schema path; \<open>first_key\<close>
  is the key the hash map's iterator visits first.
\<close>

record 'v validation_libs =
  validator_for :: "value \<Rightarrow> (string \<times> string) + 'v"
  iter_errors :: "'v \<Rightarrow> value \<Rightarrow> schema_failure list"
  hash64 :: "u8 list \<Rightarrow> u64"
  format_f64 :: "flt \<Rightarrow> string"
  first_key :: "(u64 \<times> 'v) list \<Rightarrow> u64 option"

definition DEFAULT_VALIDATOR_CACHE_MAX_ENTRIES :: nat where
  "DEFAULT_VALIDATOR_CACHE_MAX_ENTRIES = 256"

definition keyword_from_schema_path :: "string \<Rightarrow> string" where
  "keyword_from_schema_path p =
     (case find (\<lambda>part. part \<noteq> []) (rev (split_on CHR ''/'' p)) of
        None \<Rightarrow> ''unknown''
      | Some part \<Rightarrow> part)"

partial_function (option) trim_validator_cache_if_needed ::
  "'v validation_libs \<Rightarrow> nat \<Rightarrow> (u64 \<times> 'v) list \<Rightarrow> (u64 \<times> 'v) list option" where
  "trim_validator_cache_if_needed L limit c =
     (if max limit 1 < length c then
        (case first_key L c of
           Some k \<Rightarrow> trim_validator_cache_if_needed L limit (AList.delete k c)
         | None \<Rightarrow> Some c)
      else Some c)"

declare trim_validator_cache_if_needed.simps [code]

definition get_or_compile_validator ::
  "'v validation_libs \<Rightarrow> nat \<Rightarrow> value \<Rightarrow> (u64 \<times> 'v) list
     \<Rightarrow> ((core_error + 'v) \<times> (u64 \<times> 'v) list) option" where
  "get_or_compile_validator L limit schema c =
     (let k = hash_value (hash64 L) (format_f64 L) schema in
      case map_of c k of
        Some v \<Rightarrow> Some (Inr v, c)
      | None \<Rightarrow>
          (case validator_for L schema of
             Inl (e, p) \<Rightarrow> Some (Inl (SchemaError (e @ '' (schema_path='' @ p @ '')'')), c)
           | Inr v \<Rightarrow> map_option (\<lambda>c'. (Inr v, c')) (trim_validator_cache_if_needed L limit ((k, v) # c))))"

definition issue_of :: "schema_failure \<Rightarrow> validation_issue" where
  "issue_of f =
     \<lparr>instance_pointer = instance_path f, schema_pointer = schema_path f,
      keyword = keyword_from_schema_path (schema_path f), message = failure_text f\<rparr>"

definition validate_instance ::
  "'v validation_libs \<Rightarrow> nat \<Rightarrow> value \<Rightarrow> value \<Rightarrow> (u64 \<times> 'v) list
     \<Rightarrow> ((core_error + validation_issue list) \<times> (u64 \<times> 'v) list) option" where
  "validate_instance L limit schema inst c =
     map_option
       (\<lambda>(r, c'). (case r of Inl e \<Rightarrow> Inl e | Inr v \<Rightarrow> Inr (map issue_of (iter_errors L v inst)), c'))
       (get_or_compile_validator L limit schema c)"

text \<open>The reference: compile the schema on every call.\<close>

definition validate_fresh ::
  "'v validation_libs \<Rightarrow> value \<Rightarrow> value \<Rightarrow> core_error + validation_issue list" where
  "validate_fresh L schema inst =
     (case validator_for L schema of
        Inl (e, p) \<Rightarrow> Inl (SchemaError (e @ '' (schema_path='' @ p @ '')''))
      | Inr v \<Rightarrow> Inr (map issue_of (iter_errors L v inst)))"

text \<open>
  What is asked of the libraries for a set of schemas: the schemas are documents of the program,
  the printer of floats is faithful, the 64-bit hash has no collision among their byte streams,
  and the iterator of a map that is not empty visits one of its keys.
\<close>

definition libs_ok :: "'v validation_libs \<Rightarrow> value set \<Rightarrow> bool" where
  "libs_ok L S \<longleftrightarrow>
     (\<forall>s\<in>S. hashable s) \<and> faithful_format (format_f64 L) \<and>
     inj_on (hash64 L) (hash_json_value (format_f64 L) ` S) \<and>
     (\<forall>c. c \<noteq> [] \<longrightarrow> (\<exists>k \<in> fst ` set c. first_key L c = Some k))"

definition validators_ok :: "'v validation_libs \<Rightarrow> nat \<Rightarrow> value set \<Rightarrow> (u64 \<times> 'v) list \<Rightarrow> bool" where
  "validators_ok L limit S c \<longleftrightarrow>
     distinct (map fst c) \<and> length c \<le> max limit 1 \<and>
     (\<forall>(k, v) \<in> set c. \<exists>s\<in>S. k = hash_value (hash64 L) (format_f64 L) s \<and> validator_for L s = Inr v)"

lemma hash_value_inj: "libs_ok L S \<Longrightarrow> inj_on (hash_value (hash64 L) (format_f64 L)) S"
proof (rule inj_onI)
  fix s t
  assume ok: "libs_ok L S" and st: "s \<in> S" "t \<in> S"
    and eq: "hash_value (hash64 L) (format_f64 L) s = hash_value (hash64 L) (format_f64 L) t"
  then have "hash_json_value (format_f64 L) s = hash_json_value (format_f64 L) t"
    by (auto simp: hash_value_def libs_ok_def dest!: inj_onD)
  with ok st hash_json_value_prefix [of "format_f64 L" s t "[]" "[]"] show "s = t"
    by (simp add: libs_ok_def)
qed

lemma length_delete_less: "k \<in> fst ` set c \<Longrightarrow> length (AList.delete k c) < length c"
  unfolding AList.delete_eq by (auto intro: length_filter_less)

lemma trim_ok:
  assumes "libs_ok L S"
  shows "distinct (map fst c) \<Longrightarrow> \<exists>c'. trim_validator_cache_if_needed L limit c = Some c' \<and>
    distinct (map fst c') \<and> length c' \<le> max limit 1 \<and> set c' \<subseteq> set c"
proof (induction "length c" arbitrary: c rule: less_induct)
  case less
  show ?case
  proof (cases "max limit 1 < length c")
    case True
    then have "c \<noteq> []" by auto
    with assms obtain k where k: "first_key L c = Some k" "k \<in> fst ` set c"
      unfolding libs_ok_def by blast
    then obtain c' where "trim_validator_cache_if_needed L limit (AList.delete k c) = Some c'"
      "distinct (map fst c')" "length c' \<le> max limit 1" "set c' \<subseteq> set (AList.delete k c)"
      using less.hyps [OF length_delete_less [OF k(2)] distinct_delete [OF less.prems]] by blast
    moreover have "set (AList.delete k c) \<subseteq> set c" by (auto simp: AList.delete_eq)
    ultimately show ?thesis
      using True k by (subst trim_validator_cache_if_needed.simps) auto
  next
    case False
    then have "trim_validator_cache_if_needed L limit c = Some c"
      by (subst trim_validator_cache_if_needed.simps) (simp only: if_False)
    with False less.prems show ?thesis by auto
  qed
qed

lemma validate_instance_step:
  assumes "libs_ok L S" "validators_ok L limit S c" "schema \<in> S"
  shows "\<exists>c'. validate_instance L limit schema inst c = Some (validate_fresh L schema inst, c')
    \<and> validators_ok L limit S c'"
proof (cases "map_of c (hash_value (hash64 L) (format_f64 L) schema)")
  case (Some v)
  then obtain s where "s \<in> S" "validator_for L s = Inr v"
    and "hash_value (hash64 L) (format_f64 L) schema = hash_value (hash64 L) (format_f64 L) s"
    using assms(2) by (fastforce simp: validators_ok_def dest: map_of_SomeD)
  with inj_onD [OF hash_value_inj [OF assms(1)]] assms(3) have "validator_for L schema = Inr v" by blast
  with Some assms(2) show ?thesis
    by (simp add: validate_instance_def get_or_compile_validator_def validate_fresh_def)
next
  case None
  show ?thesis
  proof (cases "validator_for L schema")
    case (Inl e)
    with None assms(2) show ?thesis
      by (cases e) (simp add: validate_instance_def get_or_compile_validator_def validate_fresh_def)
  next
    case (Inr v)
    let ?k = "hash_value (hash64 L) (format_f64 L) schema"
    have "distinct (map fst ((?k, v) # c))"
      using None assms(2) by (simp add: validators_ok_def map_of_eq_None_iff)
    from trim_ok [OF assms(1) this] obtain c' where
      "trim_validator_cache_if_needed L limit ((?k, v) # c) = Some c'"
      "distinct (map fst c')" "length c' \<le> max limit 1" "set c' \<subseteq> set ((?k, v) # c)" by blast
    moreover from this(4) have "validators_ok L limit S c'"
      using calculation(2,3) assms(2,3) Inr unfolding validators_ok_def by fastforce
    ultimately show ?thesis
      using None Inr
      by (auto simp: validate_instance_def get_or_compile_validator_def validate_fresh_def Let_def)
  qed
qed

inductive validate_step ::
  "'v validation_libs \<Rightarrow> nat \<Rightarrow> value set \<Rightarrow> (u64 \<times> 'v) list \<Rightarrow> (u64 \<times> 'v) list \<Rightarrow> bool"
  for L limit S where
  "schema \<in> S \<Longrightarrow> validate_instance L limit schema inst c = Some (r, c') \<Longrightarrow> validate_step L limit S c c'"

interpretation vc: invariant_system "\<lambda>c. c = []" "validate_step L limit S"
  "\<lambda>c. libs_ok L S \<longrightarrow> validators_ok L limit S c" for L limit S
proof
  show "libs_ok L S \<longrightarrow> validators_ok L limit S c" if "c = []" for c
    using that by (simp add: validators_ok_def)
  show "libs_ok L S \<longrightarrow> validators_ok L limit S c'"
    if "libs_ok L S \<longrightarrow> validators_ok L limit S c" "validate_step L limit S c c'" for c c'
    using that(2,1) by cases (metis Pair_inject option.inject validate_instance_step)
qed

section \<open>Properties\<close>

text \<open>
  The instance the witnesses use: a faithful printer of floats (the two parts of the fraction), a
  compiler that accepts every schema, and an iterator that starts at the head.
\<close>

definition demo_format :: "flt \<Rightarrow> string" where
  "demo_format x =
     (case x of
        Finite r \<Rightarrow>
          (if fst (quotient_of r) < 0 then ''-'' else ''+'') @ nat_to_string (nat \<bar>fst (quotient_of r)\<bar>)
          @ ''e'' @ nat_to_string (nat (snd (quotient_of r)))
      | _ \<Rightarrow> ''-.0'')"

lemma demo_format_inject:
  assumes "demo_format (Finite r) = demo_format (Finite q)"
  shows "r = q"
proof -
  obtain a b where r: "quotient_of r = (a, b)" by force
  obtain c d where q: "quotient_of q = (c, d)" by force
  have inj: "m = m' \<and> n = n'"
    if "nat_to_string m @ CHR ''e'' # nat_to_string n = nat_to_string m' @ CHR ''e'' # nat_to_string n'"
    for m n m' n'
    using arg_cong [OF that, of "split_once CHR ''e''"]
    by (simp add: split_once_append nat_to_string_no_float_char)
  from assms have "(a < 0) = (c < 0)" "nat \<bar>a\<bar> = nat \<bar>c\<bar>" "nat b = nat d"
    using inj [of "nat \<bar>a\<bar>" "nat b" "nat \<bar>c\<bar>" "nat d"]
    by (auto simp: demo_format_def r q split: if_splits)
  moreover have "b > 0" "d > 0" using r q quotient_of_denom_pos by blast+
  ultimately have "quotient_of r = quotient_of q" unfolding r q by auto
  then show ?thesis by (rule quotient_of_inject)
qed

lemma demo_format_ok: "faithful_format demo_format"
proof -
  have "demo_format (Finite r) \<noteq> ''-.0''" for r
  proof
    assume "demo_format (Finite r) = ''-.0''"
    then have "CHR ''.'' \<in> set (demo_format (Finite r))" by simp
    then show False
      by (auto simp: demo_format_def nat_to_string_no_float_char split: if_splits)
  qed
  moreover have "demo_format NegZero = ''-.0''" by (simp add: demo_format_def)
  moreover have "utf8_like (demo_format x) \<and> (CHR ''.'' \<in> set (demo_format x) \<or> CHR ''e'' \<in> set (demo_format x))" for x
    using nat_to_string_no_float_char(4)
    by (auto simp: demo_format_def utf8_like_def split: flt.split)
  ultimately show ?thesis
    unfolding faithful_format_def using demo_format_inject
    by (auto simp: is_finite_def split: flt.splits) metis+
qed

definition demo_libs :: "value validation_libs" where
  "demo_libs =
     \<lparr>validator_for = Inr, iter_errors = (\<lambda>_ _. []), hash64 = (\<lambda>_. 0), format_f64 = demo_format,
      first_key = (\<lambda>c. case c of [] \<Rightarrow> None | kv # _ \<Rightarrow> Some (fst kv))\<rparr>"

lemma demo_libs_ok: "libs_ok demo_libs {Bool True}"
  by (auto simp: libs_ok_def demo_libs_def demo_format_ok neq_Nil_conv)

text \<open>
  C31. The cache of compiled validators is transparent and bounded: after any sequence of
  validations, validating returns (the trimming loop ends), gives exactly the issues or the error
  of compiling the schema afresh, and leaves at most the configured number of validators, provided
  the 64-bit hash has no collision among the schemas in use.
\<close>

theorem validator_cache_transparent:
  assumes "libs_ok L S" and "reachable_from (\<lambda>c. c = []) (validate_step L limit S) c" and "schema \<in> S"
  shows "\<exists>c'. validate_instance L limit schema inst c = Some (validate_fresh L schema inst, c')
    \<and> length c' \<le> max limit 1"
proof -
  have "validators_ok L limit S c" using vc.reachable_inv [OF assms(2)] assms(1) by simp
  from validate_instance_step [OF assms(1) this assms(3), of inst] show ?thesis
    by (auto simp: validators_ok_def)
qed

theorem validator_cache_transparent_witness:
  "\<exists>c'. validate_instance demo_libs 1 (Bool True) Null [] = Some (Inr [], c') \<and> length c' \<le> 1"
proof -
  have "libs_ok demo_libs {Bool True}" by (rule demo_libs_ok)
  moreover have "reachable_from (\<lambda>c. c = []) (validate_step demo_libs 1 {Bool True}) []"
    by (simp add: reachable_from.start)
  ultimately show ?thesis
    using validator_cache_transparent [of demo_libs "{Bool True}" 1 "[]" "Bool True" Null] by (simp add: validate_fresh_def demo_libs_def)
qed

text \<open>
  The bytes hashed for the cache key determine the schema: no two different documents feed
  the hasher the same bytes, however their members are ordered or nested, so a wrong validator can
  only come from a collision of the 64-bit hash itself.
\<close>

theorem hash_json_value_injective:
  assumes "faithful_format fmt" and "hashable v" and "hashable w"
    and "hash_json_value fmt v = hash_json_value fmt w"
  shows "v = w"
  using hash_json_value_prefix [OF assms(1-3), of "[]" "[]"] assms(4) by simp

theorem hash_json_value_injective_witness:
  "hash_json_value demo_format (Array [Array [], Null]) \<noteq> hash_json_value demo_format (Array [Array [Null]])"
  using hash_json_value_injective [OF demo_format_ok, of "Array [Array [], Null]" "Array [Array [Null]]"]
  by auto

end
