(* ===== verification/Validate_Concurrent.thy ===== *)
theory Validate_Concurrent
  imports Validate
begin

text \<open>
  \<open>get_or_compile_validator\<close> and \<open>trim_validator_cache_if_needed\<close> of \<open>specmock-core/src/validate.rs\<close>
  under concurrency. The cache is one process-wide concurrent map: at most \<open>n\<close> threads validate at
  a time, each takes one operation of the map at a time, and the operations of different threads
  interleave without restriction.
\<close>

section \<open>Threads and steps\<close>

text \<open>
  Where a thread is: before the look-up, compiling, about to insert, about to look up again after
  a duplicate insert, at the head of the trimming loop, picking a key, about to remove it, done.
\<close>

datatype 'v validator_pc =
    Unoccupied
  | Consult "value"
  | Compile "value"
  | Insert "value" 'v
  | Reread "value"
  | Measure "value" 'v
  | Select "value" 'v
  | Drop "value" 'v u64
  | Answered "value" "core_error + 'v"

record 'v validators =
  shared_cache :: "(u64 \<times> 'v) list"
  validator_pcs :: "nat \<Rightarrow> 'v validator_pc"

abbreviation at_pc :: "'v validators \<Rightarrow> nat \<Rightarrow> 'v validator_pc \<Rightarrow> 'v validators" where
  "at_pc c t p \<equiv> c\<lparr>validator_pcs := (validator_pcs c)(t := p)\<rparr>"

abbreviation key_of :: "'v validation_libs \<Rightarrow> value \<Rightarrow> u64" where
  "key_of L s \<equiv> hash_value (hash64 L) (format_f64 L) s"

definition schema_rejected :: "string \<times> string \<Rightarrow> core_error" where
  "schema_rejected ep = SchemaError (fst ep @ '' (schema_path='' @ snd ep @ '')'')"

definition insertion_race :: core_error where
  "insertion_race =
     SchemaError ''validator cache insertion race: validator missing after duplicate insert''"

inductive validator_step ::
  "'v validation_libs \<Rightarrow> nat \<Rightarrow> value set \<Rightarrow> nat \<Rightarrow> 'v validators \<Rightarrow> 'v validators \<Rightarrow> bool"
  for L limit S where
  asked: "validator_pcs c t = Unoccupied \<Longrightarrow> s \<in> S \<Longrightarrow>
    validator_step L limit S t c (at_pc c t (Consult s))"
| hit: "validator_pcs c t = Consult s \<Longrightarrow> map_of (shared_cache c) (key_of L s) = Some v \<Longrightarrow>
    validator_step L limit S t c (at_pc c t (Answered s (Inr v)))"
| miss: "validator_pcs c t = Consult s \<Longrightarrow> map_of (shared_cache c) (key_of L s) = None \<Longrightarrow>
    validator_step L limit S t c (at_pc c t (Compile s))"
| rejected: "validator_pcs c t = Compile s \<Longrightarrow> validator_for L s = Inl ep \<Longrightarrow>
    validator_step L limit S t c (at_pc c t (Answered s (Inl (schema_rejected ep))))"
| compiled: "validator_pcs c t = Compile s \<Longrightarrow> validator_for L s = Inr v \<Longrightarrow>
    validator_step L limit S t c (at_pc c t (Insert s v))"
| inserted: "validator_pcs c t = Insert s v \<Longrightarrow> map_of (shared_cache c) (key_of L s) = None \<Longrightarrow>
    validator_step L limit S t c
      (at_pc (c\<lparr>shared_cache := (key_of L s, v) # shared_cache c\<rparr>) t (Measure s v))"
| duplicate: "validator_pcs c t = Insert s v \<Longrightarrow> map_of (shared_cache c) (key_of L s) \<noteq> None \<Longrightarrow>
    validator_step L limit S t c (at_pc c t (Reread s))"
| found_again: "validator_pcs c t = Reread s \<Longrightarrow> map_of (shared_cache c) (key_of L s) = Some v \<Longrightarrow>
    validator_step L limit S t c (at_pc c t (Answered s (Inr v)))"
| gone: "validator_pcs c t = Reread s \<Longrightarrow> map_of (shared_cache c) (key_of L s) = None \<Longrightarrow>
    validator_step L limit S t c (at_pc c t (Answered s (Inl insertion_race)))"
| over: "validator_pcs c t = Measure s v \<Longrightarrow> max limit 1 < length (shared_cache c) \<Longrightarrow>
    validator_step L limit S t c (at_pc c t (Select s v))"
| within: "validator_pcs c t = Measure s v \<Longrightarrow> length (shared_cache c) \<le> max limit 1 \<Longrightarrow>
    validator_step L limit S t c (at_pc c t (Answered s (Inr v)))"
| selected: "validator_pcs c t = Select s v \<Longrightarrow> first_key L (shared_cache c) = Some k \<Longrightarrow>
    validator_step L limit S t c (at_pc c t (Drop s v k))"
| emptied: "validator_pcs c t = Select s v \<Longrightarrow> first_key L (shared_cache c) = None \<Longrightarrow>
    validator_step L limit S t c (at_pc c t (Answered s (Inr v)))"
| dropped: "validator_pcs c t = Drop s v k \<Longrightarrow>
    validator_step L limit S t c
      (at_pc (c\<lparr>shared_cache := AList.delete k (shared_cache c)\<rparr>) t (Measure s v))"
| replied: "validator_pcs c t = Answered s r \<Longrightarrow>
    validator_step L limit S t c (at_pc c t Unoccupied)"

definition validators_start :: "'v validators \<Rightarrow> bool" where
  "validators_start c \<longleftrightarrow> c = \<lparr>shared_cache = [], validator_pcs = (\<lambda>_. Unoccupied)\<rparr>"

definition validators_step ::
  "'v validation_libs \<Rightarrow> nat \<Rightarrow> value set \<Rightarrow> nat \<Rightarrow> 'v validators \<Rightarrow> 'v validators \<Rightarrow> bool" where
  "validators_step L limit S n c d \<longleftrightarrow> (\<exists>t<n. validator_step L limit S t c d)"

section \<open>Answers\<close>

text \<open>Compiling afresh, the result a thread should report for its schema.\<close>

definition compile_fresh :: "'v validation_libs \<Rightarrow> value \<Rightarrow> core_error + 'v" where
  "compile_fresh L s =
     (case validator_for L s of Inl ep \<Rightarrow> Inl (schema_rejected ep) | Inr v \<Rightarrow> Inr v)"

text \<open>An answer is right, or the race error for a schema that compiles.\<close>

definition answer_ok :: "'v validation_libs \<Rightarrow> value \<Rightarrow> core_error + 'v \<Rightarrow> bool" where
  "answer_ok L s r \<longleftrightarrow>
     r = compile_fresh L s \<or> r = Inl insertion_race \<and> (\<exists>v. validator_for L s = Inr v)"

fun pc_ok :: "'v validation_libs \<Rightarrow> value set \<Rightarrow> 'v validator_pc \<Rightarrow> bool" where
  "pc_ok L S Unoccupied = True"
| "pc_ok L S (Consult s) = (s \<in> S)"
| "pc_ok L S (Compile s) = (s \<in> S)"
| "pc_ok L S (Reread s) = (s \<in> S \<and> (\<exists>v. validator_for L s = Inr v))"
| "pc_ok L S (Insert s v) = (s \<in> S \<and> validator_for L s = Inr v)"
| "pc_ok L S (Measure s v) = (s \<in> S \<and> validator_for L s = Inr v)"
| "pc_ok L S (Select s v) = (s \<in> S \<and> validator_for L s = Inr v)"
| "pc_ok L S (Drop s v k) = (s \<in> S \<and> validator_for L s = Inr v)"
| "pc_ok L S (Answered s r) = (s \<in> S \<and> answer_ok L s r)"

definition entries_ok :: "'v validation_libs \<Rightarrow> value set \<Rightarrow> (u64 \<times> 'v) list \<Rightarrow> bool" where
  "entries_ok L S c \<longleftrightarrow>
     distinct (map fst c) \<and> (\<forall>(k, v) \<in> set c. \<exists>s\<in>S. k = key_of L s \<and> validator_for L s = Inr v)"

lemma entries_ok_lookup:
  assumes "libs_ok L S" and "entries_ok L S c" and "s \<in> S" and "map_of c (key_of L s) = Some v"
  shows "validator_for L s = Inr v"
proof -
  from assms(2,4) obtain s' where "s' \<in> S" "key_of L s = key_of L s'" "validator_for L s' = Inr v"
    by (fastforce simp: entries_ok_def dest: map_of_SomeD)
  with inj_onD [OF hash_value_inj [OF assms(1)]] assms(3) show ?thesis by blast
qed

lemma entries_ok_insert:
  "entries_ok L S c \<Longrightarrow> map_of c (key_of L s) = None \<Longrightarrow> s \<in> S \<Longrightarrow> validator_for L s = Inr v \<Longrightarrow>
     entries_ok L S ((key_of L s, v) # c)"
  by (auto simp: entries_ok_def map_of_eq_None_iff)

lemma entries_ok_delete: "entries_ok L S c \<Longrightarrow> entries_ok L S (AList.delete k c)"
  using AList.distinct_delete [of c k] by (auto simp: entries_ok_def AList.delete_eq)

section \<open>How far the limit can be exceeded\<close>

text \<open>A thread inside the trimming loop accounts for at most one entry above the limit.\<close>

fun trims :: "'v validator_pc \<Rightarrow> bool" where
  "trims (Measure _ _) = True"
| "trims (Select _ _) = True"
| "trims (Drop _ _ _) = True"
| "trims _ = False"

definition trimming :: "nat \<Rightarrow> 'v validators \<Rightarrow> nat set" where
  "trimming n c = {t. t < n \<and> trims (validator_pcs c t)}"

lemma trimming_finite [simp]: "finite (trimming n c)"
  by (simp add: trimming_def)

lemma trimming_mem: "t \<in> trimming n c \<longleftrightarrow> t < n \<and> trims (validator_pcs c t)"
  by (simp add: trimming_def)

lemma trimming_at [simp]:
  "t < n \<Longrightarrow> trimming n (at_pc c t p) =
     (if trims p then insert t (trimming n c) else trimming n c - {t})"
  "t < n \<Longrightarrow> trimming n (c\<lparr>shared_cache := m, validator_pcs := (validator_pcs c)(t := p)\<rparr>) =
     (if trims p then insert t (trimming n c) else trimming n c - {t})"
  by (auto simp: trimming_def split: if_splits)

lemma trimming_le: "card (trimming n c) \<le> n"
  using card_mono [of "{..<n}" "trimming n c"] by (auto simp: trimming_def)

definition workers_inv ::
  "'v validation_libs \<Rightarrow> nat \<Rightarrow> value set \<Rightarrow> nat \<Rightarrow> 'v validators \<Rightarrow> bool" where
  "workers_inv L limit S n c \<longleftrightarrow>
     entries_ok L S (shared_cache c) \<and> (\<forall>t. pc_ok L S (validator_pcs c t)) \<and>
     length (shared_cache c) \<le> max limit 1 + card (trimming n c)"

lemma workers_pc: "workers_inv L limit S n c \<Longrightarrow> pc_ok L S (validator_pcs c t)"
  by (simp add: workers_inv_def)

lemma workers_entries: "workers_inv L limit S n c \<Longrightarrow> entries_ok L S (shared_cache c)"
  by (simp add: workers_inv_def)

lemma workers_keep:
  assumes "workers_inv L limit S n c" and "pc_ok L S p" and "t < n"
    and "trims p \<longleftrightarrow> trims (validator_pcs c t)"
  shows "workers_inv L limit S n (at_pc c t p)"
  using assms by (auto simp: workers_inv_def trimming_mem insert_absorb)

lemma workers_leave:
  assumes "workers_inv L limit S n c" and "pc_ok L S p" and "t < n" and "\<not> trims p"
    and "length (shared_cache c) \<le> max limit 1"
  shows "workers_inv L limit S n (at_pc c t p)"
  using assms by (auto simp: workers_inv_def)

lemma workers_step:
  assumes "libs_ok L S" and "validator_step L limit S t c d" and "workers_inv L limit S n c" and "t < n"
  shows "workers_inv L limit S n d"
  using assms(2)
proof cases
  case (hit s v)
  then show ?thesis
    using assms workers_pc [OF assms(3), of t] entries_ok_lookup [OF assms(1) workers_entries [OF assms(3)]]
    by (auto intro!: workers_keep simp: answer_ok_def compile_fresh_def)
next
  case (found_again s v)
  then show ?thesis
    using assms workers_pc [OF assms(3), of t] entries_ok_lookup [OF assms(1) workers_entries [OF assms(3)]]
    by (auto intro!: workers_keep simp: answer_ok_def compile_fresh_def)
next
  case (inserted s v)
  then have "t \<notin> trimming n c" by (simp add: trimming_mem)
  then show ?thesis
    using inserted assms(3,4) workers_pc [OF assms(3), of t]
    by (simp add: workers_inv_def entries_ok_insert)
next
  case (within s v)
  then show ?thesis
    using workers_pc [OF assms(3), of t] assms(3,4)
    by (auto intro!: workers_leave simp: answer_ok_def compile_fresh_def)
next
  case (emptied s v)
  have "shared_cache c = []" using emptied(3) assms(1) by (force simp: libs_ok_def)
  then show ?thesis
    using emptied workers_pc [OF assms(3), of t] assms(3,4)
    by (auto intro!: workers_leave simp: answer_ok_def compile_fresh_def)
next
  case (dropped s v k)
  then have "insert t (trimming n c) = trimming n c"
    using assms(4) by (simp add: trimming_mem insert_absorb)
  then show ?thesis
    using dropped assms(3,4) workers_pc [OF assms(3), of t] AList.length_delete_le [of k "shared_cache c"]
    by (simp add: workers_inv_def entries_ok_delete)
qed (use workers_pc [OF assms(3), of t] assms(3,4) in
      \<open>auto intro!: workers_keep simp: answer_ok_def compile_fresh_def\<close>)

interpretation vw: invariant_system validators_start "validators_step L limit S n"
  "\<lambda>c. libs_ok L S \<longrightarrow> workers_inv L limit S n c" for L limit S n
proof
  show "libs_ok L S \<longrightarrow> workers_inv L limit S n c" if "validators_start c" for c
    using that by (simp add: validators_start_def workers_inv_def entries_ok_def)
  show "libs_ok L S \<longrightarrow> workers_inv L limit S n d"
    if "libs_ok L S \<longrightarrow> workers_inv L limit S n c" "validators_step L limit S n c d" for c d
    using that workers_step by (auto simp: validators_step_def)
qed

section \<open>Properties\<close>

text \<open>
  C32. Under any interleaving of at most \<open>n\<close> validating threads, a thread's answer for its schema is
  the one compiling it afresh gives, with one exception: a schema that compiles may be answered with
  the error of an insertion race. The shared cache holds at most \<open>n\<close> entries above its limit, and
  none above it once no thread is trimming. The witness reaches the race: under a limit of one, the
  entry that made a thread's insertion a duplicate is trimmed by another before it is read back.
\<close>

theorem concurrent_validation:
  assumes "libs_ok L S" and "reachable_from validators_start (validators_step L limit S n) c"
  shows "length (shared_cache c) \<le> max limit 1 + n \<and>
    (trimming n c = {} \<longrightarrow> length (shared_cache c) \<le> max limit 1) \<and>
    (\<forall>t s r. validator_pcs c t = Answered s r \<longrightarrow>
       r = compile_fresh L s \<or> r = Inl insertion_race \<and> (\<exists>v. validator_for L s = Inr v))"
proof -
  have inv: "workers_inv L limit S n c" using vw.reachable_inv [OF assms(2)] assms(1) by simp
  have "pc_ok L S (Answered s r)" if "validator_pcs c t = Answered s r" for t s r
    using workers_pc [OF inv, of t] that by simp
  with inv trimming_le [of n c] show ?thesis by (fastforce simp: workers_inv_def answer_ok_def)
qed

text \<open>The instance of the witness: two schemas with different keys, the oldest entry visited first.\<close>

definition race_libs :: "value validation_libs" where
  "race_libs = demo_libs\<lparr>hash64 := (\<lambda>bs. if bs = [1, 1] then 1 else 0),
     first_key := (\<lambda>c. if c = [] then None else Some (fst (last c)))\<rparr>"

lemma race_libs_ok: "libs_ok race_libs {Bool True, Bool False}"
  by (auto simp: libs_ok_def race_libs_def demo_libs_def demo_format_ok inj_on_def intro!: bexI last_in_set)

lemma race_libs_simps [simp]:
  "key_of race_libs (Bool b) = (if b then 1 else 0)" "validator_for race_libs s = Inr s"
  "first_key race_libs (kv # c) = Some (fst (last (kv # c)))"
  by (simp_all add: race_libs_def demo_libs_def hash_value_def)

abbreviation race_reaches :: "value validators \<Rightarrow> bool" where
  "race_reaches \<equiv> reachable_from validators_start (validators_step race_libs 1 {Bool True, Bool False} 2)"

lemma race_more:
  "race_reaches c \<Longrightarrow> t < 2 \<Longrightarrow> validator_step race_libs 1 {Bool True, Bool False} t c d \<Longrightarrow> race_reaches d"
  using reachable_from.more [of validators_start "validators_step race_libs 1 {Bool True, Bool False} 2" c d]
  by (auto simp: validators_step_def)

lemma race_compiles:
  assumes "race_reaches c" and "t < 2" and "validator_pcs c t = Unoccupied"
    and "map_of (shared_cache c) (key_of race_libs (Bool b)) = None"
  shows "race_reaches (at_pc c t (Insert (Bool b) (Bool b)))"
proof -
  have "race_reaches (at_pc c t (Consult (Bool b)))"
    by (rule race_more [OF assms(1,2) asked]) (use assms(3) in \<open>cases b; simp\<close>)+
  then have "race_reaches (at_pc (at_pc c t (Consult (Bool b))) t (Compile (Bool b)))"
    by (rule race_more [OF _ assms(2) miss]) (use assms(4) in simp_all)
  then have "race_reaches (at_pc (at_pc (at_pc c t (Consult (Bool b))) t (Compile (Bool b))) t (Insert (Bool b) (Bool b)))"
    by (rule race_more [OF _ assms(2) compiled]) simp_all
  then show ?thesis by simp
qed

lemma race_inserts:
  assumes "race_reaches c" and "t < 2" and "validator_pcs c t = Insert (Bool b) v"
    and "map_of (shared_cache c) (key_of race_libs (Bool b)) = None"
  shows "race_reaches (at_pc (c\<lparr>shared_cache := (key_of race_libs (Bool b), v) # shared_cache c\<rparr>) t
    (Measure (Bool b) v))"
  by (rule race_more [OF assms(1,2) inserted]) (use assms(3,4) in simp_all)

lemma race_trims:
  assumes "race_reaches c" and "t < 2" and "validator_pcs c t = Measure s v"
    and "shared_cache c = [new, old]" and "fst new \<noteq> fst old"
  shows "race_reaches (at_pc (c\<lparr>shared_cache := [new]\<rparr>) t (Measure s v))"
proof -
  have "race_reaches (at_pc c t (Select s v))"
    by (rule race_more [OF assms(1,2) over]) (use assms(3,4) in simp_all)
  then have "race_reaches (at_pc (at_pc c t (Select s v)) t (Drop s v (fst old)))"
    by (rule race_more [OF _ assms(2) selected]) (use assms(4) in simp_all)
  from race_more [OF this assms(2) dropped] show ?thesis
    using assms(4,5) by (cases old; cases new) simp
qed

lemma race_settles:
  assumes "race_reaches c" and "t < 2" and "validator_pcs c t = Measure s v" and "length (shared_cache c) = 1"
  shows "race_reaches (at_pc c t Unoccupied)"
proof -
  have "race_reaches (at_pc c t (Answered s (Inr v)))"
    by (rule race_more [OF assms(1,2) within]) (use assms(3,4) in simp_all)
  from race_more [OF this assms(2) replied] show ?thesis by simp
qed

lemma race_duplicates:
  assumes "race_reaches c" and "t < 2" and "validator_pcs c t = Insert s v"
    and "map_of (shared_cache c) (key_of race_libs s) \<noteq> None"
  shows "race_reaches (at_pc c t (Reread s))"
  by (rule race_more [OF assms(1,2) duplicate]) (use assms(3,4) in simp_all)

lemma race_misses_twice:
  assumes "race_reaches c" and "t < 2" and "validator_pcs c t = Reread s"
    and "map_of (shared_cache c) (key_of race_libs s) = None"
  shows "race_reaches (at_pc c t (Answered s (Inl insertion_race)))"
  by (rule race_more [OF assms(1,2) gone]) (use assms(3,4) in simp_all)

theorem concurrent_validation_witness:
  "\<exists>c. race_reaches c \<and> validator_pcs c 1 = Answered (Bool True) (Inl insertion_race) \<and>
     compile_fresh race_libs (Bool True) = Inr (Bool True) \<and> length (shared_cache c) \<le> 1 + 2"
proof -
  define c0 :: "value validators" where "c0 = \<lparr>shared_cache = [], validator_pcs = (\<lambda>_. Unoccupied)\<rparr>"
  define c1 where "c1 = at_pc (at_pc c0 1 (Insert (Bool True) (Bool True))) 0 (Insert (Bool True) (Bool True))"
  define c2 where "c2 = at_pc (c1\<lparr>shared_cache := [(1, Bool True)]\<rparr>) 0 (Measure (Bool True) (Bool True))"
  define c3 where "c3 = at_pc (at_pc c2 0 Unoccupied) 0 (Insert (Bool False) (Bool False))"
  define c4 where "c4 = at_pc c3 1 (Reread (Bool True))"
  define c5 where "c5 = at_pc (c4\<lparr>shared_cache := [(0, Bool False), (1, Bool True)]\<rparr>) 0 (Measure (Bool False) (Bool False))"
  define c6 where "c6 = at_pc (c5\<lparr>shared_cache := [(0, Bool False)]\<rparr>) 0 (Measure (Bool False) (Bool False))"
  have "race_reaches c0" by (rule reachable_from.start) (simp add: validators_start_def c0_def)
  then have "race_reaches (at_pc c0 1 (Insert (Bool True) (Bool True)))"
    by (rule race_compiles) (simp_all add: c0_def)
  then have "race_reaches c1" unfolding c1_def by (rule race_compiles) (simp_all add: c0_def)
  from race_inserts [OF this, of 0 True "Bool True"] have "race_reaches c2"
    by (simp add: c2_def c1_def c0_def)
  then have "race_reaches (at_pc c2 0 Unoccupied)"
    by (rule race_settles) (simp_all add: c2_def)
  then have "race_reaches c3" unfolding c3_def by (rule race_compiles) (simp_all add: c2_def)
  then have "race_reaches c4"
    unfolding c4_def by (rule race_duplicates) (simp_all add: c3_def c2_def c1_def)
  from race_inserts [OF this, of 0 False "Bool False"] have "race_reaches c5"
    by (simp add: c5_def c4_def c3_def c2_def)
  from race_trims [OF this, of 0 "Bool False" "Bool False"] have "race_reaches c6"
    by (simp add: c6_def c5_def)
  from race_misses_twice [OF this, of 1 "Bool True"] have
    r: "race_reaches (at_pc c6 1 (Answered (Bool True) (Inl insertion_race)))"
    by (simp add: c6_def c5_def c4_def)
  show ?thesis
    using r concurrent_validation [OF race_libs_ok r] by (intro exI conjI) (assumption, simp_all add: compile_fresh_def)
qed

end
