(* ===== verification/Faker.thy ===== *)
theory Faker
  imports Errors
begin

text \<open>
  The deterministic data generator of \<open>specmock-core/src/faker.rs\<close>, with the discriminator of
  \<open>specmock-core/src/schema.rs\<close> and the runtime mode of \<open>contract.rs\<close>. The random number
  generator, its samplers and the regular-expression sampler are parameters, gathered in a record
  over the type of generator states; the generator state is threaded through every call.
\<close>

datatype mock_mode = Mock | Proxy

section \<open>Random numbers\<close>

text \<open>
  One sampler for each type and form of range the generator draws from. \<open>f64_between\<close> is \<open>None\<close>
  when the library panics (a range whose width is not finite), and \<open>regex_sample\<close> when the pattern
  does not compile.
\<close>

record 'g rng =
  seed_from_u64 :: "u64 \<Rightarrow> 'g"
  usize_below :: "nat \<Rightarrow> 'g \<Rightarrow> nat \<times> 'g"
  usize_between :: "nat \<Rightarrow> nat \<Rightarrow> 'g \<Rightarrow> nat \<times> 'g"
  u8_between :: "nat \<Rightarrow> nat \<Rightarrow> 'g \<Rightarrow> nat \<times> 'g"
  u32_between :: "nat \<Rightarrow> nat \<Rightarrow> 'g \<Rightarrow> nat \<times> 'g"
  u64_between :: "nat \<Rightarrow> nat \<Rightarrow> 'g \<Rightarrow> nat \<times> 'g"
  i64_between :: "int \<Rightarrow> int \<Rightarrow> 'g \<Rightarrow> int \<times> 'g"
  f64_between :: "flt \<Rightarrow> flt \<Rightarrow> 'g \<Rightarrow> (flt \<times> 'g) option"
  random_bool :: "rat \<Rightarrow> 'g \<Rightarrow> bool \<times> 'g"
  regex_sample :: "string \<Rightarrow> nat \<Rightarrow> 'g \<Rightarrow> (string \<times> 'g) option"

text \<open>What the samplers document: a draw lies in its range.\<close>

definition rng_ok :: "'g rng \<Rightarrow> bool" where
  "rng_ok R \<longleftrightarrow>
     (\<forall>n g. 0 < n \<longrightarrow> fst (usize_below R n g) < n) \<and>
     (\<forall>a b g. a \<le> b \<longrightarrow> a \<le> fst (usize_between R a b g) \<and> fst (usize_between R a b g) \<le> b) \<and>
     (\<forall>a b g. a \<le> b \<longrightarrow> a \<le> fst (u8_between R a b g) \<and> fst (u8_between R a b g) \<le> b) \<and>
     (\<forall>a b g. a \<le> b \<longrightarrow> a \<le> fst (u32_between R a b g) \<and> fst (u32_between R a b g) \<le> b) \<and>
     (\<forall>a b g. a \<le> b \<longrightarrow> a \<le> fst (u64_between R a b g) \<and> fst (u64_between R a b g) \<le> b) \<and>
     (\<forall>a b g. a \<le> b \<longrightarrow> a \<le> fst (i64_between R a b g) \<and> fst (i64_between R a b g) \<le> b)"

section \<open>Discriminators\<close>

record discriminator =
  property_name :: string
  mapping :: "(string \<times> string) list"

definition extract_discriminator :: "value \<Rightarrow> discriminator option" where
  "extract_discriminator schema =
     (case Option.bind (get schema ''discriminator'') as_object of
        None \<Rightarrow> None
      | Some disc \<Rightarrow>
          (case Option.bind (map_of disc ''propertyName'') as_str of
             None \<Rightarrow> None
           | Some name \<Rightarrow>
               Some \<lparr>property_name = name,
                 mapping =
                   (case Option.bind (map_of disc ''mapping'') as_object of
                      None \<Rightarrow> []
                    | Some m \<Rightarrow>
                        bt_of_list (List.map_filter
                          (\<lambda>(k, v). map_option (\<lambda>s. (k, s)) (as_str v)) m))\<rparr>))"

definition variant_schema_name :: "value \<Rightarrow> string option" where
  "variant_schema_name schema = Option.bind (get schema ''x-specmock-variant'') as_str"

definition last_segment :: "string \<Rightarrow> string" where
  "last_segment s = last (split_on CHR ''/'' s)"

fun position :: "('a \<Rightarrow> bool) \<Rightarrow> 'a list \<Rightarrow> nat option" where
  "position P [] = None"
| "position P (x # xs) = (if P x then Some 0 else map_option Suc (position P xs))"

definition variant_matches :: "string \<Rightarrow> value \<Rightarrow> bool" where
  "variant_matches name v \<longleftrightarrow>
     variant_schema_name v = Some name \<or> Option.bind (get v ''title'') as_str = Some name"

definition variant_index :: "'g rng \<Rightarrow> nat \<Rightarrow> 'g \<Rightarrow> (nat \<times> 'g) option" where
  "variant_index R n g = (if 0 < n then Some (usize_below R n g) else None)"

definition candidates :: "value list \<Rightarrow> (string \<times> string) list \<Rightarrow> nat list" where
  "candidates variants m =
     List.map_filter (\<lambda>(_, r). position (variant_matches (last_segment r)) variants) m"

definition pick_discriminator_variant_index ::
  "'g rng \<Rightarrow> value list \<Rightarrow> (string \<times> string) list \<Rightarrow> 'g \<Rightarrow> nat \<times> 'g" where
  "pick_discriminator_variant_index R variants m g =
     (let draw = (case variant_index R (length variants) g of Some r \<Rightarrow> r | None \<Rightarrow> (0, g)) in
      if m = [] \<or> variants = [] then draw
      else (let uniq = sort (remdups (candidates variants m)) in
            case uniq of
              [] \<Rightarrow> draw
            | [i] \<Rightarrow> (i, g)
            | _ \<Rightarrow> usize_between R (hd uniq) (last uniq) g))"

definition discriminator_value_for_index :: "discriminator \<Rightarrow> value list \<Rightarrow> nat \<Rightarrow> string" where
  "discriminator_value_for_index disc variants i =
     (let fallback = (case mapping disc of [] \<Rightarrow> ''variant_0'' | (k, _) # _ \<Rightarrow> k) in
      if i < length variants then
        (case (case variant_schema_name (variants ! i) of
                 Some n \<Rightarrow> Some n
               | None \<Rightarrow> Option.bind (get (variants ! i) ''title'') as_str) of
           None \<Rightarrow> fallback
         | Some name \<Rightarrow>
             (case find (\<lambda>(_, t). last_segment t = name) (mapping disc) of
                Some (k, _) \<Rightarrow> k
              | None \<Rightarrow> fallback))
      else fallback)"

section \<open>Scalars\<close>

definition opt_default :: "'a \<Rightarrow> 'a option \<Rightarrow> 'a" where
  "opt_default d x = (case x of Some v \<Rightarrow> v | None \<Rightarrow> d)"

definition schema_type :: "value \<Rightarrow> string option" where
  "schema_type schema =
     (case Option.bind (get schema ''type'') as_str of
        Some s \<Rightarrow> Some s
      | None \<Rightarrow>
          (case Option.bind (get schema ''type'') as_array of
             None \<Rightarrow> None
           | Some xs \<Rightarrow>
               if xs = [] then None
               else (case find (\<lambda>n. n \<noteq> ''null'') (List.map_filter as_str xs) of
                       Some n \<Rightarrow> Some n
                     | None \<Rightarrow> Some ''null'')))"

definition required_set :: "value \<Rightarrow> string list" where
  "required_set schema =
     (case Option.bind (get schema ''required'') as_array of
        Some xs \<Rightarrow> List.map_filter as_str xs
      | None \<Rightarrow> [])"

definition saturating_add_i64 :: "int \<Rightarrow> int \<Rightarrow> int" where
  "saturating_add_i64 a b = max (- (2 ^ 63)) (min (2 ^ 63 - 1) (a + b))"

definition generate_integer :: "'g rng \<Rightarrow> value \<Rightarrow> 'g \<Rightarrow> value \<times> 'g" where
  "generate_integer R schema g =
     (let lo = opt_default 0 (Option.bind (get schema ''minimum'') as_i64);
          hi = opt_default (saturating_add_i64 lo 100) (Option.bind (get schema ''maximum'') as_i64)
      in case i64_between R lo (max hi lo) g of (n, g') \<Rightarrow> (value_of_i64 n, g'))"

definition generate_number :: "'g rng \<Rightarrow> value \<Rightarrow> 'g \<Rightarrow> (value \<times> 'g) option" where
  "generate_number R schema g =
     (let lo = opt_default (Finite 0) (Option.bind (get schema ''minimum'') as_f64);
          hi = opt_default (float_add binary64 lo 100) (Option.bind (get schema ''maximum'') as_f64)
      in map_option (\<lambda>(x, g'). (value_of_f64 x, g')) (f64_between R lo (if float_less hi lo then lo else hi) g))"

definition cjk_path :: string where
  "cjk_path = [CHR 0xE8, CHR 0xB7, CHR 0xAF, CHR 0xE5, CHR 0xBE, CHR 0x84]"

definition string_for_format :: "string \<Rightarrow> string" where
  "string_for_format f =
     (if f = ''date-time'' then ''2026-03-01T00:00:00Z''
      else if f = ''date'' then ''2026-03-01''
      else if f = ''time'' then ''12:00:00''
      else if f = ''duration'' then ''P1D''
      else if f = ''email'' then ''mock@example.com''
      else if f = ''uuid'' then ''00000000-0000-0000-0000-000000000000''
      else if f = ''uri'' \<or> f = ''url'' then ''https://example.com/mock''
      else if f = ''uri-reference'' then ''/mock/path''
      else if f = ''uri-template'' then ''https://example.com/{id}''
      else if f = ''iri'' then ''https://example.com/'' @ cjk_path
      else if f = ''iri-reference'' then ''/'' @ cjk_path
      else if f = ''hostname'' then ''mock.example.com''
      else if f = ''ipv4'' then ''192.0.2.1''
      else if f = ''ipv6'' then ''2001:db8::1''
      else if f = ''byte'' then ''bW9jaw==''
      else if f = ''binary'' then ''0100110001101111''
      else if f = ''password'' then ''mock-p4$$w0rd''
      else if f = ''json-pointer'' then ''/mock/path''
      else if f = ''relative-json-pointer'' then ''0/mock''
      else if f = ''regex'' then ''^[a-z]+$''
      else ''mock-'' @ f)"

definition generate_pattern_string :: "'g rng \<Rightarrow> string \<Rightarrow> 'g \<Rightarrow> (string \<times> 'g) option" where
  "generate_pattern_string R pat g =
     (let s = opt_default pat (strip_prefix ''^'' pat);
          s' = opt_default s (strip_suffix ''$'' s)
      in regex_sample R (''(?-u:'' @ s' @ '')'') 5 g)"

fun random_letters :: "'g rng \<Rightarrow> nat \<Rightarrow> 'g \<Rightarrow> string \<times> 'g" where
  "random_letters R 0 g = ([], g)"
| "random_letters R (Suc n) g =
     (case u8_between R 97 122 g of (c, g') \<Rightarrow>
        (case random_letters R n g' of (s, g'') \<Rightarrow> (char_of c # s, g'')))"

definition generate_string :: "'g rng \<Rightarrow> value \<Rightarrow> 'g \<Rightarrow> value \<times> 'g" where
  "generate_string R schema g =
     (case Option.bind (get schema ''format'') as_str of
        Some f \<Rightarrow> (Str (string_for_format f), g)
      | None \<Rightarrow>
          (case Option.bind (Option.bind (get schema ''pattern'') as_str)
                  (\<lambda>p. generate_pattern_string R p g) of
             Some (s, g') \<Rightarrow> (Str s, g')
           | None \<Rightarrow>
               (let lo = min (opt_default 1 (Option.bind (get schema ''minLength'') as_u64)) 10000;
                    hi = max (min (opt_default (lo + 8) (Option.bind (get schema ''maxLength'') as_u64)) 10000) lo
                in case u64_between R lo hi g of (n, g') \<Rightarrow>
                     (case random_letters R n g' of (s, g'') \<Rightarrow> (Str s, g'')))))"

section \<open>The generator\<close>

text \<open>A failure is an error of the library or the panic of the float sampler.\<close>

datatype faker_failure = Failed core_error | Panicked

fun merge_values :: "value \<Rightarrow> value \<Rightarrow> value" where
  "merge_values (Object t) (Object s) = Object (foldl (\<lambda>m (k, v). bt_insert k v m) t s)"
| "merge_values _ s = s"

definition unsupported_type :: "string \<Rightarrow> faker_failure" where
  "unsupported_type t = Failed (FakerError (''unsupported schema type: '' @ t))"

definition array_bounds :: "value \<Rightarrow> nat \<times> nat" where
  "array_bounds schema =
     (let lo = min (opt_default 1 (Option.bind (get schema ''minItems'') as_u64)) 100;
          hi = max (min (opt_default (lo + 2) (Option.bind (get schema ''maxItems'') as_u64)) 100) lo
      in (lo, hi))"

text \<open>The value given without synthesis: \<open>example\<close>, the first of \<open>examples\<close>, \<open>default\<close>.\<close>

definition preset :: "value \<Rightarrow> value option" where
  "preset schema =
     (case get schema ''example'' of
        Some v \<Rightarrow> Some v
      | None \<Rightarrow>
          (case Option.bind (get schema ''examples'') as_array of
             Some (v # _) \<Rightarrow> Some v
           | _ \<Rightarrow> get schema ''default''))"

definition variants_of :: "value \<Rightarrow> value list option" where
  "variants_of schema =
     (case Option.bind (case get schema ''oneOf'' of Some v \<Rightarrow> Some v | None \<Rightarrow> get schema ''anyOf'') as_array of
        Some (v # vs) \<Rightarrow> Some (v # vs)
      | _ \<Rightarrow> None)"

definition set_discriminator :: "discriminator option \<Rightarrow> value list \<Rightarrow> nat \<Rightarrow> value \<Rightarrow> value" where
  "set_discriminator disc variants i v =
     (case (disc, v) of
        (Some d, Object m) \<Rightarrow>
          Object (bt_insert (property_name d) (Str (discriminator_value_for_index d variants i)) m)
      | _ \<Rightarrow> v)"

function (sequential)
  generate_with_rng :: "'g rng \<Rightarrow> value \<Rightarrow> nat \<Rightarrow> 'g \<Rightarrow> faker_failure + value \<times> 'g" and
  generate_all :: "'g rng \<Rightarrow> value list \<Rightarrow> nat \<Rightarrow> value \<Rightarrow> 'g \<Rightarrow> faker_failure + value \<times> 'g" and
  generate_properties ::
    "'g rng \<Rightarrow> string list \<Rightarrow> (string \<times> value) list \<Rightarrow> nat \<Rightarrow> (string \<times> value) list \<Rightarrow> 'g
      \<Rightarrow> faker_failure + (string \<times> value) list \<times> 'g" and
  generate_extras ::
    "'g rng \<Rightarrow> value \<Rightarrow> nat list \<Rightarrow> nat \<Rightarrow> (string \<times> value) list \<Rightarrow> 'g
      \<Rightarrow> faker_failure + (string \<times> value) list \<times> 'g" and
  generate_items :: "'g rng \<Rightarrow> value \<Rightarrow> nat \<Rightarrow> nat \<Rightarrow> 'g \<Rightarrow> faker_failure + value list \<times> 'g" and
  generate_object :: "'g rng \<Rightarrow> value \<Rightarrow> nat \<Rightarrow> 'g \<Rightarrow> faker_failure + value \<times> 'g" and
  generate_array :: "'g rng \<Rightarrow> value \<Rightarrow> nat \<Rightarrow> 'g \<Rightarrow> faker_failure + value \<times> 'g" where
  "generate_with_rng R schema d g =
     (case preset schema of
        Some v \<Rightarrow> Inr (v, g)
      | None \<Rightarrow>
        if 32 < d then Inl (Failed (FakerError ''maximum schema recursion depth reached''))
        else
         (case variants_of schema of
            Some variants \<Rightarrow>
              (let disc = extract_discriminator schema in
               case (case disc of
                       Some dc \<Rightarrow> Some (pick_discriminator_variant_index R variants (mapping dc) g)
                     | None \<Rightarrow> variant_index R (length variants) g) of
                 None \<Rightarrow> Inl (Failed (FakerError ''oneOf/anyOf declares no variants''))
               | Some (i, g1) \<Rightarrow>
                   if i < length variants then
                     (case generate_with_rng R (variants ! i) (d + 1) g1 of
                        Inl e \<Rightarrow> Inl e
                      | Inr (v, g2) \<Rightarrow> Inr (set_discriminator disc variants i v, g2))
                   else Inl Panicked)
          | None \<Rightarrow>
            (case Option.bind (get schema ''allOf'') as_array of
               Some items \<Rightarrow> generate_all R items (d + 1) (Object []) g
             | None \<Rightarrow>
               (case Option.bind (get schema ''enum'') as_array of
                  Some (e # es) \<Rightarrow>
                    (case usize_below R (length (e # es)) g of (i, g1) \<Rightarrow>
                       if i < length (e # es) then Inr ((e # es) ! i, g1) else Inl Panicked)
                | _ \<Rightarrow>
                  (case get schema ''const'' of
                     Some v \<Rightarrow> Inr (v, g)
                   | None \<Rightarrow>
                     (case schema_type schema of
                        None \<Rightarrow> Inr (Object [], g)
                      | Some t \<Rightarrow>
                          if t = ''object'' then generate_object R schema (d + 1) g
                          else if t = ''array'' then generate_array R schema (d + 1) g
                          else if t = ''integer'' then Inr (generate_integer R schema g)
                          else if t = ''number'' then
                            (case generate_number R schema g of Some r \<Rightarrow> Inr r | None \<Rightarrow> Inl Panicked)
                          else if t = ''boolean'' then
                            (case random_bool R (1/2) g of (b, g1) \<Rightarrow> Inr (Bool b, g1))
                          else if t = ''null'' then Inr (Null, g)
                          else if t = ''string'' then Inr (generate_string R schema g)
                          else Inl (unsupported_type t)))))))"
| "generate_all R [] d merged g = Inr (merged, g)"
| "generate_all R (s # ss) d merged g =
     (case generate_with_rng R s d g of
        Inl e \<Rightarrow> Inl e
      | Inr (v, g1) \<Rightarrow> generate_all R ss d (merge_values merged v) g1)"
| "generate_properties R req [] d obj g = Inr (obj, g)"
| "generate_properties R req ((name, s) # ps) d obj g =
     (case (if name \<in> set req then (True, g) else random_bool R (35/100) g) of
        (True, g1) \<Rightarrow>
          (case generate_with_rng R s d g1 of
             Inl e \<Rightarrow> Inl e
           | Inr (v, g2) \<Rightarrow> generate_properties R req ps d (bt_insert name v obj) g2)
      | (False, g1) \<Rightarrow> generate_properties R req ps d obj g1)"
| "generate_extras R s [] d obj g = Inr (obj, g)"
| "generate_extras R s (i # is) d obj g =
     (case generate_with_rng R s d g of
        Inl e \<Rightarrow> Inl e
      | Inr (v, g1) \<Rightarrow> generate_extras R s is d (bt_insert (''extra_'' @ nat_to_string i) v obj) g1)"
| "generate_items R s 0 d g = Inr ([], g)"
| "generate_items R s (Suc n) d g =
     (case generate_with_rng R s d g of
        Inl e \<Rightarrow> Inl e
      | Inr (v, g1) \<Rightarrow>
          (case generate_items R s n d g1 of
             Inl e \<Rightarrow> Inl e
           | Inr (vs, g2) \<Rightarrow> Inr (v # vs, g2)))"
| "generate_object R schema d g =
     (case generate_properties R (required_set schema)
             (opt_default [] (Option.bind (get schema ''properties'') as_object)) d [] g of
        Inl e \<Rightarrow> Inl e
      | Inr (obj, g1) \<Rightarrow>
          (case get schema ''additionalProperties'' of
             Some (Bool True) \<Rightarrow> Inr (Object (bt_insert ''extra_0'' (Str ''mock-extra'') obj), g1)
           | Some (Object m) \<Rightarrow>
               (case u32_between R 1 2 g1 of (n, g2) \<Rightarrow>
                  (case generate_extras R (Object m) [0..<n] d obj g2 of
                     Inl e \<Rightarrow> Inl e
                   | Inr (obj', g3) \<Rightarrow> Inr (Object obj', g3)))
           | _ \<Rightarrow> Inr (Object obj, g1)))"
| "generate_array R schema d g =
     (case array_bounds schema of (lo, hi) \<Rightarrow>
      case u64_between R lo hi g of (n, g1) \<Rightarrow>
        (let items = opt_default (Object [(''type'', Str ''string'')]) (get schema ''items'') in
         if items = Bool False then Inr (Array [], g1)
         else (case generate_items R items n d g1 of
                 Inl e \<Rightarrow> Inl e
               | Inr (vs, g2) \<Rightarrow> Inr (Array vs, g2))))"
  by pat_completeness auto

text \<open>
  Every schema below is generated one level deeper, and nothing is generated below level 32, so the
  recursion ends whatever the schema and the generator.
\<close>

termination
  by (relation "measures
      [\<lambda>x. case x of
           Inl (Inl (R, s, d, g)) \<Rightarrow> 33 - d
         | Inl (Inr (Inl (R, ss, d, m, g))) \<Rightarrow> 33 - d
         | Inl (Inr (Inr (R, req, ps, d, m, g))) \<Rightarrow> 33 - d
         | Inr (Inl (Inl (R, s, is, d, m, g))) \<Rightarrow> 33 - d
         | Inr (Inl (Inr (R, s, n, d, g))) \<Rightarrow> 33 - d
         | Inr (Inr (Inl (R, s, d, g))) \<Rightarrow> 33 - d
         | Inr (Inr (Inr (R, s, d, g))) \<Rightarrow> 33 - d,
       \<lambda>x. case x of
           Inl (Inl _) \<Rightarrow> 0
         | Inl (Inr _) \<Rightarrow> 1
         | Inr (Inl _) \<Rightarrow> 1
         | Inr (Inr _) \<Rightarrow> 2,
       \<lambda>x. case x of
           Inl (Inr (Inl (R, ss, d, m, g))) \<Rightarrow> length ss
         | Inl (Inr (Inr (R, req, ps, d, m, g))) \<Rightarrow> length ps
         | Inr (Inl (Inl (R, s, is, d, m, g))) \<Rightarrow> length is
         | Inr (Inl (Inr (R, s, n, d, g))) \<Rightarrow> n
         | _ \<Rightarrow> 0]") auto

declare generate_with_rng.simps [simp del] generate_object.simps [simp del] generate_array.simps [simp del]

definition generate_json_value :: "'g rng \<Rightarrow> value \<Rightarrow> u64 \<Rightarrow> faker_failure + value" where
  "generate_json_value R schema s =
     (case generate_with_rng R schema 0 (seed_from_u64 R s) of Inl e \<Rightarrow> Inl e | Inr (v, _) \<Rightarrow> Inr v)"

end
