(* ===== verification/Faker_Spec.thy ===== *)
theory Faker_Spec
  imports Faker
begin

text \<open>
  What the generator promises: an independent definition of JSON-Schema conformance for the
  keywords the generator reads, the schemas whose author gave consistent constraints, and the proof
  that generation succeeds on them with a conforming value, whatever the random draws.
\<close>

section \<open>Conformance\<close>

fun has_type :: "string \<Rightarrow> value \<Rightarrow> bool" where
  "has_type t Null = (t = ''null'')"
| "has_type t (Bool _) = (t = ''boolean'')"
| "has_type t (Number n) = (t = ''number'' \<or> t = ''integer'' \<and> as_i64 (Number n) \<noteq> None)"
| "has_type t (Str _) = (t = ''string'')"
| "has_type t (Array _) = (t = ''array'')"
| "has_type t (Object _) = (t = ''object'')"

definition in_bounds :: "'a::linorder option \<Rightarrow> 'a option \<Rightarrow> 'a \<Rightarrow> bool" where
  "in_bounds lo hi x \<longleftrightarrow>
     (case lo of Some a \<Rightarrow> a \<le> x | None \<Rightarrow> True) \<and> (case hi of Some b \<Rightarrow> x \<le> b | None \<Rightarrow> True)"

lemma in_bounds_iff: "in_bounds lo hi x \<longleftrightarrow> (\<forall>a. lo = Some a \<longrightarrow> a \<le> x) \<and> (\<forall>b. hi = Some b \<longrightarrow> x \<le> b)"
  by (simp add: in_bounds_def split: option.split)

text \<open>The bounds that concern the value alone: of an integer, a string, an array and an object.\<close>

definition bounds_ok :: "(string \<times> value) list \<Rightarrow> value \<Rightarrow> bool" where
  "bounds_ok kws v =
     (case v of
        Number _ \<Rightarrow>
          (case as_i64 v of
             Some n \<Rightarrow> in_bounds (Option.bind (map_of kws ''minimum'') as_i64)
                         (Option.bind (map_of kws ''maximum'') as_i64) n
           | None \<Rightarrow> True)
      | Str x \<Rightarrow> in_bounds (Option.bind (map_of kws ''minLength'') as_u64)
                   (Option.bind (map_of kws ''maxLength'') as_u64) (length x)
      | Array xs \<Rightarrow> in_bounds (Option.bind (map_of kws ''minItems'') as_u64)
                      (Option.bind (map_of kws ''maxItems'') as_u64) (length xs)
      | Object m \<Rightarrow> set (required_set (Object kws)) \<subseteq> fst ` set m
      | _ \<Rightarrow> True)"

lemma map_of_size: "map_of m k = Some v \<Longrightarrow> size v < size (Object m)"
proof -
  assume "map_of m k = Some v"
  then have "(k, v) \<in> set m" by (rule map_of_SomeD)
  then have "size v < Suc (size_list (size_prod (\<lambda>_. 0) size) m)"
    by (intro le_imp_less_Suc size_list_estimation' [where x = "(k, v)"]) simp_all
  then show ?thesis by simp
qed

lemma array_elem_size: "x \<in> set xs \<Longrightarrow> size x < size (Array xs)"
  by (simp add: le_imp_less_Suc size_list_estimation')

lemma object_elem_size: "kv \<in> set m \<Longrightarrow> size (snd kv) < size (Object m)"
  by (cases kv) (force intro: le_imp_less_Suc size_list_estimation')

function conforms :: "value \<Rightarrow> value \<Rightarrow> bool" where
  "conforms s v =
     (case s of
        Bool b \<Rightarrow> b
      | Object kws \<Rightarrow>
          (case map_of kws ''type'' of Some (Str t) \<Rightarrow> has_type t v | _ \<Rightarrow> True) \<and>
          (case map_of kws ''enum'' of Some (Array es) \<Rightarrow> v \<in> set es | _ \<Rightarrow> True) \<and>
          (case map_of kws ''const'' of Some c \<Rightarrow> v = c | None \<Rightarrow> True) \<and>
          (case map_of kws ''anyOf'' of Some (Array ss) \<Rightarrow> \<exists>t\<in>set ss. conforms t v | _ \<Rightarrow> True) \<and>
          bounds_ok kws v \<and>
          (case v of
             Array xs \<Rightarrow> (case map_of kws ''items'' of Some t \<Rightarrow> \<forall>x\<in>set xs. conforms t x | None \<Rightarrow> True)
           | Object m \<Rightarrow>
               (case map_of kws ''properties'' of
                  Some (Object ps) \<Rightarrow>
                    \<forall>kt\<in>set ps. (case map_of m (fst kt) of Some w \<Rightarrow> conforms (snd kt) w | None \<Rightarrow> True)
                | _ \<Rightarrow> True) \<and>
               (case map_of kws ''additionalProperties'' of
                  Some t \<Rightarrow>
                    \<forall>k\<in>set (map fst m).
                      (case map_of kws ''properties'' of Some (Object ps) \<Rightarrow> k \<in> fst ` set ps | _ \<Rightarrow> False)
                      \<or> (case map_of m k of Some w \<Rightarrow> conforms t w | None \<Rightarrow> True)
                | None \<Rightarrow> True)
           | _ \<Rightarrow> True)
      | _ \<Rightarrow> True)"
  by pat_completeness auto

termination
  by (relation "measure (\<lambda>(s, _). size s)")
    (auto dest!: map_of_size array_elem_size object_elem_size simp del: json_size)

declare conforms.simps [simp del]

lemma case_option_all: "(case x of Some w \<Rightarrow> P w | None \<Rightarrow> True) \<longleftrightarrow> (\<forall>w. x = Some w \<longrightarrow> P w)"
  by (simp split: option.split)

section \<open>Consistent schemas\<close>

definition only_keys :: "string list \<Rightarrow> (string \<times> value) list \<Rightarrow> bool" where
  "only_keys ks kws = list_all (\<lambda>(k, _). k \<in> set ks) kws"

definition annotations :: "string list" where
  "annotations = [''type'', ''title'', ''description'']"

definition opt_le :: "'a::linorder option \<Rightarrow> 'a option \<Rightarrow> bool" where
  "opt_le lo hi = (case (lo, hi) of (Some a, Some b) \<Rightarrow> a \<le> b | _ \<Rightarrow> True)"

definition properties_of :: "(string \<times> value) list \<Rightarrow> (string \<times> value) list" where
  "properties_of kws = opt_default [] (Option.bind (map_of kws ''properties'') as_object)"

definition extra_keys :: "string list" where
  "extra_keys = [''extra_0'', ''extra_1'']"

text \<open>
  A schema the generator can serve at a level: what the author presets conforms to the schema
  itself, lower bounds (also the generator's defaults, 0 for an integer and 1 for a length) do
  not exceed upper bounds or the generator's ceilings, required properties are declared, and the
  schemas inside are again consistent one level deeper.
\<close>

function generable :: "nat \<Rightarrow> value \<Rightarrow> bool" where
  "generable d s =
     (case s of
        Object kws \<Rightarrow>
          (case preset s of
             Some v \<Rightarrow> conforms s v
           | None \<Rightarrow>
             d \<le> 32 \<and> map_of kws ''oneOf'' = None \<and> map_of kws ''allOf'' = None \<and>
             (case map_of kws ''anyOf'' of
                Some (Array ss) \<Rightarrow>
                  only_keys [''anyOf'', ''title'', ''description''] kws \<and> ss \<noteq> [] \<and>
                  (\<forall>t\<in>set ss. generable (d + 1) t)
              | Some _ \<Rightarrow> False
              | None \<Rightarrow>
                (case map_of kws ''enum'' of
                   Some (Array es) \<Rightarrow> es \<noteq> [] \<and> (\<forall>e\<in>set es. conforms s e)
                 | Some _ \<Rightarrow> False
                 | None \<Rightarrow>
                   (case map_of kws ''const'' of
                      Some c \<Rightarrow> conforms s c
                    | None \<Rightarrow>
                      (case map_of kws ''type'' of
                         Some (Str t) \<Rightarrow>
                           if t = ''null'' \<or> t = ''boolean'' then only_keys annotations kws
                           else if t = ''integer'' then
                             only_keys (annotations @ [''minimum'', ''maximum'']) kws \<and>
                             opt_le (Some (opt_default 0 (Option.bind (map_of kws ''minimum'') as_i64)))
                               (Option.bind (map_of kws ''maximum'') as_i64) \<and>
                             wf_value s
                           else if t = ''string'' then
                             only_keys (annotations @ [''minLength'', ''maxLength'']) kws \<and>
                             opt_default 1 (Option.bind (map_of kws ''minLength'') as_u64) \<le> 10000 \<and>
                             opt_le (Some (opt_default 1 (Option.bind (map_of kws ''minLength'') as_u64)))
                               (Option.bind (map_of kws ''maxLength'') as_u64)
                           else if t = ''array'' then
                             only_keys (annotations @ [''minItems'', ''maxItems'', ''items'']) kws \<and>
                             opt_default 1 (Option.bind (map_of kws ''minItems'') as_u64) \<le> 100 \<and>
                             opt_le (Some (opt_default 1 (Option.bind (map_of kws ''minItems'') as_u64)))
                               (Option.bind (map_of kws ''maxItems'') as_u64) \<and>
                             (case map_of kws ''items'' of
                                Some t' \<Rightarrow> generable (d + 1) t'
                              | None \<Rightarrow> d < 32)
                           else if t = ''object'' then
                             only_keys (annotations @ [''properties'', ''required'', ''additionalProperties'']) kws \<and>
                             (case map_of kws ''properties'' of
                                Some (Object ps) \<Rightarrow>
                                  set (required_set s) \<subseteq> fst ` set ps \<and> distinct (map fst ps) \<and>
                                  (\<forall>kt\<in>set ps. generable (d + 1) (snd kt))
                              | Some _ \<Rightarrow> False
                              | None \<Rightarrow> required_set s = []) \<and>
                             (case map_of kws ''additionalProperties'' of
                                Some t' \<Rightarrow>
                                  t' = Bool False \<or>
                                  set extra_keys \<inter> fst ` set (properties_of kws) = {} \<and>
                                  (t' = Bool True \<or> generable (d + 1) t')
                              | None \<Rightarrow> True)
                           else False
                       | _ \<Rightarrow> False)))))
      | _ \<Rightarrow> False)"
  by pat_completeness auto

termination
  by (relation "measure (\<lambda>(_, s). size s)")
    (auto dest!: map_of_size array_elem_size object_elem_size simp del: json_size)

declare generable.simps [simp del]

section \<open>Generation succeeds and conforms\<close>

definition served :: "'g rng \<Rightarrow> nat \<Rightarrow> value \<Rightarrow> bool" where
  "served R d s \<longleftrightarrow> (\<forall>g. \<exists>v g'. generate_with_rng R s d g = Inr (v, g') \<and> conforms s v)"

lemma only_keys_None: "only_keys ks kws \<Longrightarrow> k \<notin> set ks \<Longrightarrow> map_of kws k = None"
  by (induction kws) (auto simp: only_keys_def)

lemma served_preset: "preset s = Some v \<Longrightarrow> conforms s v \<Longrightarrow> served R d s"
  by (simp add: served_def generate_with_rng.simps)

lemma served_enum:
  assumes "rng_ok R" "preset (Object kws) = None" "d \<le> 32"
    and "map_of kws ''oneOf'' = None" "map_of kws ''anyOf'' = None" "map_of kws ''allOf'' = None"
    and "map_of kws ''enum'' = Some (Array (e # es))" "\<forall>x\<in>set (e # es). conforms (Object kws) x"
  shows "served R d (Object kws)"
  unfolding served_def
proof
  fix g
  obtain i g1 where draw: "usize_below R (length (e # es)) g = (i, g1)" by force
  with assms(1) have i: "i < length (e # es)"
    unfolding rng_ok_def by (metis fst_conv length_greater_0_conv list.distinct(1))
  then have "conforms (Object kws) ((e # es) ! i)" using assms(8) nth_mem by blast
  moreover have "generate_with_rng R (Object kws) d g = Inr ((e # es) ! i, g1)"
    using draw i assms(2-7)
    by (subst generate_with_rng.simps) (simp add: variants_of_def del: nth_Cons')
  ultimately show "\<exists>v g'. generate_with_rng R (Object kws) d g = Inr (v, g') \<and> conforms (Object kws) v"
    by blast
qed

lemma served_const:
  assumes "preset (Object kws) = None" "d \<le> 32"
    and "map_of kws ''oneOf'' = None" "map_of kws ''anyOf'' = None" "map_of kws ''allOf'' = None"
    and "map_of kws ''enum'' = None" "map_of kws ''const'' = Some c" "conforms (Object kws) c"
  shows "served R d (Object kws)"
  using assms by (simp add: served_def generate_with_rng.simps [of R "Object kws"] variants_of_def)

lemma served_anyOf:
  assumes "rng_ok R" "preset (Object kws) = None" "d \<le> 32"
    and keys: "only_keys [''anyOf'', ''title'', ''description''] kws"
    and ss: "map_of kws ''anyOf'' = Some (Array ss)" "ss \<noteq> []" "\<forall>t\<in>set ss. served R (d + 1) t"
  shows "served R d (Object kws)"
  unfolding served_def
proof
  fix g
  note none = only_keys_None [OF keys]
  obtain i g1 where draw: "usize_below R (length ss) g = (i, g1)" by force
  with assms(1) ss(2) have i: "i < length ss"
    unfolding rng_ok_def by (metis fst_conv length_greater_0_conv)
  with ss(3) obtain v g2 where v: "generate_with_rng R (ss ! i) (d + 1) g1 = Inr (v, g2)"
    and c: "conforms (ss ! i) v" unfolding served_def by (meson nth_mem)
  have "variants_of (Object kws) = Some ss" "extract_discriminator (Object kws) = None"
    using ss(1,2) by (simp_all add: variants_of_def extract_discriminator_def none split: list.split)
  then have "generate_with_rng R (Object kws) d g = Inr (v, g2)"
    using draw i v assms(2,3) ss(2)
    by (subst generate_with_rng.simps) (simp add: variant_index_def set_discriminator_def)
  moreover have "\<exists>t\<in>set ss. conforms t v" using c i by (meson nth_mem)
  then have "conforms (Object kws) v"
    by (simp add: conforms.simps [of "Object kws"] ss(1) none bounds_ok_def required_set_def
        in_bounds_iff split: json_split option.split)
  ultimately show "\<exists>v g'. generate_with_rng R (Object kws) d g = Inr (v, g') \<and> conforms (Object kws) v"
    by blast
qed

text \<open>The synthetic values, by type. A type keyword leads past the variants, enumerations and constants.\<close>

lemma generate_by_type:
  assumes "preset (Object kws) = None" "d \<le> 32" "map_of kws ''type'' = Some (Str t)"
    and "map_of kws ''oneOf'' = None" "map_of kws ''anyOf'' = None" "map_of kws ''allOf'' = None"
    and "map_of kws ''enum'' = None" "map_of kws ''const'' = None"
  shows "t = ''object'' \<Longrightarrow> generate_with_rng R (Object kws) d g = generate_object R (Object kws) (d + 1) g"
    and "t = ''array'' \<Longrightarrow> generate_with_rng R (Object kws) d g = generate_array R (Object kws) (d + 1) g"
    and "t = ''integer'' \<Longrightarrow> generate_with_rng R (Object kws) d g = Inr (generate_integer R (Object kws) g)"
    and "t = ''boolean'' \<Longrightarrow> generate_with_rng R (Object kws) d g =
      (case random_bool R (1/2) g of (b, g1) \<Rightarrow> Inr (Bool b, g1))"
    and "t = ''null'' \<Longrightarrow> generate_with_rng R (Object kws) d g = Inr (Null, g)"
    and "t = ''string'' \<Longrightarrow> generate_with_rng R (Object kws) d g = Inr (generate_string R (Object kws) g)"
  using assms by (simp_all add: generate_with_rng.simps [of R "Object kws"] variants_of_def schema_type_def)

lemma length_random_letters: "length (fst (random_letters R n g)) = n"
  by (induction R n g rule: random_letters.induct) (auto split: prod.splits)

lemma as_i64_bound: "wf_value v \<Longrightarrow> as_i64 v = Some n \<Longrightarrow> - (2 ^ 63) \<le> n \<and> n < 2 ^ 63"
proof (cases v rule: as_i64.cases)
  case (1 k)
  assume "as_i64 v = Some n"
  with 1 have "n = int (unat k)" "unat k < 2 ^ 63"
    by (auto simp del: of_nat_unat split: if_splits)
  then have "0 \<le> n" "n < int (2 ^ 63)" by (simp_all only: of_nat_less_iff of_nat_0_le_iff)
  then show ?thesis by simp
qed auto

lemma as_i64_value_of_i64: "- (2 ^ 63) \<le> n \<Longrightarrow> n < 2 ^ 63 \<Longrightarrow> as_i64 (value_of_i64 n) = Some n"
  by (auto simp: value_of_i64_def unat_eq_nat_uint uint_word_of_int nat_less_iff)

lemma draw_i64: "rng_ok R \<Longrightarrow> a \<le> b \<Longrightarrow> i64_between R a b g = (n, g') \<Longrightarrow> a \<le> n \<and> n \<le> b"
  unfolding rng_ok_def by (metis fst_conv)

lemma draw_u64: "rng_ok R \<Longrightarrow> a \<le> b \<Longrightarrow> u64_between R a b g = (n, g') \<Longrightarrow> a \<le> n \<and> n \<le> b"
  unfolding rng_ok_def by (metis fst_conv)

lemma draw_u32: "rng_ok R \<Longrightarrow> a \<le> b \<Longrightarrow> u32_between R a b g = (n, g') \<Longrightarrow> a \<le> n \<and> n \<le> b"
  unfolding rng_ok_def by (metis fst_conv)

lemma generate_integer_conforms:
  assumes "rng_ok R" "wf_value (Object kws)" "map_of kws ''type'' = Some (Str ''integer'')"
    and keys: "only_keys (annotations @ [''minimum'', ''maximum'']) kws"
    and le: "opt_le (Some (opt_default 0 (Option.bind (map_of kws ''minimum'') as_i64)))
               (Option.bind (map_of kws ''maximum'') as_i64)"
  shows "conforms (Object kws) (fst (generate_integer R (Object kws) g))"
proof -
  define lo where "lo = opt_default 0 (Option.bind (map_of kws ''minimum'') as_i64)"
  define hi where "hi = opt_default (saturating_add_i64 lo 100) (Option.bind (map_of kws ''maximum'') as_i64)"
  obtain n g1 where draw: "i64_between R lo (max hi lo) g = (n, g1)" by force
  have wf: "- (2 ^ 63) \<le> x \<and> x < 2 ^ 63" if "Option.bind (map_of kws k) as_i64 = Some x" for k x
  proof -
    from that obtain y where "map_of kws k = Some y" "as_i64 y = Some x" by (auto simp: bind_eq_Some_conv)
    with wf_value_get [OF assms(2), of k y] as_i64_bound [of y x] show ?thesis by simp
  qed
  have lo: "- (2 ^ 63) \<le> lo" "lo < 2 ^ 63"
    using wf [of "''minimum''"] by (auto simp: lo_def opt_default_def split: option.split)
  have hi: "lo \<le> hi" "hi < 2 ^ 63"
    using wf [of "''maximum''"] le [folded lo_def] lo
    by (auto simp: hi_def opt_default_def opt_le_def saturating_add_i64_def split: option.split)
  have n: "lo \<le> n" "n \<le> hi" using draw_i64 [OF assms(1) _ draw] hi(1) by simp_all
  then have "as_i64 (value_of_i64 n) = Some n" using lo hi by (intro as_i64_value_of_i64) simp_all
  moreover have "generate_integer R (Object kws) g = (value_of_i64 n, g1)"
    using draw by (simp add: generate_integer_def Let_def lo_def hi_def)
  moreover obtain num where "value_of_i64 n = Number num" by (simp add: value_of_i64_def)
  moreover have "in_bounds (Option.bind (map_of kws ''minimum'') as_i64) (Option.bind (map_of kws ''maximum'') as_i64) n"
    using n by (auto simp: in_bounds_iff lo_def hi_def opt_default_def)
  ultimately show ?thesis
    using assms(3) only_keys_None [OF keys]
    by (simp add: conforms.simps [of "Object kws"] bounds_ok_def annotations_def)
qed

lemma generate_string_conforms:
  assumes "rng_ok R" "map_of kws ''type'' = Some (Str ''string'')"
    and keys: "only_keys (annotations @ [''minLength'', ''maxLength'']) kws"
    and cap: "opt_default 1 (Option.bind (map_of kws ''minLength'') as_u64) \<le> 10000"
    and le: "opt_le (Some (opt_default 1 (Option.bind (map_of kws ''minLength'') as_u64)))
               (Option.bind (map_of kws ''maxLength'') as_u64)"
  shows "conforms (Object kws) (fst (generate_string R (Object kws) g))"
proof -
  define lo where "lo = opt_default 1 (Option.bind (map_of kws ''minLength'') as_u64)"
  define hi where "hi = max (min (opt_default (lo + 8) (Option.bind (map_of kws ''maxLength'') as_u64)) 10000) lo"
  note none = only_keys_None [OF keys, unfolded annotations_def]
  have lo: "lo \<le> 10000" using cap by (simp add: lo_def)
  obtain n g1 where draw: "u64_between R lo hi g = (n, g1)" by force
  obtain s g2 where s: "random_letters R n g1 = (s, g2)" by force
  have n: "lo \<le> n" "n \<le> hi" using draw_u64 [OF assms(1) _ draw] by (simp_all add: hi_def)
  have "generate_string R (Object kws) g = (Str s, g2)"
    using draw s none lo by (simp add: generate_string_def Let_def lo_def hi_def min_def)
  moreover have "length s = n" using length_random_letters [of R n g1] s by simp
  moreover have "in_bounds (Option.bind (map_of kws ''minLength'') as_u64) (Option.bind (map_of kws ''maxLength'') as_u64) n"
    using n le lo by (auto simp: in_bounds_iff lo_def hi_def opt_default_def opt_le_def split: option.splits)
  ultimately show ?thesis
    using assms(2) none by (simp add: conforms.simps [of "Object kws"] bounds_ok_def)
qed

lemma generate_items_conform:
  "served R d s \<Longrightarrow> \<exists>vs g'. generate_items R s n d g = Inr (vs, g') \<and> length vs = n \<and> (\<forall>v\<in>set vs. conforms s v)"
proof (induction n arbitrary: g)
  case (Suc n)
  then obtain v g1 where "generate_with_rng R s d g = Inr (v, g1)" "conforms s v"
    unfolding served_def by blast
  with Suc.IH [OF Suc.prems, of g1] show ?case by auto
qed simp

lemma generate_array_conforms:
  assumes "rng_ok R" "map_of kws ''type'' = Some (Str ''array'')"
    and keys: "only_keys (annotations @ [''minItems'', ''maxItems'', ''items'']) kws"
    and cap: "opt_default 1 (Option.bind (map_of kws ''minItems'') as_u64) \<le> 100"
    and le: "opt_le (Some (opt_default 1 (Option.bind (map_of kws ''minItems'') as_u64)))
               (Option.bind (map_of kws ''maxItems'') as_u64)"
    and items: "served R d (opt_default (Object [(''type'', Str ''string'')]) (map_of kws ''items''))"
  shows "\<exists>v g'. generate_array R (Object kws) d g = Inr (v, g') \<and> conforms (Object kws) v"
proof -
  define lo where "lo = opt_default 1 (Option.bind (map_of kws ''minItems'') as_u64)"
  define hi where "hi = max (min (opt_default (lo + 2) (Option.bind (map_of kws ''maxItems'') as_u64)) 100) lo"
  define item where "item = opt_default (Object [(''type'', Str ''string'')]) (map_of kws ''items'')"
  note none = only_keys_None [OF keys, unfolded annotations_def]
  have lo: "lo \<le> 100" using cap by (simp add: lo_def)
  obtain n g1 where draw: "u64_between R lo hi g = (n, g1)" by force
  have n: "lo \<le> n" "n \<le> hi" using draw_u64 [OF assms(1) _ draw] by (simp_all add: hi_def)
  have "served R d item" using items by (simp add: item_def)
  from generate_items_conform [OF this, of n g1] obtain vs g2 where
    vs: "generate_items R item n d g1 = Inr (vs, g2)" "length vs = n" "\<forall>v\<in>set vs. conforms item v" by blast
  have "item \<noteq> Bool False"
  proof
    assume "item = Bool False"
    with items show False by (auto simp: item_def [symmetric] served_def conforms.simps)
  qed
  moreover have "array_bounds (Object kws) = (lo, hi)"
    using lo by (simp add: array_bounds_def Let_def lo_def hi_def min_def)
  ultimately have "generate_array R (Object kws) d g = Inr (Array vs, g2)"
    using draw vs(1) by (simp add: generate_array.simps item_def)
  moreover have "in_bounds (Option.bind (map_of kws ''minItems'') as_u64) (Option.bind (map_of kws ''maxItems'') as_u64) n"
    using n le lo by (auto simp: in_bounds_iff lo_def hi_def opt_default_def opt_le_def split: option.splits)
  then have "conforms (Object kws) (Array vs)"
    using assms(2) none vs(2,3)
    by (simp add: conforms.simps [of "Object kws"] bounds_ok_def item_def opt_default_def split: option.splits)
  ultimately show ?thesis by blast
qed

lemma generate_properties_conform:
  assumes "\<forall>kt\<in>set ps. served R d (snd kt)" "distinct (map fst ps)"
    and "fst ` set ps \<inter> dom (map_of obj) = {}"
  shows "\<exists>obj' g'. generate_properties R req ps d obj g = Inr (obj', g') \<and>
    dom (map_of obj') \<subseteq> dom (map_of obj) \<union> fst ` set ps \<and>
    dom (map_of obj) \<union> (set req \<inter> fst ` set ps) \<subseteq> dom (map_of obj') \<and>
    (\<forall>kt\<in>set ps. \<forall>w. map_of obj' (fst kt) = Some w \<longrightarrow> conforms (snd kt) w) \<and>
    (\<forall>k. k \<notin> fst ` set ps \<longrightarrow> map_of obj' k = map_of obj k)"
  using assms
proof (induction ps arbitrary: obj g)
  case (Cons kt ps)
  obtain k t where kt: "kt = (k, t)" by force
  obtain b g1 where b: "(if k \<in> set req then (True, g) else random_bool R (35/100) g) = (b, g1)" by force
  show ?case
  proof (cases b)
    case True
    obtain v g2 where v: "generate_with_rng R t d g1 = Inr (v, g2)" "conforms t v"
      using Cons.prems(1) kt unfolding served_def by fastforce
    have disj: "fst ` set ps \<inter> dom (map_of (bt_insert k v obj)) = {}"
      using Cons.prems(2,3) kt by auto
    have "\<forall>kt\<in>set ps. served R d (snd kt)" "distinct (map fst ps)" using Cons.prems(1,2) by simp_all
    from Cons.IH [OF this disj, of g2] obtain obj' g' where r: "generate_properties R req ps d (bt_insert k v obj) g2 = Inr (obj', g')"
      "dom (map_of obj') \<subseteq> dom (map_of (bt_insert k v obj)) \<union> fst ` set ps"
      "dom (map_of (bt_insert k v obj)) \<union> (set req \<inter> fst ` set ps) \<subseteq> dom (map_of obj')"
      "\<forall>kt\<in>set ps. \<forall>w. map_of obj' (fst kt) = Some w \<longrightarrow> conforms (snd kt) w"
      "\<forall>k'. k' \<notin> fst ` set ps \<longrightarrow> map_of obj' k' = map_of (bt_insert k v obj) k'"
      by blast
    have k: "k \<notin> fst ` set ps" using Cons.prems(2) kt by auto
    with r(5) have "map_of obj' k = Some v" by simp
    with r k v(2) b True show ?thesis
      by (intro exI [of _ obj'] exI [of _ g']) (auto simp: kt v(1))
  next
    case False
    from Cons.IH [of obj g1] Cons.prems kt
    obtain obj' g' where r: "generate_properties R req ps d obj g1 = Inr (obj', g')"
      "dom (map_of obj') \<subseteq> dom (map_of obj) \<union> fst ` set ps"
      "dom (map_of obj) \<union> (set req \<inter> fst ` set ps) \<subseteq> dom (map_of obj')"
      "\<forall>kt\<in>set ps. \<forall>w. map_of obj' (fst kt) = Some w \<longrightarrow> conforms (snd kt) w"
      "\<forall>k'. k' \<notin> fst ` set ps \<longrightarrow> map_of obj' k' = map_of obj k'"
      by auto
    have "k \<notin> fst ` set ps" "map_of obj k = None" "k \<notin> set req"
      using Cons.prems(2,3) kt b False by (auto split: if_splits)
    with r b False show ?thesis
      by (intro exI [of _ obj'] exI [of _ g']) (auto simp: kt)
  qed
qed (simp add: dom_def)

lemma generate_extras_conform:
  "served R d t \<Longrightarrow> \<exists>obj' g'. generate_extras R t is d obj g = Inr (obj', g') \<and>
     (\<forall>k. map_of obj' k = map_of obj k \<or>
        k \<in> (\<lambda>i. ''extra_'' @ nat_to_string i) ` set is \<and> (\<exists>w. map_of obj' k = Some w \<and> conforms t w))"
proof (induction "is" arbitrary: obj g)
  case (Cons i "is")
  then obtain v g1 where v: "generate_with_rng R t d g = Inr (v, g1)" "conforms t v"
    unfolding served_def by blast
  let ?k = "''extra_'' @ nat_to_string i"
  from Cons.IH [OF Cons.prems, of "bt_insert ?k v obj" g1] obtain obj' g' where
    r: "generate_extras R t is d (bt_insert ?k v obj) g1 = Inr (obj', g')"
      "\<forall>k. map_of obj' k = map_of (bt_insert ?k v obj) k \<or>
        k \<in> (\<lambda>i. ''extra_'' @ nat_to_string i) ` set is \<and> (\<exists>w. map_of obj' k = Some w \<and> conforms t w)"
    by blast
  then show ?case using v
    by (intro exI [of _ obj'] exI [of _ g']) (auto split: if_splits)
qed simp

lemma dom_map_of_subset: "set ks \<subseteq> dom (map_of m) \<Longrightarrow> set ks \<subseteq> fst ` set m"
  by (simp add: dom_map_of_conv_image_fst)

lemma object_conforms:
  assumes "map_of kws ''type'' = Some (Str ''object'')"
    and keys: "only_keys (annotations @ [''properties'', ''required'', ''additionalProperties'']) kws"
    and "map_of kws ''properties'' \<in> {None, Some (Object (properties_of kws))}"
    and "set (required_set (Object kws)) \<subseteq> dom (map_of obj)"
    and "\<forall>kt\<in>set (properties_of kws). \<forall>w. map_of obj (fst kt) = Some w \<longrightarrow> conforms (snd kt) w"
    and "\<And>t k w. map_of kws ''additionalProperties'' = Some t \<Longrightarrow> map_of obj k = Some w \<Longrightarrow>
      k \<in> fst ` set (properties_of kws) \<or> conforms t w"
  shows "conforms (Object kws) (Object obj)"
proof -
  note none = only_keys_None [OF keys, unfolded annotations_def]
  have "properties_of kws = []" if "map_of kws ''properties'' = None"
    using that by (simp add: properties_of_def opt_default_def)
  then show ?thesis
    using assms(1,3,4,5,6) none
    by (auto simp: conforms.simps [of "Object kws"] bounds_ok_def dom_map_of_conv_image_fst
        case_option_all split: option.split json_split) blast
qed

lemma nat_to_string_01: "nat_to_string 0 = ''0''" "nat_to_string 1 = ''1''"
  by code_simp+

text \<open>What the declared properties contribute: the required ones are there, and all conform.\<close>

definition filled :: "(string \<times> value) list \<Rightarrow> (string \<times> value) list \<Rightarrow> bool" where
  "filled kws obj \<longleftrightarrow>
     dom (map_of obj) \<subseteq> fst ` set (properties_of kws) \<and> set (required_set (Object kws)) \<subseteq> dom (map_of obj) \<and>
     (\<forall>kt\<in>set (properties_of kws). \<forall>w. map_of obj (fst kt) = Some w \<longrightarrow> conforms (snd kt) w)"

text \<open>The keywords of an object schema that the specification covers.\<close>

definition object_keywords :: "(string \<times> value) list \<Rightarrow> bool" where
  "object_keywords kws \<longleftrightarrow>
     map_of kws ''type'' = Some (Str ''object'') \<and>
     only_keys (annotations @ [''properties'', ''required'', ''additionalProperties'']) kws \<and>
     map_of kws ''properties'' \<in> {None, Some (Object (properties_of kws))}"

lemma filled_conforms:
  assumes "object_keywords kws" and "filled kws obj"
  shows "conforms (Object kws) (Object obj)"
  using assms by (intro object_conforms) (auto simp: object_keywords_def filled_def)

lemma filled_extra_true:
  assumes kws: "object_keywords kws" "map_of kws ''additionalProperties'' = Some (Bool True)"
    and obj: "filled kws obj" and fresh: "k \<notin> fst ` set (properties_of kws)"
  shows "conforms (Object kws) (Object (bt_insert k v obj))"
proof -
  have "fst kt \<noteq> k" if "kt \<in> set (properties_of kws)" for kt using fresh that by (metis image_eqI)
  with kws obj show ?thesis
    by (intro object_conforms) (auto simp: object_keywords_def filled_def conforms.simps [of "Bool True"])
qed

lemma filled_extra_schema:
  assumes kws: "object_keywords kws" "map_of kws ''additionalProperties'' = Some t"
    and obj: "filled kws obj" and fresh: "extras \<inter> fst ` set (properties_of kws) = {}"
    and added: "\<forall>k. map_of obj' k = map_of obj k \<or> k \<in> extras \<and> (\<exists>w. map_of obj' k = Some w \<and> conforms t w)"
  shows "conforms (Object kws) (Object obj')"
proof (rule object_conforms)
  have "k \<in> dom (map_of obj')" if "k \<in> dom (map_of obj)" for k
    using that added [rule_format, of k] by auto
  then show "set (required_set (Object kws)) \<subseteq> dom (map_of obj')" using obj unfolding filled_def by blast
  have "map_of obj' (fst kt) = map_of obj (fst kt)" if "kt \<in> set (properties_of kws)" for kt
    using added [rule_format, of "fst kt"] fresh that by blast
  then show "\<forall>kt\<in>set (properties_of kws). \<forall>w. map_of obj' (fst kt) = Some w \<longrightarrow> conforms (snd kt) w"
    using obj by (simp add: filled_def)
  show "k \<in> fst ` set (properties_of kws) \<or> conforms t' w"
    if "map_of kws ''additionalProperties'' = Some t'" "map_of obj' k = Some w" for t' k w
    using that kws(2) added obj unfolding filled_def by (metis domI option.inject subsetD)
qed (use kws in \<open>simp_all add: object_keywords_def\<close>)

text \<open>At most two extra members are named, and both names are reserved.\<close>

lemma extra_names:
  assumes "n \<le> 2"
  shows "(\<lambda>i. ''extra_'' @ nat_to_string i) ` {0..<n} \<subseteq> set extra_keys"
proof -
  have "(\<lambda>i. ''extra_'' @ nat_to_string i) ` {0..<n} \<subseteq> (\<lambda>i. ''extra_'' @ nat_to_string i) ` {0, 1}"
    using assms by (intro image_mono) auto
  then show ?thesis
    by (simp only: image_insert image_empty nat_to_string_01 append.simps extra_keys_def list.set)
qed

lemma generate_object_conforms:
  assumes "rng_ok R" and kws: "object_keywords kws"
    and props: "set (required_set (Object kws)) \<subseteq> fst ` set (properties_of kws)" "distinct (map fst (properties_of kws))"
      "\<forall>kt\<in>set (properties_of kws). served R d (snd kt)"
    and extra: "\<And>t. map_of kws ''additionalProperties'' = Some t \<Longrightarrow> t = Bool False \<or>
      set extra_keys \<inter> fst ` set (properties_of kws) = {} \<and> (t = Bool True \<or> is_object t \<and> served R d t)"
  shows "\<exists>v g'. generate_object R (Object kws) d g = Inr (v, g') \<and> conforms (Object kws) v"
proof -
  let ?ps = "properties_of kws"
  from generate_properties_conform [OF props(3,2), of "[]" "required_set (Object kws)" g]
  obtain obj g1 where o: "generate_properties R (required_set (Object kws)) ?ps d [] g = Inr (obj, g1)"
    and obj: "filled kws obj"
    using props(1) by (auto simp: Int_absorb2 filled_def)
  have gen: "generate_object R (Object kws) d g =
      (case map_of kws ''additionalProperties'' of
         Some (Bool True) \<Rightarrow> Inr (Object (bt_insert ''extra_0'' (Str ''mock-extra'') obj), g1)
       | Some (Object m) \<Rightarrow>
           (case u32_between R 1 2 g1 of (n, g2) \<Rightarrow>
              (case generate_extras R (Object m) [0..<n] d obj g2 of
                 Inl e \<Rightarrow> Inl e
               | Inr (obj', g3) \<Rightarrow> Inr (Object obj', g3)))
       | _ \<Rightarrow> Inr (Object obj, g1))"
    using o by (simp add: generate_object.simps properties_of_def)
  show ?thesis
  proof (cases "map_of kws ''additionalProperties''")
    case None
    with gen filled_conforms [OF kws obj] show ?thesis by simp
  next
    case (Some t)
    consider "t = Bool False" | "t = Bool True" "''extra_0'' \<notin> fst ` set ?ps"
      | m where "t = Object m" "served R d t" "set extra_keys \<inter> fst ` set ?ps = {}"
      using extra [OF Some] by (auto simp: extra_keys_def is_object_def split: json_splits)
    then show ?thesis
    proof cases
      case 1
      with gen filled_conforms [OF kws obj] Some show ?thesis by simp
    next
      case 2
      with gen Some filled_extra_true [OF kws _ obj 2(2)] show ?thesis by simp
    next
      case 3
      obtain n g2 where n: "u32_between R 1 2 g1 = (n, g2)" by force
      from generate_extras_conform [OF 3(2), of "[0..<n]" obj g2] obtain obj' g3 where
        x: "generate_extras R t [0..<n] d obj g2 = Inr (obj', g3)"
        "\<forall>k. map_of obj' k = map_of obj k \<or> k \<in> (\<lambda>i. ''extra_'' @ nat_to_string i) ` {0..<n} \<and>
          (\<exists>w. map_of obj' k = Some w \<and> conforms t w)" by auto
      have "n \<le> 2" using draw_u32 [OF assms(1) _ n] by simp
      from extra_names [OF this]
      have "(\<lambda>i. ''extra_'' @ nat_to_string i) ` {0..<n} \<inter> fst ` set ?ps = {}" using 3(3) by blast
      from filled_extra_schema [OF kws Some obj this x(2)] show ?thesis
        using gen Some 3(1) n x(1) by simp
    qed
  qed
qed

lemma only_keys_preset:
  assumes "only_keys ks kws" "set ks \<inter> {''example'', ''examples'', ''default''} = {}"
  shows "preset (Object kws) = None"
  using only_keys_None [OF assms(1)] assms(2) by (simp add: preset_def)

lemma default_items_served:
  assumes "rng_ok R" "d \<le> 32"
  shows "served R d (Object [(''type'', Str ''string'')])"
proof -
  let ?kws = "[(''type'', Str ''string'')]"
  have "conforms (Object ?kws) (fst (generate_string R (Object ?kws) g))" for g
    using assms(1)
    by (rule generate_string_conforms) (simp_all add: only_keys_def annotations_def opt_default_def opt_le_def)
  moreover have "generate_with_rng R (Object ?kws) d g = Inr (generate_string R (Object ?kws) g)" for g
    using assms(2) by (intro generate_by_type) (simp_all add: preset_def)
  ultimately show ?thesis unfolding served_def by (metis prod.collapse)
qed

lemma generable_Object: "generable d s \<Longrightarrow> is_object s"
  by (cases s) (simp_all add: generable.simps is_object_def)

text \<open>Null and booleans, and the properties of an object, for the main lemma.\<close>

lemma conforms_scalar:
  assumes "only_keys annotations kws" and "map_of kws ''type'' = Some (Str t)"
  shows "t = ''null'' \<Longrightarrow> conforms (Object kws) Null" and "t = ''boolean'' \<Longrightarrow> conforms (Object kws) (Bool b)"
  using only_keys_None [OF assms(1), unfolded annotations_def] assms(2)
  by (simp_all add: conforms.simps [of "Object kws"] bounds_ok_def)

lemma properties_served:
  assumes "map_of kws ''properties'' \<in> {None, Some (Object (properties_of kws))}"
    and inner: "\<And>ps kt. map_of kws ''properties'' = Some (Object ps) \<Longrightarrow> kt \<in> set ps \<Longrightarrow> generable d (snd kt)"
    and IH: "\<And>d t. size t < size (Object kws) \<Longrightarrow> generable d t \<Longrightarrow> served R d t"
  shows "\<forall>kt\<in>set (properties_of kws). served R d (snd kt)"
proof
  fix kt
  assume "kt \<in> set (properties_of kws)"
  then obtain ps where ps: "map_of kws ''properties'' = Some (Object ps)" "kt \<in> set ps"
    using assms(1) by (auto simp: properties_of_def opt_default_def split: option.splits)
  have "size (snd kt) < size (Object kws)"
    using object_elem_size [OF ps(2)] map_of_size [OF ps(1)] by (rule less_trans)
  then show "served R d (snd kt)" using inner [OF ps] by (rule IH)
qed

text \<open>The typed cases of the main lemma, given that the schemas inside are served.\<close>

lemma served_typed:
  assumes R: "rng_ok R" and g: "generable d (Object kws)" and p: "preset (Object kws) = None"
    and none: "map_of kws ''anyOf'' = None" "map_of kws ''enum'' = None" "map_of kws ''const'' = None"
    and IH: "\<And>d t. size t < size (Object kws) \<Longrightarrow> generable d t \<Longrightarrow> served R d t"
  shows "served R d (Object kws)"
proof -
  from g p none obtain t where t: "map_of kws ''type'' = Some (Str t)" and d: "d \<le> 32"
    and no: "map_of kws ''oneOf'' = None" "map_of kws ''allOf'' = None"
    by (subst (asm) generable.simps) (auto split: option.splits json_splits)
  note by_type = generate_by_type [OF p d t no(1) none(1) no(2) none(2,3), where R = R]
  note gen = g [unfolded generable.simps [of d "Object kws"], simplified p none no t json_case option.case]
  consider "t = ''null'' \<or> t = ''boolean''" | "t = ''integer''" | "t = ''string''" | "t = ''array''" | "t = ''object''"
    using gen by (auto split: if_splits)
  then show ?thesis
  proof cases
    case 1
    then have keys: "only_keys annotations kws" using gen by auto
    note c = conforms_scalar [OF keys t]
    from 1 show ?thesis
    proof
      assume "t = ''null''"
      with by_type(5) c(1) show ?thesis by (simp add: served_def)
    next
      assume b: "t = ''boolean''"
      show ?thesis
        unfolding served_def by_type(4) [OF b] using c(2) [OF b] by (auto split: prod.split)
    qed
  next
    case 2
    with gen generate_integer_conforms [OF R, of kws] t show ?thesis
      unfolding served_def by (simp add: by_type(3)) (metis prod.collapse)
  next
    case 3
    with gen generate_string_conforms [OF R, of kws] t show ?thesis
      unfolding served_def by (simp add: by_type(6)) (metis prod.collapse)
  next
    case 4
    have "served R (d + 1) (opt_default (Object [(''type'', Str ''string'')]) (map_of kws ''items''))"
      using gen 4 IH map_of_size default_items_served [OF R, of "d + 1"]
      by (auto simp: opt_default_def split: option.splits simp del: json_size)
    with gen 4 generate_array_conforms [OF R, of kws "d + 1"] t show ?thesis
      unfolding served_def by (simp add: by_type(2))
  next
    case 5
    let ?ps = "properties_of kws"
    have props: "map_of kws ''properties'' \<in> {None, Some (Object ?ps)}"
      "set (required_set (Object kws)) \<subseteq> fst ` set ?ps" "distinct (map fst ?ps)"
      using gen 5 by (auto simp: properties_of_def opt_default_def split: option.splits json_splits)
    then have kws: "object_keywords kws" using gen 5 t by (simp add: object_keywords_def)
    have "\<forall>kt\<in>set ?ps. served R (d + 1) (snd kt)"
      using gen 5 by (intro properties_served [OF props(1) _ IH]) simp_all
    moreover have "t' = Bool False \<or> set extra_keys \<inter> fst ` set ?ps = {} \<and>
        (t' = Bool True \<or> is_object t' \<and> served R (d + 1) t')"
      if "map_of kws ''additionalProperties'' = Some t'" for t'
      using gen 5 that IH [OF map_of_size [OF that]] generable_Object by auto
    ultimately show ?thesis
      using generate_object_conforms [OF R kws props(2,3), of "d + 1"] t 5
      unfolding served_def by (simp add: by_type(1))
  qed
qed

lemma generable_served: "rng_ok R \<Longrightarrow> generable d s \<Longrightarrow> served R d s"
proof (induction "size s" arbitrary: d s rule: less_induct)
  case less
  obtain kws where s: "s = Object kws"
    using generable_Object [OF less.prems(2)] by (auto simp: is_object_def split: json_splits)
  show ?case
  proof (cases "preset s")
    case (Some v)
    with less.prems(2) have "conforms s v" by (simp add: generable.simps [of d "Object kws"] s)
    with Some show ?thesis by (rule served_preset)
  next
    case None
    note gen = less.prems(2) [unfolded generable.simps [of d s], simplified s None [unfolded s] json_case option.case]
    consider ss where "map_of kws ''anyOf'' = Some (Array ss)"
      | es where "map_of kws ''anyOf'' = None" "map_of kws ''enum'' = Some (Array es)"
      | c where "map_of kws ''anyOf'' = None" "map_of kws ''enum'' = None" "map_of kws ''const'' = Some c"
      | "map_of kws ''anyOf'' = None" "map_of kws ''enum'' = None" "map_of kws ''const'' = None"
      using gen by (auto split: option.splits json_splits)
    then show ?thesis
    proof cases
      case (1 ss)
      have "served R (d + 1) t" if "t \<in> set ss" for t
      proof (rule less.hyps [OF _ less.prems(1)])
        show "size t < size s"
          using array_elem_size [OF that] map_of_size [OF 1] unfolding s by (rule less_trans)
        show "generable (d + 1) t" using gen 1 that by simp
      qed
      with gen 1 None less.prems(1) show ?thesis unfolding s by (intro served_anyOf) auto
    next
      case (2 es)
      then obtain x xs where "es = x # xs" using gen by (cases es) auto
      with gen 2 None less.prems(1) show ?thesis unfolding s by (intro served_enum) auto
    next
      case (3 c)
      with gen None less.prems(1) show ?thesis unfolding s by (intro served_const) auto
    next
      case 4
      show ?thesis
        unfolding s using 4 None less.prems less.hyps unfolding s by (intro served_typed) auto
    qed
  qed
qed

section \<open>Properties\<close>

text \<open>
  A generator for the witnesses: a counter, every draw the lower end of its range.
\<close>

definition low_rng :: "nat rng" where
  "low_rng = \<lparr>seed_from_u64 = unat, usize_below = (\<lambda>n g. (0, g)), usize_between = (\<lambda>a b g. (a, g)),
     u8_between = (\<lambda>a b g. (a, g)), u32_between = (\<lambda>a b g. (a, g)), u64_between = (\<lambda>a b g. (a, g)),
     i64_between = (\<lambda>a b g. (a, g)), f64_between = (\<lambda>a b g. Some (a, g)),
     random_bool = (\<lambda>p g. (False, g)), regex_sample = (\<lambda>p n g. None)\<rparr>"

lemma low_rng_ok: "rng_ok low_rng"
  by (simp add: rng_ok_def low_rng_def)


definition demo_schema :: "value" where
  "demo_schema = Object [(''properties'', Object [(''id'', Object [(''maximum'', Number (PosInt 9)), (''type'', Str ''integer'')])]),
     (''required'', Array [Str ''id'']), (''type'', Str ''object'')]"


lemma generate_items_length: "generate_items R s n d g = Inr (vs, g') \<Longrightarrow> length vs = n"
  by (induction n arbitrary: g vs g') (auto split: sum.splits)

text \<open>
  The size of what is synthesised is bounded whatever the schema asks for: an array has at
  most 100 items, and a string without \<open>format\<close> or \<open>pattern\<close> at most 10000 bytes.
\<close>

theorem generated_sizes_bounded:
  assumes "rng_ok R"
  shows "(\<forall>v g'. generate_array R schema d g = Inr (v, g') \<longrightarrow> (\<exists>xs. v = Array xs \<and> length xs \<le> 100)) \<and>
    (get schema ''format'' = None \<and> get schema ''pattern'' = None \<longrightarrow>
      (\<exists>x. fst (generate_string R schema g) = Str x \<and> length x \<le> 10000))"
proof (intro conjI allI impI)
  fix v g'
  assume r: "generate_array R schema d g = Inr (v, g')"
  obtain lo hi where b: "array_bounds schema = (lo, hi)" by force
  then have "lo \<le> hi" "hi \<le> 100" by (auto simp: array_bounds_def Let_def)
  moreover obtain n g1 where "u64_between R lo hi g = (n, g1)" by force
  moreover have "n \<le> hi" using draw_u64 [OF assms calculation(1,3)] by simp
  ultimately show "\<exists>xs. v = Array xs \<and> length xs \<le> 100"
    using r b by (auto simp: generate_array.simps Let_def dest: generate_items_length split: if_splits sum.splits)
next
  assume none: "get schema ''format'' = None \<and> get schema ''pattern'' = None"
  define lo where "lo = min (opt_default 1 (Option.bind (get schema ''minLength'') as_u64)) 10000"
  define hi where "hi = max (min (opt_default (lo + 8) (Option.bind (get schema ''maxLength'') as_u64)) 10000) lo"
  obtain n g1 where draw: "u64_between R lo hi g = (n, g1)" by force
  obtain x g2 where x: "random_letters R n g1 = (x, g2)" by force
  have "hi \<le> 10000" "n \<le> hi" using draw_u64 [OF assms _ draw] by (auto simp: hi_def lo_def)
  moreover have "length x = n" using length_random_letters [of R n g1] x by simp
  ultimately show "\<exists>x. fst (generate_string R schema g) = Str x \<and> length x \<le> 10000"
    using none draw x by (simp add: generate_string_def Let_def lo_def hi_def)
qed

definition long_array :: "value" where
  "long_array = Object [(''items'', Object [(''const'', Null)]), (''minItems'', Number (PosInt 5000))]"

theorem generated_sizes_bounded_witness:
  "\<exists>xs. generate_array low_rng long_array 0 0 = Inr (Array xs, 0) \<and> length xs \<le> 100"
proof -
  have "map_sum (\<lambda>_. ()) snd (generate_array low_rng long_array 0 0) = Inr 0" by code_simp
  then obtain v where v: "generate_array low_rng long_array 0 0 = Inr (v, 0)"
    by (cases "generate_array low_rng long_array 0 0") auto
  with generated_sizes_bounded [OF low_rng_ok, of long_array 0 0] show ?thesis by blast
qed

text \<open>
  C34. Four kinds of schema for which the generated value never conforms, whatever is drawn: an
  integer with only a negative \<open>maximum\<close>, an array with only \<open>maxItems: 0\<close>, a string with only
  \<open>maxLength: 0\<close> (the default lower bound wins over the stated upper bound), and an object with a
  required property that is not listed under \<open>properties\<close>.
\<close>

definition unmet_schemas :: "value list" where
  "unmet_schemas =
     [Object [(''maximum'', Number (NegInt (-5))), (''type'', Str ''integer'')],
      Object [(''maxItems'', Number (PosInt 0)), (''type'', Str ''array'')],
      Object [(''maxLength'', Number (PosInt 0)), (''type'', Str ''string'')],
      Object [(''required'', Array [Str ''id'']), (''type'', Str ''object'')]]"

lemma unmet_integer:
  assumes "rng_ok R"
  shows "\<exists>v. generate_json_value R (unmet_schemas ! 0) s = Inr v \<and> \<not> conforms (unmet_schemas ! 0) v"
proof -
  obtain n g where n: "i64_between R 0 0 (seed_from_u64 R s) = (n, g)" by force
  with draw_i64 [OF assms _ n] have "n = 0" by simp
  moreover have "generate_json_value R (unmet_schemas ! 0) s = Inr (value_of_i64 n)"
    using n by (simp add: unmet_schemas_def generate_json_value_def generate_with_rng.simps preset_def
        variants_of_def schema_type_def generate_integer_def opt_default_def saturating_add_i64_def Let_def)
  moreover have "\<not> conforms (unmet_schemas ! 0) (value_of_i64 0)" by code_simp
  ultimately show ?thesis by simp
qed

lemma unmet_array:
  assumes "rng_ok R"
  shows "\<exists>v. generate_json_value R (unmet_schemas ! 1) s = Inr v \<and> \<not> conforms (unmet_schemas ! 1) v"
proof -
  obtain n g where n: "u64_between R 1 1 (seed_from_u64 R s) = (n, g)" by force
  with draw_u64 [OF assms _ n] have "n = 1" by simp
  moreover obtain vs g' where
    "generate_items R (Object [(''type'', Str ''string'')]) 1 1 g = Inr (vs, g')" "length vs = 1"
    using generate_items_conform [OF default_items_served [OF assms, of 1], of 1 g] by auto
  ultimately have "generate_json_value R (unmet_schemas ! 1) s = Inr (Array vs)"
    using n by (simp add: unmet_schemas_def generate_json_value_def generate_with_rng.simps [of R "Object _" 0]
        preset_def variants_of_def schema_type_def generate_array.simps array_bounds_def opt_default_def Let_def)
  moreover have "\<not> conforms (unmet_schemas ! 1) (Array vs)"
    using \<open>length vs = 1\<close> by (simp add: unmet_schemas_def conforms.simps [of "Object _"] bounds_ok_def in_bounds_def)
  ultimately show ?thesis by blast
qed

lemma unmet_string:
  assumes "rng_ok R"
  shows "\<exists>v. generate_json_value R (unmet_schemas ! 2) s = Inr v \<and> \<not> conforms (unmet_schemas ! 2) v"
proof -
  obtain n g where n: "u64_between R 1 1 (seed_from_u64 R s) = (n, g)" by force
  with draw_u64 [OF assms _ n] have "n = 1" by simp
  obtain x g' where x: "random_letters R n g = (x, g')" by force
  then have "length x = n" using length_random_letters [of R n g] by simp
  moreover have "generate_json_value R (unmet_schemas ! 2) s = Inr (Str x)"
    using n x by (simp add: unmet_schemas_def generate_json_value_def generate_with_rng.simps
        preset_def variants_of_def schema_type_def generate_string_def opt_default_def Let_def)
  ultimately show ?thesis
    using \<open>n = 1\<close> by (simp add: unmet_schemas_def conforms.simps [of "Object _"] bounds_ok_def in_bounds_def)
qed

lemma unmet_object:
  "\<exists>v. generate_json_value R (unmet_schemas ! 3) s = Inr v \<and> \<not> conforms (unmet_schemas ! 3) v"
proof -
  have "generate_json_value R (unmet_schemas ! 3) s = Inr (Object [])"
    by (simp add: unmet_schemas_def generate_json_value_def generate_with_rng.simps
        preset_def variants_of_def schema_type_def generate_object.simps opt_default_def Let_def)
  moreover have "\<not> conforms (unmet_schemas ! 3) (Object [])" by code_simp
  ultimately show ?thesis by simp
qed



text \<open>
  The discriminator and the payload can disagree: with a mapping that names the first and the
  third variant, a draw may fall on the second, which the mapping does not name; the payload is
  then that variant's and the discriminator property holds the first mapped name.
\<close>

definition pet_schema :: "value" where
  "pet_schema = Object
     [(''discriminator'', Object [(''mapping'', Object [(''cat'', Str ''#/S/Cat''), (''dog'', Str ''#/S/Dog'')]),
         (''propertyName'', Str ''kind'')]),
      (''oneOf'', Array
        [Object [(''const'', Object [(''lives'', Number (PosInt 9))]), (''title'', Str ''Cat'')],
         Object [(''const'', Object [(''wings'', Number (PosInt 2))]), (''title'', Str ''Bird'')],
         Object [(''const'', Object [(''tail'', Bool True)]), (''title'', Str ''Dog'')]])]"

definition middle_rng :: "nat rng" where
  "middle_rng = low_rng\<lparr>usize_between := (\<lambda>a b g. ((a + b) div 2, g))\<rparr>"

lemma discriminator_mismatch:
  "\<exists>R :: nat rng. rng_ok R \<and> generate_json_value R pet_schema 0 =
     Inr (Object [(''kind'', Str ''cat''), (''wings'', Number (PosInt 2))])"
proof -
  have "rng_ok middle_rng" by (auto simp: rng_ok_def middle_rng_def low_rng_def)
  moreover have "generate_json_value middle_rng pet_schema 0 =
     Inr (Object [(''kind'', Str ''cat''), (''wings'', Number (PosInt 2))])" by code_simp
  ultimately show ?thesis by blast
qed

end
