(* ===== verification/Runtime_Base.thy ===== *)
theory Runtime_Base
  imports Faker
begin

text \<open>
  What the protocol runtimes share from \<open>specmock-runtime/src/lib.rs\<close>: the runtime error and the
  deterministic hash that derives seeds.
\<close>

text \<open>
  The last constructor is not an error value of the source: it is the unwinding of a task in which
  the random-number library panics.
\<close>

datatype runtime_error =
    ConfigError string
  | IoError string
  | ParseError string
  | NotFoundError string
  | NotAcceptableError string
  | TaskPanic

definition runtime_error_display :: "runtime_error \<Rightarrow> string" where
  "runtime_error_display e =
     (case e of
        ConfigError m \<Rightarrow> ''invalid configuration: '' @ m
      | IoError m \<Rightarrow> ''io error: '' @ m
      | ParseError m \<Rightarrow> ''parse error: '' @ m
      | NotFoundError m \<Rightarrow> ''not found: '' @ m
      | NotAcceptableError m \<Rightarrow> ''not acceptable: '' @ m
      | TaskPanic \<Rightarrow> [])"

definition FOLD_HASH_MULTIPLIER :: u64 where
  "FOLD_HASH_MULTIPLIER = 131"

definition deterministic_hash :: "u64 \<Rightarrow> string \<Rightarrow> u64" where
  "deterministic_hash s input =
     xor s (foldl (\<lambda>acc c. acc * FOLD_HASH_MULTIPLIER + of_char c) 0 input)"

text \<open>
  Data generation as the runtimes call it: \<open>generate_json_value\<close> for a fixed random-number library,
  with its failures turned into runtime errors.
\<close>

type_synonym generator = "value \<Rightarrow> u64 \<Rightarrow> faker_failure + value"

definition generated :: "generator \<Rightarrow> value \<Rightarrow> u64 \<Rightarrow> runtime_error + value" where
  "generated gen schema s =
     (case gen schema s of
        Inr v \<Rightarrow> Inr v
      | Inl (Failed e) \<Rightarrow> Inl (ParseError (core_error_display e))
      | Inl Panicked \<Rightarrow> Inl TaskPanic)"

end
