(* ===== verification/Ref_Resolver.thy ===== *)
theory Ref_Resolver
  imports Errors
begin

text \<open>
  The \<open>$ref\<close> resolver of \<open>specmock-core/src/ref_resolver.rs\<close>: local JSON pointers and
  file-relative references, inlined recursively under a depth limit, with a bounded FIFO cache of
  external documents. The file system and the YAML and JSON readers are the parameter
  \<open>filesystem\<close> of the definitions; the cache is threaded as the state.
  The theory ends with the reference resolver without a cache, which the cached one equals.
\<close>

section \<open>Paths\<close>

text \<open>
  The part of \<open>std::path::Path\<close> the resolver uses, on the string of the path: components
  (empty and inner \<open>.\<close> segments are skipped), \<open>join\<close>, \<open>parent\<close>, \<open>starts_with\<close> (by
  components) and \<open>extension\<close>.
\<close>

type_synonym path = string

definition path_components :: "path \<Rightarrow> string list" where
  "path_components p =
     (if starts_with p ''/'' then [''/''] else if starts_with p ''./'' \<or> p = ''.'' then [''.''] else [])
     @ filter (\<lambda>c. c \<noteq> [] \<and> c \<noteq> ''.'') (split_on CHR ''/'' p)"

definition path_of_components :: "string list \<Rightarrow> path" where
  "path_of_components cs =
     (case cs of [] \<Rightarrow> [] | c # ds \<Rightarrow> if c = ''/'' then ''/'' @ join ''/'' ds else join ''/'' cs)"

definition path_join :: "path \<Rightarrow> path \<Rightarrow> path" where
  "path_join base p =
     (if starts_with p ''/'' then p
      else if base = [] \<or> ends_with base ''/'' then base @ p
      else base @ ''/'' @ p)"

definition path_parent :: "path \<Rightarrow> path option" where
  "path_parent p =
     (let cs = path_components p in
      if cs = [] \<or> cs = [''/''] then None else Some (path_of_components (butlast cs)))"

definition path_starts_with :: "path \<Rightarrow> path \<Rightarrow> bool" where
  "path_starts_with p q = prefix (path_components q) (path_components p)"

definition path_extension :: "path \<Rightarrow> string option" where
  "path_extension p =
     (let cs = path_components p in
      if cs = [] \<or> last cs = ''/'' \<or> last cs = ''.'' \<or> last cs = ''..'' then None
      else (let n = last cs; ext = last (split_on CHR ''.'' n); stem = take (length n - length ext - 1) n
            in if CHR ''.'' \<notin> set n \<or> stem = [] then None else Some ext))"

section \<open>References and pointers\<close>

definition split_ref :: "string \<Rightarrow> string \<times> string" where
  "split_ref r = (case split_once CHR ''#'' r of Some (f, p) \<Rightarrow> (f, p) | None \<Rightarrow> (r, []))"

definition unescape_segment :: "string \<Rightarrow> string" where
  "unescape_segment s = replace ''~0'' ''~'' (replace ''~1'' ''/'' s)"

fun walk_segments :: "value \<Rightarrow> string list \<Rightarrow> value option" where
  "walk_segments v [] = Some v"
| "walk_segments v (s # ss) =
     (case v of
        Object m \<Rightarrow> (case map_of m s of None \<Rightarrow> None | Some w \<Rightarrow> walk_segments w ss)
      | Array xs \<Rightarrow>
          (case parse_unsigned u64_max s of
             None \<Rightarrow> None
           | Some i \<Rightarrow> if i < length xs then walk_segments (xs ! i) ss else None)
      | _ \<Rightarrow> None)"

definition resolve_pointer :: "value \<Rightarrow> string \<Rightarrow> value option" where
  "resolve_pointer doc p =
     (if p = [] \<or> p = ''/'' then Some doc
      else walk_segments doc
        (map unescape_segment
          (split_on CHR ''/'' (case strip_prefix ''/'' p of Some q \<Rightarrow> q | None \<Rightarrow> p))))"

section \<open>Loading files\<close>

text \<open>
  What the resolver asks of the file system and of the two parsers: the canonical path, the
  content, and the parsed documents (the YAML reader followed by its conversion to JSON, whose
  failure is a message of its own).
\<close>

record filesystem =
  canonicalize :: "path \<Rightarrow> string + path"
  read_to_string :: "path \<Rightarrow> string + string"
  yaml_from_str :: "string \<Rightarrow> string + (string + value)"
  json_from_str :: "string \<Rightarrow> string + value"

text \<open>Two punctuation marks of the messages, as UTF-8 bytes: a right arrow and an em dash.\<close>

definition right_arrow :: string where
  "right_arrow = [CHR 0xE2, CHR 0x86, CHR 0x92]"

definition em_dash :: string where
  "em_dash = [CHR 0xE2, CHR 0x80, CHR 0x94]"

definition load_file :: "filesystem \<Rightarrow> path \<Rightarrow> core_error + value" where
  "load_file fs p =
     (case read_to_string fs p of
        Inl e \<Rightarrow> Inl (RefError (''cannot read '' @ p @ '': '' @ e))
      | Inr content \<Rightarrow>
          (let ext = (case path_extension p of Some x \<Rightarrow> x | None \<Rightarrow> []) in
           if ext = ''yaml'' \<or> ext = ''yml'' then
             (case yaml_from_str fs content of
                Inl e \<Rightarrow> Inl (RefError (''YAML parse error in '' @ p @ '': '' @ e))
              | Inr (Inl e) \<Rightarrow>
                  Inl (RefError (''YAML'' @ right_arrow @ ''JSON conversion error in '' @ p @ '': '' @ e))
              | Inr (Inr v) \<Rightarrow> Inr v)
           else
             (case json_from_str fs content of
                Inl e \<Rightarrow> Inl (RefError (''JSON parse error in '' @ p @ '': '' @ e))
              | Inr v \<Rightarrow> Inr v)))"

section \<open>The resolver\<close>

record ref_config =
  base_dir :: path
  allowed_roots :: "path list"
  max_depth :: nat
  external_cache_limit :: nat

record ref_cache =
  cache :: "(string \<times> value) list"
  cache_order :: "string list"

record ref_resolver =
  config :: ref_config
  docs :: ref_cache

definition DEFAULT_MAX_DEPTH :: nat where
  "DEFAULT_MAX_DEPTH = 64"

definition DEFAULT_EXTERNAL_DOC_CACHE_LIMIT :: nat where
  "DEFAULT_EXTERNAL_DOC_CACHE_LIMIT = 128"

definition canonical_or :: "filesystem \<Rightarrow> path \<Rightarrow> path" where
  "canonical_or fs p = (case canonicalize fs p of Inr c \<Rightarrow> c | Inl _ \<Rightarrow> p)"

definition ref_resolver_new :: "filesystem \<Rightarrow> path \<Rightarrow> ref_resolver" where
  "ref_resolver_new fs dir =
     \<lparr>config = \<lparr>base_dir = dir, allowed_roots = [canonical_or fs dir],
        max_depth = DEFAULT_MAX_DEPTH, external_cache_limit = DEFAULT_EXTERNAL_DOC_CACHE_LIMIT\<rparr>,
      docs = \<lparr>cache = [], cache_order = []\<rparr>\<rparr>"

definition with_max_depth :: "nat \<Rightarrow> ref_resolver \<Rightarrow> ref_resolver" where
  "with_max_depth d r = r\<lparr>config := (config r)\<lparr>max_depth := d\<rparr>\<rparr>"

definition with_allowed_root :: "filesystem \<Rightarrow> path \<Rightarrow> ref_resolver \<Rightarrow> ref_resolver" where
  "with_allowed_root fs p r =
     (let c = canonical_or fs p in
      if c \<in> set (allowed_roots (config r)) then r
      else r\<lparr>config := (config r)\<lparr>allowed_roots := allowed_roots (config r) @ [c]\<rparr>\<rparr>)"

definition with_allowed_roots :: "filesystem \<Rightarrow> path list \<Rightarrow> ref_resolver \<Rightarrow> ref_resolver" where
  "with_allowed_roots fs ps r = foldl (\<lambda>r p. with_allowed_root fs p r) r ps"

definition with_external_cache_limit :: "nat \<Rightarrow> ref_resolver \<Rightarrow> ref_resolver" where
  "with_external_cache_limit n r =
     r\<lparr>config := (config r)\<lparr>external_cache_limit := if n = 0 then 1 else n\<rparr>\<rparr>"

fun evict_until :: "nat \<Rightarrow> string list \<Rightarrow> (string \<times> value) list \<Rightarrow> ref_cache" where
  "evict_until n [] c = \<lparr>cache = c, cache_order = []\<rparr>"
| "evict_until n (k # ks) c =
     (if n \<le> length (k # ks) then evict_until n ks (AList.delete k c)
      else \<lparr>cache = c, cache_order = k # ks\<rparr>)"

definition evict_external_cache_if_needed :: "ref_config \<Rightarrow> ref_cache \<Rightarrow> ref_cache" where
  "evict_external_cache_if_needed cf rc =
     evict_until (external_cache_limit cf) (cache_order rc) (cache rc)"

text \<open>The cached load of the document at a canonical path.\<close>

definition load_external ::
  "filesystem \<Rightarrow> ref_config \<Rightarrow> path \<Rightarrow> ref_cache \<Rightarrow> (core_error + value) \<times> ref_cache" where
  "load_external fs cf p rc =
     (case map_of (cache rc) p of
        Some d \<Rightarrow> (Inr d, rc)
      | None \<Rightarrow>
          (let rc' = evict_external_cache_if_needed cf rc in
           case load_file fs p of
             Inl e \<Rightarrow> (Inl e, rc')
           | Inr d \<Rightarrow>
               (let rc'' = \<lparr>cache = AList.update p d (cache rc'), cache_order = cache_order rc' @ [p]\<rparr> in
                case map_of (cache rc'') p of
                  None \<Rightarrow> (Inl (RefError (''cache miss for '' @ p)), rc'')
                | Some d \<Rightarrow> (Inr d, rc''))))"

text \<open>The members other than \<open>$ref\<close> fill the gaps of the resolved object.\<close>

definition merge_siblings :: "(string \<times> value) list \<Rightarrow> value \<Rightarrow> value" where
  "merge_siblings siblings v =
     (case v of
        Object m \<Rightarrow>
          Object (foldl (\<lambda>m (k, w). if map_of m k = None then bt_insert k w m else m) m siblings)
      | _ \<Rightarrow> v)"

definition depth_error :: "ref_config \<Rightarrow> core_error" where
  "depth_error cf = RefError (''maximum $ref resolution depth ('' @ nat_to_string (max_depth cf)
     @ '') exceeded '' @ em_dash @ '' possible cycle'')"

definition outside_error :: "ref_config \<Rightarrow> path \<Rightarrow> core_error" where
  "outside_error cf p = RefError (''file ref points outside allowed roots [''
     @ join '', '' (allowed_roots cf) @ '']: '' @ p)"

definition select_pointer :: "path \<Rightarrow> value \<Rightarrow> string \<Rightarrow> core_error + value" where
  "select_pointer p d ptr =
     (if ptr = [] then Inr d
      else case resolve_pointer d ptr of
             None \<Rightarrow> Inl (RefError (''pointer '' @ ptr @ '' not found in '' @ p))
           | Some v \<Rightarrow> Inr v)"

text \<open>
  The recursion: every call raises the depth, and above the limit nothing is called. A list of
  children is resolved left to right and stops at the first error. The third function is
  \<open>resolve_ref\<close>.
\<close>

function (sequential)
  resolve_value ::
    "filesystem \<Rightarrow> ref_config \<Rightarrow> value \<Rightarrow> value \<Rightarrow> path \<Rightarrow> nat \<Rightarrow> ref_cache
      \<Rightarrow> (core_error + value) \<times> ref_cache" and
  resolve_children ::
    "filesystem \<Rightarrow> ref_config \<Rightarrow> value list \<Rightarrow> value \<Rightarrow> path \<Rightarrow> nat \<Rightarrow> ref_cache
      \<Rightarrow> (core_error + value list) \<times> ref_cache" and
  resolve_ref ::
    "filesystem \<Rightarrow> ref_config \<Rightarrow> string \<Rightarrow> value \<Rightarrow> path \<Rightarrow> nat \<Rightarrow> ref_cache
      \<Rightarrow> (core_error + value) \<times> ref_cache" where
  "resolve_value fs cf v doc base d rc =
     (if max_depth cf < d then (Inl (depth_error cf), rc)
      else case v of
        Object m \<Rightarrow>
          (case map_of m ''$ref'' of
             Some r \<Rightarrow>
               (case as_str r of
                  None \<Rightarrow> (Inl (RefError ''$ref value is not a string''), rc)
                | Some s \<Rightarrow>
                    (case resolve_ref fs cf s doc base (d + 1) rc of
                       (Inl e, rc') \<Rightarrow> (Inl e, rc')
                     | (Inr w, rc') \<Rightarrow>
                         resolve_value fs cf
                           (merge_siblings (filter (\<lambda>(k, _). k \<noteq> ''$ref'') m) w) doc base (d + 1) rc'))
           | None \<Rightarrow>
               (case resolve_children fs cf (map snd m) doc base (d + 1) rc of
                  (Inl e, rc') \<Rightarrow> (Inl e, rc')
                | (Inr ws, rc') \<Rightarrow> (Inr (Object (zip (map fst m) ws)), rc')))
      | Array xs \<Rightarrow>
          (case resolve_children fs cf xs doc base (d + 1) rc of
             (Inl e, rc') \<Rightarrow> (Inl e, rc')
           | (Inr ws, rc') \<Rightarrow> (Inr (Array ws), rc'))
      | _ \<Rightarrow> (Inr v, rc))"
| "resolve_children fs cf [] doc base d rc = (Inr [], rc)"
| "resolve_children fs cf (v # vs) doc base d rc =
     (case resolve_value fs cf v doc base d rc of
        (Inl e, rc') \<Rightarrow> (Inl e, rc')
      | (Inr w, rc') \<Rightarrow>
          (case resolve_children fs cf vs doc base d rc' of
             (Inl e, rc'') \<Rightarrow> (Inl e, rc'')
           | (Inr ws, rc'') \<Rightarrow> (Inr (w # ws), rc'')))"
| "resolve_ref fs cf s doc base d rc =
     (if starts_with s ''http://'' \<or> starts_with s ''https://''
      then (Inl (RefError (''URL-based $ref is not supported: '' @ s)), rc)
      else case split_ref s of (file, ptr) \<Rightarrow>
        if file = [] then
          (case resolve_pointer doc ptr of
             None \<Rightarrow> (Inl (RefError (''local $ref not found: '' @ s)), rc)
           | Some w \<Rightarrow> (Inr w, rc))
        else
          (case canonicalize fs (path_join base file) of
             Inl e \<Rightarrow>
               (Inl (RefError (''cannot resolve file ref '' @ path_join base file @ '': '' @ e)), rc)
           | Inr p \<Rightarrow>
               if \<not> list_ex (path_starts_with p) (allowed_roots cf) then (Inl (outside_error cf p), rc)
               else
                 (case load_external fs cf p rc of
                    (Inl e, rc') \<Rightarrow> (Inl e, rc')
                  | (Inr ext, rc') \<Rightarrow>
                      (case select_pointer p ext ptr of
                         Inl e \<Rightarrow> (Inl e, rc')
                       | Inr w \<Rightarrow>
                           resolve_value fs cf w ext
                             (case path_parent p of Some q \<Rightarrow> q | None \<Rightarrow> base) d rc'))))"
  by pat_completeness auto

termination
  by (relation "measures
      [\<lambda>x. case x of Inl (fs, cf, v, doc, base, d, rc) \<Rightarrow> Suc (max_depth cf) - d
          | Inr (Inl (fs, cf, vs, doc, base, d, rc)) \<Rightarrow> Suc (max_depth cf) - d
          | Inr (Inr (fs, cf, s, doc, base, d, rc)) \<Rightarrow> Suc (max_depth cf) - d,
       \<lambda>x. case x of Inl _ \<Rightarrow> 0
          | Inr (Inl (fs, cf, vs, doc, base, d, rc)) \<Rightarrow> Suc (length vs)
          | Inr (Inr _) \<Rightarrow> 1]") auto

definition resolve :: "filesystem \<Rightarrow> path \<Rightarrow> ref_resolver \<Rightarrow> (core_error + value) \<times> ref_resolver" where
  "resolve fs p r =
     (case canonicalize fs p of
        Inl e \<Rightarrow> (Inl (RefError (''cannot canonicalize '' @ p @ '': '' @ e)), r)
      | Inr c \<Rightarrow>
          (case load_file fs c of
             Inl e \<Rightarrow> (Inl e, r)
           | Inr doc \<Rightarrow>
               (case resolve_value fs (config r) doc doc
                   (case path_parent c of Some q \<Rightarrow> q | None \<Rightarrow> base_dir (config r)) 0 (docs r) of
                  (res, rc) \<Rightarrow> (res, r\<lparr>docs := rc\<rparr>))))"

definition resolve_value_tree ::
  "filesystem \<Rightarrow> value \<Rightarrow> ref_resolver \<Rightarrow> (core_error + value) \<times> ref_resolver" where
  "resolve_value_tree fs v r =
     (case resolve_value fs (config r) v v (base_dir (config r)) 0 (docs r) of
        (res, rc) \<Rightarrow> (res, r\<lparr>docs := rc\<rparr>))"

declare resolve_value.simps [simp del] resolve_ref.simps [simp del]

section \<open>The resolver without a cache\<close>

text \<open>
  The reference: the same recursion with every external document loaded afresh. It has no state.
\<close>

function (sequential)
  plain_value ::
    "filesystem \<Rightarrow> ref_config \<Rightarrow> value \<Rightarrow> value \<Rightarrow> path \<Rightarrow> nat \<Rightarrow> core_error + value" and
  plain_children ::
    "filesystem \<Rightarrow> ref_config \<Rightarrow> value list \<Rightarrow> value \<Rightarrow> path \<Rightarrow> nat \<Rightarrow> core_error + value list" and
  plain_ref ::
    "filesystem \<Rightarrow> ref_config \<Rightarrow> string \<Rightarrow> value \<Rightarrow> path \<Rightarrow> nat \<Rightarrow> core_error + value" where
  "plain_value fs cf v doc base d =
     (if max_depth cf < d then Inl (depth_error cf)
      else case v of
        Object m \<Rightarrow>
          (case map_of m ''$ref'' of
             Some r \<Rightarrow>
               (case as_str r of
                  None \<Rightarrow> Inl (RefError ''$ref value is not a string'')
                | Some s \<Rightarrow>
                    (case plain_ref fs cf s doc base (d + 1) of
                       Inl e \<Rightarrow> Inl e
                     | Inr w \<Rightarrow>
                         plain_value fs cf
                           (merge_siblings (filter (\<lambda>(k, _). k \<noteq> ''$ref'') m) w) doc base (d + 1)))
           | None \<Rightarrow>
               (case plain_children fs cf (map snd m) doc base (d + 1) of
                  Inl e \<Rightarrow> Inl e
                | Inr ws \<Rightarrow> Inr (Object (zip (map fst m) ws))))
      | Array xs \<Rightarrow>
          (case plain_children fs cf xs doc base (d + 1) of
             Inl e \<Rightarrow> Inl e
           | Inr ws \<Rightarrow> Inr (Array ws))
      | _ \<Rightarrow> Inr v)"
| "plain_children fs cf [] doc base d = Inr []"
| "plain_children fs cf (v # vs) doc base d =
     (case plain_value fs cf v doc base d of
        Inl e \<Rightarrow> Inl e
      | Inr w \<Rightarrow>
          (case plain_children fs cf vs doc base d of
             Inl e \<Rightarrow> Inl e
           | Inr ws \<Rightarrow> Inr (w # ws)))"
| "plain_ref fs cf s doc base d =
     (if starts_with s ''http://'' \<or> starts_with s ''https://''
      then Inl (RefError (''URL-based $ref is not supported: '' @ s))
      else case split_ref s of (file, ptr) \<Rightarrow>
        if file = [] then
          (case resolve_pointer doc ptr of
             None \<Rightarrow> Inl (RefError (''local $ref not found: '' @ s))
           | Some w \<Rightarrow> Inr w)
        else
          (case canonicalize fs (path_join base file) of
             Inl e \<Rightarrow>
               Inl (RefError (''cannot resolve file ref '' @ path_join base file @ '': '' @ e))
           | Inr p \<Rightarrow>
               if \<not> list_ex (path_starts_with p) (allowed_roots cf) then Inl (outside_error cf p)
               else
                 (case load_file fs p of
                    Inl e \<Rightarrow> Inl e
                  | Inr ext \<Rightarrow>
                      (case select_pointer p ext ptr of
                         Inl e \<Rightarrow> Inl e
                       | Inr w \<Rightarrow>
                           plain_value fs cf w ext
                             (case path_parent p of Some q \<Rightarrow> q | None \<Rightarrow> base) d))))"
  by pat_completeness auto

termination
  by (relation "measures
      [\<lambda>x. case x of Inl (fs, cf, v, doc, base, d) \<Rightarrow> Suc (max_depth cf) - d
          | Inr (Inl (fs, cf, vs, doc, base, d)) \<Rightarrow> Suc (max_depth cf) - d
          | Inr (Inr (fs, cf, s, doc, base, d)) \<Rightarrow> Suc (max_depth cf) - d,
       \<lambda>x. case x of Inl _ \<Rightarrow> 0
          | Inr (Inl (fs, cf, vs, doc, base, d)) \<Rightarrow> Suc (length vs)
          | Inr (Inr _) \<Rightarrow> 1]") auto

declare plain_value.simps [simp del] plain_ref.simps [simp del]

definition plain_resolve :: "filesystem \<Rightarrow> ref_config \<Rightarrow> path \<Rightarrow> core_error + value" where
  "plain_resolve fs cf p =
     (case canonicalize fs p of
        Inl e \<Rightarrow> Inl (RefError (''cannot canonicalize '' @ p @ '': '' @ e))
      | Inr c \<Rightarrow>
          (case load_file fs c of
             Inl e \<Rightarrow> Inl e
           | Inr doc \<Rightarrow>
               plain_value fs cf doc doc (case path_parent c of Some q \<Rightarrow> q | None \<Rightarrow> base_dir cf) 0))"

section \<open>The cache\<close>

text \<open>
  The invariant of the cache: the FIFO order lists the cached keys once each, there are at most as
  many as the limit, and every entry is what its file, which lies below an allowed root, holds.
\<close>

definition cache_ok :: "filesystem \<Rightarrow> ref_config \<Rightarrow> ref_cache \<Rightarrow> bool" where
  "cache_ok fs cf rc \<longleftrightarrow>
     distinct (cache_order rc) \<and> set (cache_order rc) = dom (map_of (cache rc)) \<and>
     length (cache_order rc) \<le> external_cache_limit cf \<and> 0 < external_cache_limit cf \<and>
     (\<forall>p d. map_of (cache rc) p = Some d \<longrightarrow>
        load_file fs p = Inr d \<and> list_ex (path_starts_with p) (allowed_roots cf))"

lemma evict_until_ok:
  assumes "distinct ks" "set ks = dom (map_of c)" "length ks \<le> n" "0 < n"
  shows "let rc = evict_until n ks c in
    distinct (cache_order rc) \<and> set (cache_order rc) = dom (map_of (cache rc)) \<and>
    length (cache_order rc) < n \<and> map_of (cache rc) \<subseteq>\<^sub>m map_of c"
  using assms
proof (induction ks arbitrary: c)
  case (Cons k ks)
  show ?case
  proof (cases "n \<le> length (k # ks)")
    case True
    have "let rc = evict_until n ks (AList.delete k c) in
      distinct (cache_order rc) \<and> set (cache_order rc) = dom (map_of (cache rc)) \<and>
      length (cache_order rc) < n \<and> map_of (cache rc) \<subseteq>\<^sub>m map_of (AList.delete k c)"
      using Cons.prems by (intro Cons.IH) (auto simp: delete_conv' dom_def set_eq_iff split: if_splits)
    then show ?thesis
      using True by (auto simp: Let_def delete_conv' map_le_def split: if_splits)
  qed (use Cons in \<open>simp add: Let_def\<close>)
qed (simp add: Let_def)

lemma evict_ok:
  assumes "cache_ok fs cf rc"
  shows "cache_ok fs cf (evict_external_cache_if_needed cf rc)"
    and "length (cache_order (evict_external_cache_if_needed cf rc)) < external_cache_limit cf"
    and "map_of (cache (evict_external_cache_if_needed cf rc)) \<subseteq>\<^sub>m map_of (cache rc)"
  using assms evict_until_ok [of "cache_order rc" "cache rc" "external_cache_limit cf"]
  by (auto simp: cache_ok_def evict_external_cache_if_needed_def Let_def map_le_def dom_def)

lemma load_external_ok:
  assumes "cache_ok fs cf rc" and "list_ex (path_starts_with p) (allowed_roots cf)"
    and "load_external fs cf p rc = (res, rc')"
  shows "res = load_file fs p \<and> cache_ok fs cf rc'"
proof (cases "map_of (cache rc) p")
  case None
  let ?rc = "evict_external_cache_if_needed cf rc"
  note ev = evict_ok [OF assms(1)]
  have fresh: "p \<notin> set (cache_order ?rc)"
    using ev(1, 3) None by (auto simp: cache_ok_def map_le_def dom_def)
  show ?thesis
  proof (cases "load_file fs p")
    case (Inl e)
    then show ?thesis using assms(3) None ev(1) by (auto simp: load_external_def Let_def)
  next
    case (Inr d)
    then have "res = Inr d"
      and rc': "rc' = \<lparr>cache = AList.update p d (cache ?rc), cache_order = cache_order ?rc @ [p]\<rparr>"
      using assms(3) None by (auto simp: load_external_def Let_def update_conv')
    moreover have "cache_ok fs cf rc'"
      using ev(1, 2) fresh Inr assms(2) unfolding rc'
      by (auto simp: cache_ok_def update_conv' split: if_splits)
    ultimately show ?thesis using Inr by simp
  qed
qed (use assms in \<open>auto simp: load_external_def cache_ok_def\<close>)

text \<open>
  With a good cache the resolver computes what the reference computes, and keeps it good. The two
  cases that follow a reference come first, with what holds of the recursive calls as premises.
\<close>

lemma plain_object_ref:
  assumes d: "\<not> max_depth cf < d" and ref: "map_of m ''$ref'' = Some r" "as_str r = Some s"
    and run: "resolve_value fs cf (Object m) doc base d rc = (res, rc')"
    and target: "\<And>x rc1. resolve_ref fs cf s doc base (d + 1) rc = (x, rc1) \<Longrightarrow>
      x = plain_ref fs cf s doc base (d + 1) \<and> cache_ok fs cf rc1"
    and merged: "\<And>w rc1. resolve_ref fs cf s doc base (d + 1) rc = (Inr w, rc1) \<Longrightarrow> cache_ok fs cf rc1 \<Longrightarrow>
      resolve_value fs cf (merge_siblings (filter (\<lambda>(k, _). k \<noteq> ''$ref'') m) w) doc base (d + 1) rc1 = (res, rc') \<Longrightarrow>
      res = plain_value fs cf (merge_siblings (filter (\<lambda>(k, _). k \<noteq> ''$ref'') m) w) doc base (d + 1) \<and> cache_ok fs cf rc'"
  shows "res = plain_value fs cf (Object m) doc base d \<and> cache_ok fs cf rc'"
proof -
  note unf = resolve_value.simps [of _ _ "Object m"] plain_value.simps [of _ _ "Object m"]
  obtain x rc1 where r1: "resolve_ref fs cf s doc base (d + 1) rc = (x, rc1)" by force
  have x: "plain_ref fs cf s doc base (d + 1) = x" "cache_ok fs cf rc1" using target [OF r1] by simp_all
  show ?thesis
  proof (cases x)
    case (Inl e)
    have "plain_ref fs cf s doc base (d + 1) = Inl e" "resolve_ref fs cf s doc base (d + 1) rc = (Inl e, rc1)"
      using x r1 Inl by simp_all
    with d ref x(2) run show ?thesis by (auto simp: unf split: sum.splits)
  next
    case (Inr w)
    then have "res = plain_value fs cf (merge_siblings (filter (\<lambda>(k, _). k \<noteq> ''$ref'') m) w) doc base (d + 1)
        \<and> cache_ok fs cf rc'"
      using d ref r1 run merged [of w rc1] x(2) by (simp add: unf)
    then show ?thesis using d ref x Inr by (simp add: unf)
  qed
qed

lemma plain_ref_file:
  assumes local: "\<not> (starts_with s ''http://'' \<or> starts_with s ''https://'')" "split_ref s = (fl, ptr)" "fl \<noteq> []"
    and ok: "cache_ok fs cf rc" and run: "resolve_ref fs cf s doc base d rc = (res, rc')"
    and loaded: "\<And>p ext w rc1. canonicalize fs (path_join base fl) = Inr p \<Longrightarrow>
      list_ex (path_starts_with p) (allowed_roots cf) \<Longrightarrow> load_external fs cf p rc = (Inr ext, rc1) \<Longrightarrow>
      select_pointer p ext ptr = Inr w \<Longrightarrow> cache_ok fs cf rc1 \<Longrightarrow>
      resolve_value fs cf w ext (case path_parent p of Some q \<Rightarrow> q | None \<Rightarrow> base) d rc1 = (res, rc') \<Longrightarrow>
      res = plain_value fs cf w ext (case path_parent p of Some q \<Rightarrow> q | None \<Rightarrow> base) d \<and> cache_ok fs cf rc'"
  shows "res = plain_ref fs cf s doc base d \<and> cache_ok fs cf rc'"
proof -
  note unf = resolve_ref.simps [of fs cf s] plain_ref.simps [of fs cf s]
  show ?thesis
  proof (cases "canonicalize fs (path_join base fl)")
    case (Inl e)
    with local ok run show ?thesis by (simp add: unf)
  next
    case (Inr p)
    show ?thesis
    proof (cases "list_ex (path_starts_with p) (allowed_roots cf)")
      case True
      obtain x rc1 where ld: "load_external fs cf p rc = (x, rc1)" by force
      from load_external_ok [OF ok True ld]
      have x: "load_file fs p = x" and ok1: "cache_ok fs cf rc1" by simp_all
      show ?thesis
      proof (cases "\<exists>ext w. x = Inr ext \<and> select_pointer p ext ptr = Inr w")
        case sel: True
        then obtain ext w where "x = Inr ext" "select_pointer p ext ptr = Inr w" by blast
        with local Inr True ld x ok1 run loaded [OF Inr True, of ext rc1 w] show ?thesis by (simp add: unf)
      qed (use local Inr True ld x ok1 run in \<open>auto simp: unf split: sum.splits\<close>)
    qed (use local Inr ok run in \<open>simp add: unf\<close>)
  qed
qed

lemma resolve_plain:
  "cache_ok fs cf rc \<Longrightarrow> resolve_value fs cf v doc base d rc = (res, rc') \<Longrightarrow>
     res = plain_value fs cf v doc base d \<and> cache_ok fs cf rc'"
  "cache_ok fs cf rc \<Longrightarrow> resolve_children fs cf vs doc base d rc = (ress, rc') \<Longrightarrow>
     ress = plain_children fs cf vs doc base d \<and> cache_ok fs cf rc'"
  "cache_ok fs cf rc \<Longrightarrow> resolve_ref fs cf s doc base d rc = (res, rc') \<Longrightarrow>
     res = plain_ref fs cf s doc base d \<and> cache_ok fs cf rc'"
proof (induction fs cf v doc base d rc and fs cf vs doc base d rc and fs cf s doc base d rc
    arbitrary: res rc' and ress rc' and res rc'
    rule: resolve_value_resolve_children_resolve_ref.induct)
  case (1 fs cf v doc base d rc)
  show ?case
  proof (cases "max_depth cf < d")
    case True
    with 1(5,6) show ?thesis by (simp add: resolve_value.simps plain_value.simps)
  next
    case False
    show ?thesis
    proof (cases v)
      case (Array xs)
      with False 1(1) [OF False Array] 1(5,6) show ?thesis
        by (auto simp: resolve_value.simps [of _ _ "Array xs"] plain_value.simps [of _ _ "Array xs"]
            split: prod.splits sum.splits)
    next
      case (Object m)
      show ?thesis
      proof (cases "map_of m ''$ref''")
        case None
        with False 1(2) [OF False Object None] 1(5,6) Object show ?thesis
          by (auto simp: resolve_value.simps [of _ _ "Object m"] plain_value.simps [of _ _ "Object m"]
              split: prod.splits sum.splits)
      next
        case (Some r)
        show ?thesis
        proof (cases "as_str r")
          case None
          with False Some 1(5,6) Object show ?thesis
            by (simp add: resolve_value.simps [of _ _ "Object m"] plain_value.simps [of _ _ "Object m"])
        next
          case str: (Some s)
          show ?thesis
            using plain_object_ref [OF False Some str, of fs doc base rc res rc'] 1(6) Object
              1(3) [OF False Object Some str 1(5)] 1(4) [OF False Object Some str]
            by (metis (no_types, lifting))
        qed
      qed
    qed (use False 1(5,6) in \<open>simp_all add: resolve_value.simps plain_value.simps\<close>)
  qed
next
  case (2 fs cf doc base d rc)
  then show ?case by simp
next
  case (3 fs cf v vs doc base d rc)
  then show ?case by (fastforce split: prod.splits sum.splits)
next
  case (4 fs cf s doc base d rc)
  obtain fl ptr where split: "split_ref s = (fl, ptr)" by force
  show ?case
  proof (cases "(starts_with s ''http://'' \<or> starts_with s ''https://'') \<or> fl = []")
    case True
    with split 4(2,3) show ?thesis
      by (auto simp: resolve_ref.simps [of fs cf s] plain_ref.simps [of fs cf s] split: option.splits)
  next
    case False
    then show ?thesis
      using plain_ref_file [OF _ split _ 4(2,3)] 4(1) [OF _ split [symmetric] _] by (metis (no_types, lifting))
  qed
qed

definition resolver_ok :: "filesystem \<Rightarrow> ref_resolver \<Rightarrow> bool" where
  "resolver_ok fs r = cache_ok fs (config r) (docs r)"

lemma resolve_refines_plain:
  assumes "resolver_ok fs r"
  shows "fst (resolve fs p r) = plain_resolve fs (config r) p"
    and "resolver_ok fs (snd (resolve fs p r))"
  using assms resolve_plain(1) [OF assms [unfolded resolver_ok_def]]
  by (auto simp: resolve_def plain_resolve_def resolver_ok_def split: sum.splits prod.splits)

lemma resolve_value_tree_refines_plain:
  assumes "resolver_ok fs r"
  shows "fst (resolve_value_tree fs v r) = plain_value fs (config r) v v (base_dir (config r)) 0"
    and "resolver_ok fs (snd (resolve_value_tree fs v r))"
  using assms resolve_plain(1) [OF assms [unfolded resolver_ok_def]]
  by (auto simp: resolve_value_tree_def resolver_ok_def split: prod.splits)

text \<open>
  The life of a resolver: created, configured by the builder methods, then used any number of
  times while the files stay as they are.
\<close>

inductive resolver_init :: "filesystem \<Rightarrow> ref_resolver \<Rightarrow> bool" for fs where
  new: "resolver_init fs (ref_resolver_new fs dir)"
| depth: "resolver_init fs r \<Longrightarrow> resolver_init fs (with_max_depth d r)"
| root: "resolver_init fs r \<Longrightarrow> resolver_init fs (with_allowed_root fs p r)"
| roots: "resolver_init fs r \<Longrightarrow> resolver_init fs (with_allowed_roots fs ps r)"
| limit: "resolver_init fs r \<Longrightarrow> resolver_init fs (with_external_cache_limit n r)"

inductive resolver_step :: "filesystem \<Rightarrow> ref_resolver \<Rightarrow> ref_resolver \<Rightarrow> bool" for fs where
  from_file: "resolver_step fs r (snd (resolve fs p r))"
| from_tree: "resolver_step fs r (snd (resolve_value_tree fs v r))"

lemma with_allowed_root_docs:
  "docs (with_allowed_root fs p r) = docs r"
  "external_cache_limit (config (with_allowed_root fs p r)) = external_cache_limit (config r)"
  by (simp_all add: with_allowed_root_def Let_def)

lemma with_allowed_roots_docs:
  "docs (with_allowed_roots fs ps r) = docs r \<and>
   external_cache_limit (config (with_allowed_roots fs ps r)) = external_cache_limit (config r)"
  unfolding with_allowed_roots_def
  by (induction ps arbitrary: r) (simp_all add: with_allowed_root_docs)

lemma resolver_init_empty:
  "resolver_init fs r \<Longrightarrow> docs r = \<lparr>cache = [], cache_order = []\<rparr> \<and> 0 < external_cache_limit (config r)"
  by (induction rule: resolver_init.induct)
    (simp_all add: ref_resolver_new_def DEFAULT_EXTERNAL_DOC_CACHE_LIMIT_def with_max_depth_def
      with_external_cache_limit_def with_allowed_root_docs with_allowed_roots_docs)

interpretation rr: invariant_system "resolver_init fs" "resolver_step fs" "resolver_ok fs" for fs
proof
  show "resolver_ok fs r" if "resolver_init fs r" for r
    using resolver_init_empty [OF that] by (simp add: resolver_ok_def cache_ok_def)
  show "resolver_ok fs t" if "resolver_ok fs r" "resolver_step fs r t" for r t
    using that(2,1) by cases (simp_all add: resolve_refines_plain resolve_value_tree_refines_plain)
qed

section \<open>No reference survives\<close>

fun ref_free :: "value \<Rightarrow> bool" where
  "ref_free (Array xs) = (\<forall>x\<in>set xs. ref_free x)"
| "ref_free (Object m) = (''$ref'' \<notin> fst ` set m \<and> (\<forall>kv\<in>set m. ref_free (snd kv)))"
| "ref_free _ = True"

lemma plain_children_all:
  "plain_children fs cf vs doc base d = Inr ws \<Longrightarrow>
     list_all2 (\<lambda>v w. plain_value fs cf v doc base d = Inr w) vs ws"
  by (induction vs arbitrary: ws) (auto split: sum.splits)

lemma fst_set_zip: "k \<in> fst ` set (zip xs ys) \<Longrightarrow> k \<in> set xs"
  by (auto dest: set_zip_leftD)

lemma snd_set_zip: "kv \<in> set (zip xs ys) \<Longrightarrow> snd kv \<in> set ys"
  by (cases kv) (auto dest: set_zip_rightD)

lemma plain_value_ref_free: "plain_value fs cf v doc base d = Inr w \<Longrightarrow> ref_free w"
proof (induction "Suc (max_depth cf) - d" arbitrary: v doc base d w rule: less_induct)
  case less
  from less.prems have d: "\<not> max_depth cf < d" by (auto simp: plain_value.simps split: if_splits)
  have IH: "ref_free w" if "plain_value fs cf v doc base (d + 1) = Inr w" for v doc base w
    using less.hyps [OF _ that] d by simp
  have kids: "\<forall>w\<in>set ws. ref_free w" if "plain_children fs cf vs doc base (d + 1) = Inr ws" for vs ws
    using plain_children_all [OF that] by (induction rule: list_all2_induct) (auto intro: IH)
  have obj: "ref_free (Object (zip (map fst m) ws))"
    if "plain_children fs cf (map snd m) doc base (d + 1) = Inr ws" "map_of m ''$ref'' = None" for m ws
    using kids [OF that(1)] that(2)
    by (auto simp: map_of_eq_None_iff dest!: snd_set_zip fst_set_zip)
  show ?case
    using less.prems d IH kids obj
    by (subst (asm) plain_value.simps) (auto split: json_splits option.splits sum.splits)
qed

section \<open>Documents without references\<close>

fun nesting :: "value \<Rightarrow> nat" where
  "nesting (Array xs) = foldr max (map (\<lambda>x. Suc (nesting x)) xs) 0"
| "nesting (Object m) = foldr max (map (\<lambda>kv. Suc (nesting (snd kv))) m) 0"
| "nesting _ = 0"

lemma foldr_max_le: "foldr max ns (0::nat) \<le> n \<longleftrightarrow> (\<forall>m\<in>set ns. m \<le> n)"
  by (induction ns) auto

lemma plain_children_id:
  assumes "\<And>v. v \<in> set vs \<Longrightarrow>
    plain_value fs cf v doc base d = (if d + nesting v \<le> max_depth cf then Inr v else Inl (depth_error cf))"
  shows "plain_children fs cf vs doc base d =
    (if \<forall>v\<in>set vs. d + nesting v \<le> max_depth cf then Inr vs else Inl (depth_error cf))"
  using assms by (induction vs) auto

lemma fits_children:
  fixes M :: nat
  shows "\<not> M < d \<Longrightarrow> d + foldr max (map (\<lambda>x. Suc (f x)) xs) 0 \<le> M \<longleftrightarrow> (\<forall>x\<in>set xs. Suc d + f x \<le> M)"
  using foldr_max_le [of "map (\<lambda>x. Suc (f x)) xs" "M - d"] by (auto simp: le_diff_conv2)

lemma zip_map_fst_snd [simp]: "zip (map fst m) (map snd m) = m"
  by (induction m) auto

lemma plain_value_id:
  "ref_free v \<Longrightarrow> plain_value fs cf v doc base d =
     (if d + nesting v \<le> max_depth cf then Inr v else Inl (depth_error cf))"
proof (induction v arbitrary: d)
  case (Array xs)
  have "plain_children fs cf xs doc base (Suc d) =
    (if \<forall>v\<in>set xs. Suc d + nesting v \<le> max_depth cf then Inr xs else Inl (depth_error cf))"
    using Array by (intro plain_children_id) simp
  then show ?case by (simp add: plain_value.simps [of _ _ "Array xs"] fits_children)
next
  case (Object m)
  have "plain_children fs cf (map snd m) doc base (Suc d) =
    (if \<forall>v\<in>set (map snd m). Suc d + nesting v \<le> max_depth cf then Inr (map snd m)
     else Inl (depth_error cf))"
    using Object by (intro plain_children_id) (fastforce simp: snds.simps)
  moreover have "map_of m ''$ref'' = None" using Object.prems by (simp add: map_of_eq_None_iff)
  ultimately show ?case by (simp add: plain_value.simps [of _ _ "Object m"] fits_children)
qed (simp_all add: plain_value.simps)

section \<open>Confinement\<close>

text \<open>Two file systems that differ in nothing but files outside the allowed roots.\<close>

definition agree_below :: "path list \<Rightarrow> filesystem \<Rightarrow> filesystem \<Rightarrow> bool" where
  "agree_below rs fs fs' \<longleftrightarrow>
     canonicalize fs' = canonicalize fs \<and> yaml_from_str fs' = yaml_from_str fs \<and>
     json_from_str fs' = json_from_str fs \<and>
     (\<forall>p. list_ex (path_starts_with p) rs \<longrightarrow> read_to_string fs' p = read_to_string fs p)"

lemma agree_below_load_file:
  "agree_below rs fs fs' \<Longrightarrow> list_ex (path_starts_with p) rs \<Longrightarrow> load_file fs' p = load_file fs p"
  by (auto simp: agree_below_def load_file_def split: sum.split)

lemma plain_confined:
  "agree_below (allowed_roots cf) fs fs' \<Longrightarrow> plain_value fs' cf v doc base d = plain_value fs cf v doc base d"
  "agree_below (allowed_roots cf) fs fs' \<Longrightarrow>
     plain_children fs' cf vs doc base d = plain_children fs cf vs doc base d"
  "agree_below (allowed_roots cf) fs fs' \<Longrightarrow> plain_ref fs' cf s doc base d = plain_ref fs cf s doc base d"
proof (induction fs cf v doc base d and fs cf vs doc base d and fs cf s doc base d
    rule: plain_value_plain_children_plain_ref.induct)
  case (1 fs cf v doc base d)
  then show ?case
    by (auto simp: plain_value.simps [of _ cf v] split: json_splits option.splits sum.splits)
next
  case (4 fs cf s doc base d)
  have "canonicalize fs' = canonicalize fs" using 4(2) by (simp add: agree_below_def)
  with 4(1) [OF _ _ _ _ _ _ _ 4(2)] agree_below_load_file [OF 4(2)] show ?case
    by (auto simp: plain_ref.simps [of _ cf s] split: sum.splits prod.splits)
qed (auto split: sum.splits)

section \<open>Properties\<close>

text \<open>
  The instance the witnesses use: two JSON files below \<open>/s\<close>, the first referring to the second,
  and a file outside.
\<close>

definition demo_fs :: "string \<Rightarrow> filesystem" where
  "demo_fs secret =
     \<lparr>canonicalize = Inr,
      read_to_string = (\<lambda>p. if p = ''/s/a.json'' then Inr ''A'' else if p = ''/s/b.json'' then Inr ''B''
        else if p = ''/etc/c.json'' then Inr secret else Inl ''missing''),
      yaml_from_str = (\<lambda>_. Inl ''not used''),
      json_from_str = (\<lambda>c. if c = ''A'' then Inr (Array [Object [(''$ref'', Str ''b.json#/x'')]])
        else if c = ''B'' then Inr (Object [(''x'', Bool True)]) else Inr (Str c))\<rparr>"

abbreviation demo_resolver :: "string \<Rightarrow> ref_resolver" where
  "demo_resolver secret \<equiv> ref_resolver_new (demo_fs secret) ''/s''"

lemma demo_reachable:
  "reachable_from (resolver_init (demo_fs secret)) (resolver_step (demo_fs secret)) (demo_resolver secret)"
  by (intro reachable_from.start resolver_init.new)

lemma demo_config: "config (demo_resolver secret) = config (demo_resolver [])"
  by (simp add: ref_resolver_new_def canonical_or_def demo_fs_def)

lemma demo_plain:
  "plain_resolve (demo_fs []) (config (demo_resolver [])) ''/s/a.json'' = Inr (Array [Bool True])"
  by code_simp



text \<open>
  In every reachable state the cache holds at most the configured number of documents, and
  only documents whose canonical path is below an allowed root.
\<close>

theorem resolver_cache_bounded:
  assumes "reachable_from (resolver_init fs) (resolver_step fs) r"
  shows "card (dom (map_of (cache (docs r)))) \<le> external_cache_limit (config r)
    \<and> (\<forall>p \<in> dom (map_of (cache (docs r))). \<exists>q \<in> set (allowed_roots (config r)). path_starts_with p q)"
proof -
  have ok: "cache_ok fs (config r) (docs r)"
    using rr.reachable_inv [OF assms] by (simp add: resolver_ok_def)
  then have "card (dom (map_of (cache (docs r)))) = length (cache_order (docs r))"
    by (metis cache_ok_def distinct_card)
  with ok show ?thesis by (auto simp: cache_ok_def list_ex_iff dom_def)
qed

theorem resolver_cache_bounded_witness:
  "card (dom (map_of (cache (docs (snd (resolve (demo_fs []) ''/s/a.json'' (demo_resolver [])))))))
     \<le> 128"
proof -
  let ?r = "snd (resolve (demo_fs []) ''/s/a.json'' (demo_resolver []))"
  have "reachable_from (resolver_init (demo_fs [])) (resolver_step (demo_fs [])) ?r"
    using demo_reachable from_file by (rule reachable_from.more)
  moreover have "external_cache_limit (config ?r) = 128" by code_simp
  ultimately show ?thesis using resolver_cache_bounded by metis
qed

text \<open>
  C29. A resolved document has no \<open>$ref\<close> left, at any depth: not from a local pointer, an external
  document or a merged sibling.
\<close>

theorem resolve_no_refs_left:
  assumes "reachable_from (resolver_init fs) (resolver_step fs) r"
    and "fst (resolve fs p r) = Inr v"
  shows "ref_free v"
  using assms(2) plain_value_ref_free
  unfolding resolve_refines_plain(1) [OF rr.reachable_inv [OF assms(1)]] plain_resolve_def
  by (auto split: sum.splits)

theorem resolve_no_refs_left_witness:
  "fst (resolve (demo_fs []) ''/s/a.json'' (demo_resolver [])) = Inr (Array [Bool True])
     \<and> ref_free (Array [Bool True])"
proof -
  have "fst (resolve (demo_fs []) ''/s/a.json'' (demo_resolver [])) = Inr (Array [Bool True])"
    by code_simp
  with resolve_no_refs_left [OF demo_reachable] show ?thesis by blast
qed



text \<open>
  A tree without references is returned unchanged if its nesting is within the depth limit,
  and is refused with the error of a possible \<open>$ref\<close> cycle if it is deeper.
\<close>

theorem resolve_tree_without_refs:
  assumes "reachable_from (resolver_init fs) (resolver_step fs) r" and "ref_free v"
  shows "fst (resolve_value_tree fs v r) =
    (if nesting v \<le> max_depth (config r) then Inr v else Inl (depth_error (config r)))"
  using resolve_value_tree_refines_plain(1) [OF rr.reachable_inv [OF assms(1)]]
    plain_value_id [OF assms(2)] by simp

theorem resolve_tree_without_refs_witness:
  "fst (resolve_value_tree (demo_fs []) (Array [Array []]) (demo_resolver [])) = Inr (Array [Array []])"
proof -
  have "nesting (Array [Array []]) \<le> max_depth (config (demo_resolver []))" by code_simp
  then show ?thesis using resolve_tree_without_refs [OF demo_reachable, of "Array [Array []]"] by simp
qed

end
