(* ===== verification/Config.thy ===== *)
theory Config
  imports Runtime_Base Ref_Resolver
begin

text \<open>
  Server configuration of \<open>specmock-runtime/src/lib.rs\<close>: the record with its defaults, validation with
  every refusal, and the guard against private upstream addresses, over the address reader of the
  standard library. The URL parser of the \<open>url\<close> crate and the file-existence test are parameters.
\<close>

section \<open>Addresses\<close>

datatype ip_addr = V4 "u8 list" | V6 "u16 list"

datatype socket_addr = SocketAddr (sock_ip: ip_addr) (sock_port: u16)

text \<open>
  Reading an address as \<open>std::net\<close> does: a reader consumes a prefix of the text or fails without
  consuming. A number has at most the given digits; a decimal one has no leading zero.
\<close>

type_synonym 'a reader = "string \<Rightarrow> ('a \<times> string) option"

definition hex_digit :: "char \<Rightarrow> nat option" where
  "hex_digit c =
     (if is_ascii_digit c then Some (char_code c - 48)
      else if 97 \<le> char_code c \<and> char_code c \<le> 102 then Some (char_code c - 87)
      else if 65 \<le> char_code c \<and> char_code c \<le> 70 then Some (char_code c - 55)
      else None)"

definition to_digit :: "nat \<Rightarrow> char \<Rightarrow> nat option" where
  "to_digit radix c = (case hex_digit c of Some d \<Rightarrow> if d < radix then Some d else None | None \<Rightarrow> None)"

definition read_number :: "nat \<Rightarrow> nat \<Rightarrow> bool \<Rightarrow> nat \<Rightarrow> nat reader" where
  "read_number radix digits zero_prefix hi s =
     (let ds = takeWhile (\<lambda>c. to_digit radix c \<noteq> None) s;
          n = foldl (\<lambda>acc c. acc * radix + the (to_digit radix c)) 0 ds
      in if ds = [] \<or> digits < length ds \<or> hi < n \<or> \<not> zero_prefix \<and> hd ds = CHR ''0'' \<and> 1 < length ds
         then None else Some (n, drop (length ds) s))"

definition read_separator :: "char \<Rightarrow> nat \<Rightarrow> 'a reader \<Rightarrow> 'a reader" where
  "read_separator sep i inner s = (if i = 0 then inner s else Option.bind (strip_prefix [sep] s) inner)"

fun read_octets :: "nat \<Rightarrow> nat \<Rightarrow> u8 list reader" where
  "read_octets i 0 s = Some ([], s)"
| "read_octets i (Suc n) s =
     (case read_separator CHR ''.'' i (read_number 10 3 False 255) s of
        None \<Rightarrow> None
      | Some (g, s) \<Rightarrow> map_option (\<lambda>(gs, s). (of_nat g # gs, s)) (read_octets (Suc i) n s))"

definition read_ipv4_addr :: "u8 list reader" where
  "read_ipv4_addr s = read_octets 0 4 s"

fun group_pairs :: "u8 list \<Rightarrow> u16 list" where
  "group_pairs (a # b # rest) = (ucast a * 256 + ucast b) # group_pairs rest"
| "group_pairs _ = []"

text \<open>Up to \<open>left\<close> groups from position \<open>i\<close>, the last two possibly an embedded IPv4 address.\<close>

fun read_groups :: "nat \<Rightarrow> nat \<Rightarrow> string \<Rightarrow> u16 list \<times> bool \<times> string" where
  "read_groups i 0 s = ([], False, s)"
| "read_groups i (Suc left) s =
     (case (if left = 0 then None else read_separator CHR '':'' i read_ipv4_addr s) of
        Some (octets, s) \<Rightarrow> (group_pairs octets, True, s)
      | None \<Rightarrow>
          (case read_separator CHR '':'' i (read_number 16 4 True 65535) s of
             Some (g, s) \<Rightarrow> (let (gs, v4, s) = read_groups (Suc i) left s in (of_nat g # gs, v4, s))
           | None \<Rightarrow> ([], False, s)))"

definition read_ipv6_addr :: "u16 list reader" where
  "read_ipv6_addr s =
     (let (head, v4, s) = read_groups 0 8 s in
      if length head = 8 then Some (head, s)
      else if v4 then None
      else Option.bind (strip_prefix ''::'' s) (\<lambda>s.
        let (tail, _, s) = read_groups 0 (8 - (length head + 1)) s
        in Some (head @ replicate (8 - length head - length tail) 0 @ tail, s)))"

definition parse_ip_addr :: "string \<Rightarrow> ip_addr option" where
  "parse_ip_addr s =
     (case (case read_ipv4_addr s of
              Some (g, r) \<Rightarrow> Some (V4 g, r)
            | None \<Rightarrow> map_option (\<lambda>(g, r). (V6 g, r)) (read_ipv6_addr s)) of
        Some (ip, []) \<Rightarrow> Some ip
      | _ \<Rightarrow> None)"

fun is_private_ip :: "ip_addr \<Rightarrow> bool" where
  "is_private_ip (V4 os) \<longleftrightarrow>
     os ! 0 = 127 \<or>
     (os ! 0 = 10 \<or> os ! 0 = 172 \<and> 16 \<le> os ! 1 \<and> os ! 1 \<le> 31 \<or> os ! 0 = 192 \<and> os ! 1 = 168) \<or>
     (os ! 0 = 169 \<and> os ! 1 = 254)"
| "is_private_ip (V6 gs) \<longleftrightarrow> gs = [0, 0, 0, 0, 0, 0, 0, 1]"

section \<open>URLs\<close>

text \<open>What the sources read of a parsed \<open>url::Url\<close>: its scheme, its host as text, its explicit port, and the whole URL.\<close>

record url =
  scheme :: string
  host_str :: "string option"
  url_port :: "u16 option"
  url_text :: string

type_synonym url_parser = "string \<Rightarrow> string + url"

definition strip_brackets :: "string \<Rightarrow> string" where
  "strip_brackets host = trim_end_matches CHR '']'' (trim_start_matches CHR ''['' host)"

definition private_host :: "url \<Rightarrow> bool" where
  "private_host u =
     (case Option.bind (host_str u) (\<lambda>host. parse_ip_addr (strip_brackets host)) of
        Some ip \<Rightarrow> is_private_ip ip
      | None \<Rightarrow> False)"

definition is_valid_callback_url :: "url_parser \<Rightarrow> string \<Rightarrow> bool" where
  "is_valid_callback_url parse_url text =
     (case parse_url text of
        Inl _ \<Rightarrow> False
      | Inr u \<Rightarrow>
          if scheme u \<noteq> ''http'' \<and> scheme u \<noteq> ''https'' then False
          else if private_host u then False
          else True)"

section \<open>Configuration\<close>

definition DEFAULT_MAX_BODY_SIZE :: usize where
  "DEFAULT_MAX_BODY_SIZE = 10 * 1024 * 1024"

definition DEFAULT_HTTP_ADDR :: socket_addr where
  "DEFAULT_HTTP_ADDR = SocketAddr (V4 [127, 0, 0, 1]) 0"

definition DEFAULT_GRPC_ADDR :: socket_addr where
  "DEFAULT_GRPC_ADDR = SocketAddr (V4 [127, 0, 0, 1]) 0"

definition DEFAULT_WS_PATH :: string where
  "DEFAULT_WS_PATH = ''/ws''"

definition DEFAULT_SEED :: u64 where
  "DEFAULT_SEED = 42"

definition DEFAULT_MAX_SESSIONS :: usize where
  "DEFAULT_MAX_SESSIONS = 256"

definition DEFAULT_MAX_STORE_ENTRIES :: usize where
  "DEFAULT_MAX_STORE_ENTRIES = 1024"

record server_config =
  openapi_spec :: "path option"
  asyncapi_spec :: "path option"
  proto_spec :: "path option"
  mode :: mock_mode
  upstream :: "string option"
  config_seed :: u64
  http_addr :: socket_addr
  grpc_addr :: socket_addr
  ws_path :: string
  max_body_size :: usize
  allow_private_upstream :: bool
  scenarios_spec :: "path option"
  config_max_sessions :: usize
  config_max_store_entries :: usize
  control_token :: "string option"

definition default_config :: server_config where
  "default_config =
     \<lparr>openapi_spec = None, asyncapi_spec = None, proto_spec = None, mode = Mock, upstream = None,
      config_seed = DEFAULT_SEED, http_addr = DEFAULT_HTTP_ADDR, grpc_addr = DEFAULT_GRPC_ADDR,
      ws_path = DEFAULT_WS_PATH, max_body_size = DEFAULT_MAX_BODY_SIZE, allow_private_upstream = False,
      scenarios_spec = None, config_max_sessions = DEFAULT_MAX_SESSIONS,
      config_max_store_entries = DEFAULT_MAX_STORE_ENTRIES, control_token = None\<rparr>"

definition config_error :: "string \<Rightarrow> runtime_error + unit" where
  "config_error m = Inl (ConfigError m)"

text \<open>The checks of \<open>validate\<close> in their order; \<open>guard\<close> refuses or goes on.\<close>

definition guard :: "bool \<Rightarrow> string \<Rightarrow> runtime_error + unit \<Rightarrow> runtime_error + unit" where
  "guard bad m next = (if bad then config_error m else next)"

definition upstream_check :: "url_parser \<Rightarrow> server_config \<Rightarrow> runtime_error + unit" where
  "upstream_check parse_url cfg =
     (case upstream cfg of
        None \<Rightarrow> Inr ()
      | Some text \<Rightarrow>
          (case parse_url text of
             Inl e \<Rightarrow> config_error (''invalid upstream URL: '' @ e)
           | Inr u \<Rightarrow>
               guard (scheme u \<noteq> ''http'' \<and> scheme u \<noteq> ''https'')
                 (''upstream URL must use http or https scheme, got: '' @ scheme u)
               (guard (mode cfg = Proxy \<and> \<not> allow_private_upstream cfg \<and> private_host u)
                 ''upstream URL must not point to a private, loopback, or link-local address (use --allow-private-upstream to override)''
               (Inr ()))))"

definition file_check :: "(path \<Rightarrow> bool) \<Rightarrow> string \<Rightarrow> path option \<Rightarrow> runtime_error + unit \<Rightarrow> runtime_error + unit" where
  "file_check exists what p next =
     (case p of
        Some f \<Rightarrow> guard (\<not> exists f) (what @ '' spec file does not exist: '' @ f) next
      | None \<Rightarrow> next)"

definition validate_config :: "url_parser \<Rightarrow> (path \<Rightarrow> bool) \<Rightarrow> server_config \<Rightarrow> runtime_error + unit" where
  "validate_config parse_url exists cfg =
     guard (openapi_spec cfg = None \<and> asyncapi_spec cfg = None \<and> proto_spec cfg = None)
       ''at least one spec must be provided: openapi_spec, asyncapi_spec, or proto_spec''
     (guard (mode cfg = Proxy \<and> upstream cfg = None)
       ''proxy mode requires upstream base URL (--upstream)''
     (case upstream_check parse_url cfg of
        Inl e \<Rightarrow> Inl e
      | Inr _ \<Rightarrow>
          guard (http_addr cfg = grpc_addr cfg \<and> sock_port (http_addr cfg) \<noteq> 0 \<and> sock_port (grpc_addr cfg) \<noteq> 0)
            ''HTTP and gRPC addresses must be different''
          (guard (\<not> starts_with (ws_path cfg) ''/'')
            (''WebSocket path must start with '' @ quoted ''/'')
          (guard (max_body_size cfg = 0) ''max_body_size must be greater than 0''
          (file_check exists ''OpenAPI'' (openapi_spec cfg)
          (file_check exists ''AsyncAPI'' (asyncapi_spec cfg)
          (file_check exists ''Protobuf'' (proto_spec cfg) (Inr ()))))))))"

end
