(* ===== verification/Router.thy ===== *)
theory Router
  imports Prelude
begin

text \<open>
  The segment trie of \<open>specmock-runtime/src/http/router.rs\<close>: path templates are inserted edge by
  edge, and a request path is walked with literal edges before parameter edges and with
  backtracking. The theory relates the trie to the list of declared operations.
\<close>

datatype segment_matcher = Literal string | Param string

datatype route_node = RouteNode "(segment_matcher \<times> route_node) list" "(string \<times> nat) list"

record route_match =
  operation_index :: nat
  path_params :: "(string \<times> string) list"

section \<open>Segments\<close>

definition split_path :: "string \<Rightarrow> string list" where
  "split_path p = filter (\<lambda>s. s \<noteq> []) (split_on CHR ''/'' (trim_matches CHR ''/'' p))"

definition segment_of :: "string \<Rightarrow> segment_matcher" where
  "segment_of s =
     (if starts_with s ''{'' \<and> ends_with s ''}'' \<and> 2 < length s then Param (butlast (tl s)) else Literal s)"

definition parse_segments :: "string \<Rightarrow> segment_matcher list" where
  "parse_segments template = map segment_of (split_path template)"

section \<open>Insertion\<close>

definition empty_node :: route_node where
  "empty_node = RouteNode [] []"

fun insert_route :: "segment_matcher list \<Rightarrow> string \<Rightarrow> nat \<Rightarrow> route_node \<Rightarrow> route_node"
and insert_edge :: "segment_matcher list \<Rightarrow> string \<Rightarrow> nat \<Rightarrow> segment_matcher
      \<Rightarrow> (segment_matcher \<times> route_node) list \<Rightarrow> (segment_matcher \<times> route_node) list" where
  "insert_route [] m i (RouteNode ch ops) = RouteNode ch (ops @ [(m, i)])"
| "insert_route (s # ss) m i (RouteNode ch ops) = RouteNode (insert_edge ss m i s ch) ops"
| "insert_edge ss m i s [] = [(s, insert_route ss m i (RouteNode [] []))]"
| "insert_edge ss m i s ((s', c) # es) =
     (if s' = s then (s', insert_route ss m i c) # es else (s', c) # insert_edge ss m i s es)"

text \<open>An operation is its method and its path template; its index is its position.\<close>

definition build :: "(string \<times> string) list \<Rightarrow> route_node" where
  "build ops =
     foldl (\<lambda>n (i, m, t). insert_route (parse_segments t) m i n) empty_node (enumerate 0 ops)"

section \<open>Walking\<close>

text \<open>
  The parameters found are returned with the node; the source writes them into the caller's map
  only when the walk below a parameter edge succeeds.
\<close>

function (sequential) walk :: "route_node \<Rightarrow> string list \<Rightarrow> (string \<times> string) list \<Rightarrow> string
      \<Rightarrow> (route_node \<times> (string \<times> string) list) option"
and walk_literals :: "(segment_matcher \<times> route_node) list \<Rightarrow> string \<Rightarrow> string list
      \<Rightarrow> (string \<times> string) list \<Rightarrow> string \<Rightarrow> (route_node \<times> (string \<times> string) list) option"
and walk_params :: "(segment_matcher \<times> route_node) list \<Rightarrow> string \<Rightarrow> string list
      \<Rightarrow> (string \<times> string) list \<Rightarrow> string \<Rightarrow> (route_node \<times> (string \<times> string) list) option" where
  "walk (RouteNode ch ops) [] ps m =
     (if list_ex (\<lambda>(m', _). m' = m) ops then Some (RouteNode ch ops, ps) else None)"
| "walk (RouteNode ch ops) (h # t) ps m =
     (case walk_literals ch h t ps m of Some r \<Rightarrow> Some r | None \<Rightarrow> walk_params ch h t ps m)"
| "walk_literals [] h t ps m = None"
| "walk_literals ((s, c) # es) h t ps m =
     (case (if s = Literal h then walk c t ps m else None) of
        Some r \<Rightarrow> Some r
      | None \<Rightarrow> walk_literals es h t ps m)"
| "walk_params [] h t ps m = None"
| "walk_params ((s, c) # es) h t ps m =
     (case (case s of Param n \<Rightarrow> walk c t (bt_insert n h ps) m | Literal _ \<Rightarrow> None) of
        Some r \<Rightarrow> Some r
      | None \<Rightarrow> walk_params es h t ps m)"
  by pat_completeness auto

termination
  by (relation "measures
      [\<lambda>x. case x of
           Inl (n, segs, ps, m) \<Rightarrow> 2 * length segs
         | Inr (Inl (es, h, t, ps, m)) \<Rightarrow> 2 * length t + 1
         | Inr (Inr (es, h, t, ps, m)) \<Rightarrow> 2 * length t + 1,
       \<lambda>x. case x of
           Inl _ \<Rightarrow> 0
         | Inr (Inl (es, h, t, ps, m)) \<Rightarrow> length es
         | Inr (Inr (es, h, t, ps, m)) \<Rightarrow> length es]") auto

fun node_operations :: "route_node \<Rightarrow> (string \<times> nat) list" where
  "node_operations (RouteNode _ ops) = ops"

definition match_route :: "route_node \<Rightarrow> string \<Rightarrow> string \<Rightarrow> route_match option" where
  "match_route root_node m p =
     (case walk root_node (split_path p) [] m of
        None \<Rightarrow> None
      | Some (n, ps) \<Rightarrow>
          map_option (\<lambda>(_, i). \<lparr>operation_index = i, path_params = ps\<rparr>)
            (find (\<lambda>(m', _). m' = m) (node_operations n)))"

section \<open>The trie as a table\<close>

text \<open>
  What the router needs of a table of routes: inserting appends to what is stored under the key
  and leaves the other keys alone.
\<close>

locale route_table =
  fixes empty :: 'n
    and ins :: "'k \<Rightarrow> 'v \<Rightarrow> 'n \<Rightarrow> 'n"
    and at :: "'n \<Rightarrow> 'k \<Rightarrow> 'v list"
    and inv :: "'n \<Rightarrow> bool"
  assumes at_empty: "at empty k = []"
    and at_ins: "at (ins k v n) k' = (if k' = k then at n k @ [v] else at n k')"
    and inv_empty: "inv empty"
    and inv_ins: "inv n \<Longrightarrow> inv (ins k v n)"
begin

lemma at_foldl:
  "at (foldl (\<lambda>n x. ins (key x) (val x) n) n xs) k = at n k @ map val (filter (\<lambda>x. key x = k) xs)"
  by (induction xs arbitrary: n) (auto simp: at_ins)

lemma at_build:
  "at (foldl (\<lambda>n x. ins (key x) (val x) n) empty xs) k = map val (filter (\<lambda>x. key x = k) xs)"
  by (simp add: at_foldl at_empty)

lemma inv_build: "inv n \<Longrightarrow> inv (foldl (\<lambda>n x. ins (key x) (val x) n) n xs)"
  by (induction xs arbitrary: n) (auto simp: inv_ins)

end

fun ops_at :: "route_node \<Rightarrow> segment_matcher list \<Rightarrow> (string \<times> nat) list" where
  "ops_at (RouteNode ch ops) [] = ops"
| "ops_at (RouteNode ch ops) (s # ss) = (case map_of ch s of None \<Rightarrow> [] | Some c \<Rightarrow> ops_at c ss)"

fun wf_node :: "route_node \<Rightarrow> bool" where
  "wf_node (RouteNode ch ops) = (distinct (map fst ch) \<and> (\<forall>e\<in>set ch. wf_node (snd e)))"

lemma ops_at_empty: "ops_at (RouteNode [] []) ss = []"
  by (cases ss) auto

lemma ops_at_insert_route:
  "ops_at (insert_route ss m i n) ss' = (if ss' = ss then ops_at n ss @ [(m, i)] else ops_at n ss')"
  "(case map_of (insert_edge ss m i s ch) s' of None \<Rightarrow> [] | Some c \<Rightarrow> ops_at c ss') =
     (if s' = s \<and> ss' = ss then (case map_of ch s of None \<Rightarrow> [] | Some c \<Rightarrow> ops_at c ss) @ [(m, i)]
      else (case map_of ch s' of None \<Rightarrow> [] | Some c \<Rightarrow> ops_at c ss'))"
proof (induction ss m i n and ss m i s ch arbitrary: ss' and s' ss' rule: insert_route_insert_edge.induct)
  case (1 m i ch ops)
  then show ?case by (cases ss') auto
next
  case (2 s ss m i ch ops)
  then show ?case by (cases ss') auto
qed (auto simp: ops_at_empty split: option.split)

lemma insert_edge_keys:
  "map fst (insert_edge ss m i s ch) = (if s \<in> set (map fst ch) then map fst ch else map fst ch @ [s])"
proof (induction ch)
  case (Cons e ch)
  then show ?case by (cases e) simp
qed simp

lemma wf_insert_route:
  "wf_node n \<Longrightarrow> wf_node (insert_route ss m i n)"
  "\<forall>e\<in>set ch. wf_node (snd e) \<Longrightarrow> \<forall>e\<in>set (insert_edge ss m i s ch). wf_node (snd e)"
proof (induction ss m i n and ss m i s ch rule: insert_route_insert_edge.induct)
  case (2 s ss m i ch ops)
  then show ?case by (simp add: insert_edge_keys)
qed auto

interpretation rt: route_table empty_node "\<lambda>ss (m, i). insert_route ss m i" ops_at wf_node
  by unfold_locales
    (auto simp: empty_node_def ops_at_empty ops_at_insert_route wf_insert_route split: prod.split)

section \<open>What a walk finds\<close>

fun matches_path :: "segment_matcher list \<Rightarrow> string list \<Rightarrow> bool" where
  "matches_path [] [] = True"
| "matches_path (Literal l # ss) (h # t) = (l = h \<and> matches_path ss t)"
| "matches_path (Param n # ss) (h # t) = matches_path ss t"
| "matches_path _ _ = False"

fun bind_params ::
  "segment_matcher list \<Rightarrow> string list \<Rightarrow> (string \<times> string) list \<Rightarrow> (string \<times> string) list" where
  "bind_params (Param n # ss) (h # t) ps = bind_params ss t (bt_insert n h ps)"
| "bind_params (_ # ss) (_ # t) ps = bind_params ss t ps"
| "bind_params _ _ ps = ps"

text \<open>At the first segment where two templates differ, the other one has a parameter.\<close>

fun lit_le :: "segment_matcher list \<Rightarrow> segment_matcher list \<Rightarrow> bool" where
  "lit_le (s # ss) (t # ts) = (if s = t then lit_le ss ts else (\<exists>n. t = Param n))"
| "lit_le _ _ = True"

lemma walk_literals_Some:
  "walk_literals es h t ps m = Some r \<Longrightarrow> \<exists>c. (Literal h, c) \<in> set es \<and> walk c t ps m = Some r"
  by (induction es) (auto split: option.splits if_splits)

lemma walk_literals_None:
  "walk_literals es h t ps m = None \<Longrightarrow> (Literal h, c) \<in> set es \<Longrightarrow> walk c t ps m = None"
  by (induction es) (auto split: option.splits if_splits)

lemma walk_params_Some:
  "walk_params es h t ps m = Some r \<Longrightarrow>
     \<exists>n c. (Param n, c) \<in> set es \<and> walk c t (bt_insert n h ps) m = Some r"
  by (induction es) (auto split: option.splits segment_matcher.splits, blast+)

lemma walk_params_None:
  "walk_params es h t ps m = None \<Longrightarrow> (Param n, c) \<in> set es \<Longrightarrow> walk c t (bt_insert n h ps) m = None"
  by (induction es) (auto split: option.splits segment_matcher.splits)

lemma matches_path_Cons:
  "matches_path ss (h # t) \<Longrightarrow> \<exists>s ss'. ss = s # ss' \<and> (s = Literal h \<or> (\<exists>n. s = Param n)) \<and> matches_path ss' t"
  by (induction ss "h # t" rule: matches_path.induct) auto

abbreviation serves :: "route_node \<Rightarrow> segment_matcher list \<Rightarrow> string \<Rightarrow> bool" where
  "serves n ss m \<equiv> m \<in> fst ` set (ops_at n ss)"

lemma serves_Cons:
  "wf_node (RouteNode ch ops) \<Longrightarrow>
     serves (RouteNode ch ops) (s # ss) m \<longleftrightarrow> (\<exists>c. (s, c) \<in> set ch \<and> serves c ss m)"
  by (auto split: option.splits dest: map_of_SomeD)

lemma ops_at_Cons:
  "wf_node (RouteNode ch ops) \<Longrightarrow> (s, c) \<in> set ch \<Longrightarrow> ops_at (RouteNode ch ops) (s # ss) = ops_at c ss"
  by (simp add: map_of_is_SomeI)

lemma walk_None:
  "wf_node n \<Longrightarrow> walk n segs ps m = None \<Longrightarrow> matches_path ss segs \<Longrightarrow> \<not> serves n ss m"
proof (induction segs arbitrary: n ps ss)
  case Nil
  then show ?case by (cases n; cases ss) (auto simp: list_ex_iff split: if_splits)
next
  case (Cons h t)
  obtain ch ops where n: "n = RouteNode ch ops" by (cases n)
  obtain s ss' where ss: "ss = s # ss'" "s = Literal h \<or> (\<exists>n. s = Param n)" "matches_path ss' t"
    using matches_path_Cons [OF Cons.prems(3)] by blast
  have fails: "walk_literals ch h t ps m = None" "walk_params ch h t ps m = None"
    using Cons.prems(2) n by (auto split: option.splits)
  have "\<not> serves c ss' m" if edge: "(s, c) \<in> set ch" for c
  proof -
    have "wf_node c" using Cons.prems(1) n edge by auto
    moreover obtain ps' where "walk c t ps' m = None"
      using ss(2) walk_literals_None [OF fails(1)] walk_params_None [OF fails(2)] edge by blast
    ultimately show ?thesis using Cons.IH ss(3) by blast
  qed
  then show ?case using serves_Cons [of ch ops m s ss'] Cons.prems(1) n ss(1) by blast
qed

text \<open>The edge a successful walk took, and why a failed literal edge serves nothing.\<close>

lemma walk_edge:
  assumes "walk (RouteNode ch ops) (h # t) ps m = Some r"
  obtains s c ps1 where "(s, c) \<in> set ch" "walk c t ps1 m = Some r"
    "s = Literal h \<and> ps1 = ps \<or> (\<exists>k. s = Param k \<and> ps1 = bt_insert k h ps) \<and> walk_literals ch h t ps m = None"
proof (cases "walk_literals ch h t ps m")
  case None
  then have "walk_params ch h t ps m = Some r" using assms by simp
  from walk_params_Some [OF this] None that show thesis by blast
next
  case (Some r')
  then have "walk_literals ch h t ps m = Some r" using assms by simp
  from walk_literals_Some [OF this] that show thesis by blast
qed

lemma literal_edge_fails:
  assumes "wf_node (RouteNode ch ops)" and "walk_literals ch h t ps m = None" and "matches_path ss t"
  shows "\<not> serves (RouteNode ch ops) (Literal h # ss) m"
proof
  assume "serves (RouteNode ch ops) (Literal h # ss) m"
  then obtain c where c: "(Literal h, c) \<in> set ch" "serves c ss m" using serves_Cons [OF assms(1)] by blast
  moreover have "walk c t ps m = None" using walk_literals_None [OF assms(2) c(1)] .
  moreover have "wf_node c" using assms(1) c(1) by auto
  ultimately show False using walk_None assms(3) by blast
qed

lemma walk_Some:
  "wf_node n \<Longrightarrow> walk n segs ps m = Some (n', ps') \<Longrightarrow>
     \<exists>ss. matches_path ss segs \<and> ps' = bind_params ss segs ps \<and> node_operations n' = ops_at n ss \<and>
       serves n ss m \<and> (\<forall>ss'. matches_path ss' segs \<and> serves n ss' m \<longrightarrow> lit_le ss ss')"
proof (induction segs arbitrary: n ps)
  case Nil
  then show ?case
    by (cases n) (force simp: list_ex_iff split: if_splits intro: exI [of _ "[]"])
next
  case (Cons h t)
  obtain ch ops where n: "n = RouteNode ch ops" by (cases n)
  obtain s c ps1 where c: "(s, c) \<in> set ch" "walk c t ps1 m = Some (n', ps')"
    and s: "s = Literal h \<and> ps1 = ps \<or> (\<exists>k. s = Param k \<and> ps1 = bt_insert k h ps) \<and> walk_literals ch h t ps m = None"
    using walk_edge [of ch ops h t ps m] Cons.prems(2) n by metis
  have "wf_node c" using Cons.prems(1) n c(1) by auto
  from Cons.IH [OF this c(2)] obtain ss where ss: "matches_path ss t" "ps' = bind_params ss t ps1"
    "node_operations n' = ops_at c ss" "serves c ss m"
    "\<And>ss'. matches_path ss' t \<Longrightarrow> serves c ss' m \<Longrightarrow> lit_le ss ss'" by blast
  have at: "ops_at n (s # ss') = ops_at c ss'" for ss'
    using ops_at_Cons [of ch ops s c] Cons.prems(1) n c(1) by simp
  have "lit_le (s # ss) rs" if r: "matches_path rs (h # t)" "serves n rs m" for rs
  proof -
    obtain s' ss' where rs: "rs = s' # ss'" "s' = Literal h \<or> (\<exists>n. s' = Param n)" "matches_path ss' t"
      using matches_path_Cons [OF r(1)] by blast
    show ?thesis
    proof (cases "s' = s")
      case True
      then show ?thesis using ss(5) [OF rs(3)] r(2) at rs(1) by simp
    next
      case False
      have "s' \<noteq> Literal h"
        using False s r(2) rs(1,3) literal_edge_fails [of ch ops h t ps m ss'] Cons.prems(1) n by blast
      with rs(2) have "\<exists>n. s' = Param n" by blast
      then show ?thesis using False rs(1) by auto
    qed
  qed
  moreover have "matches_path (s # ss) (h # t)" "bind_params (s # ss) (h # t) ps = ps'"
    using s ss(1,2) by auto
  ultimately show ?case using at ss(3,4) by (intro exI [of _ "s # ss"]) simp
qed

section \<open>The router and the declared operations\<close>

abbreviation declares :: "(string \<times> string) list \<Rightarrow> string \<Rightarrow> string \<Rightarrow> nat \<Rightarrow> bool" where
  "declares ops m p i \<equiv> i < length ops \<and> fst (ops ! i) = m \<and>
     matches_path (parse_segments (snd (ops ! i))) (split_path p)"

lemma build_as_table:
  "build ops = foldl (\<lambda>n x. (case (fst (snd x), fst x) of (m, i) \<Rightarrow> insert_route (parse_segments (snd (snd x))) m i) n)
     empty_node (enumerate 0 ops)"
  by (simp add: build_def split_def)

lemma ops_at_build:
  "ops_at (build ops) ss =
     map (\<lambda>x. (fst (snd x), fst x)) (filter (\<lambda>x. parse_segments (snd (snd x)) = ss) (enumerate 0 ops))"
  unfolding build_as_table
  by (rule rt.at_build [where key = "\<lambda>x. parse_segments (snd (snd x))" and val = "\<lambda>x. (fst (snd x), fst x)"])

lemma wf_build: "wf_node (build ops)"
  unfolding build_as_table
  by (rule rt.inv_build [OF rt.inv_empty, where key = "\<lambda>x. parse_segments (snd (snd x))" and val = "\<lambda>x. (fst (snd x), fst x)"])

lemma ops_at_build_mem:
  "(m, i) \<in> set (ops_at (build ops) ss) \<longleftrightarrow>
     i < length ops \<and> fst (ops ! i) = m \<and> parse_segments (snd (ops ! i)) = ss"
  by (force simp: ops_at_build in_set_enumerate_eq image_iff)

lemma sorted_ops_at_build: "sorted (map snd (ops_at (build ops) ss))"
proof -
  have "sorted (map fst (enumerate 0 ops))" by simp
  then have "sorted (map fst (filter (\<lambda>x. parse_segments (snd (snd x)) = ss) (enumerate 0 ops)))"
    by (rule sorted_filter)
  then show ?thesis by (simp add: ops_at_build comp_def)
qed

lemma find_least:
  assumes "sorted (map snd xs)" "find P xs = Some x" "y \<in> set xs" "P y"
  shows "snd x \<le> snd y"
proof -
  obtain k where k: "k < length xs" "x = xs ! k" "\<forall>j<k. \<not> P (xs ! j)"
    using assms(2) by (auto simp: find_Some_iff)
  obtain l where l: "l < length xs" "y = xs ! l" using assms(3) by (auto simp: in_set_conv_nth)
  with k assms(4) have "k \<le> l" by (meson not_le)
  with assms(1) k l show ?thesis by (auto dest: sorted_nth_mono)
qed

lemma match_route_Some:
  assumes "match_route (build ops) m p = Some r"
  shows "declares ops m p (operation_index r)
    \<and> path_params r = bind_params (parse_segments (snd (ops ! operation_index r))) (split_path p) []
    \<and> (\<forall>j. declares ops m p j \<longrightarrow>
        lit_le (parse_segments (snd (ops ! operation_index r))) (parse_segments (snd (ops ! j)))
        \<and> (parse_segments (snd (ops ! j)) = parse_segments (snd (ops ! operation_index r)) \<longrightarrow> operation_index r \<le> j))"
proof -
  let ?n = "build ops" and ?P = "\<lambda>(m', _). m' = m"
  obtain n' ps where w: "walk ?n (split_path p) [] m = Some (n', ps)"
    and f: "map_option (\<lambda>(_, i). \<lparr>operation_index = i, path_params = ps\<rparr>) (find ?P (node_operations n')) = Some r"
    using assms by (auto simp: match_route_def split: option.splits)
  obtain ss where ss: "matches_path ss (split_path p)" "ps = bind_params ss (split_path p) []"
    "node_operations n' = ops_at ?n ss" and best: "\<And>ss'. matches_path ss' (split_path p) \<Longrightarrow> serves ?n ss' m \<Longrightarrow> lit_le ss ss'"
    using walk_Some [OF wf_build w] by blast
  obtain i where i: "find ?P (ops_at ?n ss) = Some (m, i)" and r: "r = \<lparr>operation_index = i, path_params = ps\<rparr>"
  proof -
    obtain x where x: "find ?P (ops_at ?n ss) = Some x" using f ss(3) by auto
    then have "fst x = m" by (auto simp: find_Some_iff)
    with x f ss(3) that show thesis by (cases x) auto
  qed
  then have "(m, i) \<in> set (ops_at ?n ss)" by (auto simp: find_Some_iff in_set_conv_nth)
  then have op: "i < length ops" "fst (ops ! i) = m" "parse_segments (snd (ops ! i)) = ss"
    by (simp_all add: ops_at_build_mem)
  have "lit_le ss (parse_segments (snd (ops ! j)))" if "declares ops m p j" for j
    using that ops_at_build_mem [of m j ops "parse_segments (snd (ops ! j))"] by (intro best) force+
  moreover have "i \<le> j" if "declares ops m p j" "parse_segments (snd (ops ! j)) = ss" for j
    using find_least [OF sorted_ops_at_build i, of "(m, j)"] that by (simp add: ops_at_build_mem)
  ultimately show ?thesis using op ss(1,2) r by simp
qed

lemma match_route_None:
  assumes "match_route (build ops) m p = None"
  shows "\<not> declares ops m p i"
proof -
  have "walk (build ops) (split_path p) [] m = None"
  proof (rule ccontr)
    assume "walk (build ops) (split_path p) [] m \<noteq> None"
    then obtain n' ps where w: "walk (build ops) (split_path p) [] m = Some (n', ps)" by auto
    with assms have "find (\<lambda>(m', _). m' = m) (node_operations n') = None" by (simp add: match_route_def)
    with walk_Some [OF wf_build w] show False by (force simp: find_None_iff)
  qed
  from walk_None [OF wf_build this] show ?thesis
    by (metis fst_conv image_eqI ops_at_build_mem)
qed

text \<open>
  The router answers exactly the declared operations: a request is refused if and only if no
  declared operation has its method and a template that matches its path. Backtracking loses none.
\<close>

theorem match_route_exact:
  "match_route (build ops) m p = None \<longleftrightarrow> (\<nexists>i. declares ops m p i)"
  using match_route_None [of ops m p] match_route_Some [of ops m p] by (metis not_Some_eq)

text \<open>
  C35. The router picks the best operation: the one it returns has the request's method and
  matches its path, the parameters are the path's segments under the template's names, every other
  matching operation has a parameter at the first segment where the templates differ (or the same
  template and a later declaration), so literal segments win over parameters from the left.
\<close>

theorem match_route_best:
  assumes "match_route (build ops) m p = Some r" and "i = operation_index r"
  shows "declares ops m p i
    \<and> path_params r = bind_params (parse_segments (snd (ops ! i))) (split_path p) []
    \<and> (\<forall>j. declares ops m p j \<longrightarrow>
        lit_le (parse_segments (snd (ops ! i))) (parse_segments (snd (ops ! j)))
        \<and> (parse_segments (snd (ops ! j)) = parse_segments (snd (ops ! i)) \<longrightarrow> i \<le> j))"
  using match_route_Some [OF assms(1)] unfolding assms(2) .

definition demo_operations :: "(string \<times> string) list" where
  "demo_operations = [(''GET'', ''/pets/{id}''), (''GET'', ''/pets/mine''), (''PUT'', ''/pets/{name}'')]"

theorem match_route_best_witness:
  "lit_le (parse_segments ''/pets/mine'') (parse_segments ''/pets/{id}'')"
proof -
  have "match_route (build demo_operations) ''GET'' ''/pets/mine'' = Some \<lparr>operation_index = 1, path_params = []\<rparr>"
    by code_simp
  from match_route_best [OF this refl] have "declares demo_operations ''GET'' ''/pets/mine'' 0 \<Longrightarrow>
    lit_le (parse_segments (snd (demo_operations ! 1))) (parse_segments (snd (demo_operations ! 0)))"
    by simp
  moreover have "declares demo_operations ''GET'' ''/pets/mine'' 0" by code_simp
  ultimately show ?thesis by (simp add: demo_operations_def)
qed

end
