(* ===== verification/Media.thy ===== *)
theory Media
  imports Json
begin

text \<open>
  Media-type classification and body encoding of \<open>specmock-runtime/src/http/media.rs\<close>. The
  JSON printer of \<open>serde_json\<close> is the parameter \<open>to_json\<close>. A reference reader for the XML subset
  shows that what is written can be read back.
\<close>

section \<open>Classification\<close>

definition normalize_media_type :: "string \<Rightarrow> string" where
  "normalize_media_type raw = to_ascii_lowercase (trim (hd (split_on CHR '';'' raw)))"

definition is_json_media_type :: "string \<Rightarrow> bool" where
  "is_json_media_type mt =
     (let n = normalize_media_type mt in n = ''application/json'' \<or> ends_with n ''+json'')"

definition is_xml_media_type :: "string \<Rightarrow> bool" where
  "is_xml_media_type mt =
     (let n = normalize_media_type mt in
      n = ''text/xml'' \<or> ends_with n ''+xml'' \<or> n = ''application/xml'' \<or> n = ''application/xhtml+xml'')"

definition is_text_media_type :: "string \<Rightarrow> bool" where
  "is_text_media_type mt =
     (if is_json_media_type mt \<or> is_xml_media_type mt then False
      else (let n = normalize_media_type mt in
        starts_with n ''text/'' \<or>
        n \<in> set [''application/javascript'', ''application/x-javascript'', ''application/ecmascript'',
          ''application/x-www-form-urlencoded'', ''application/yaml'', ''application/x-yaml'']))"

definition is_binary_media_type :: "string \<Rightarrow> bool" where
  "is_binary_media_type mt =
     (let n = normalize_media_type mt in
      starts_with n ''image/'' \<or> starts_with n ''audio/'' \<or> starts_with n ''video/'' \<or>
      n \<in> set [''application/octet-stream'', ''application/pdf'', ''application/zip'', ''application/gzip''])"

definition single_media_type_matches :: "string \<Rightarrow> string \<Rightarrow> bool" where
  "single_media_type_matches declared actual =
     (if declared = actual \<or> declared = ''*/*'' then True
      else case strip_suffix ''/*'' declared of
        Some p \<Rightarrow> (case strip_prefix p actual of Some s \<Rightarrow> CHR ''/'' \<in> set s | None \<Rightarrow> False)
      | None \<Rightarrow> actual = ''application/json'' \<and> starts_with declared ''application/'' \<and> ends_with declared ''+json'')"

definition media_type_is_accepted :: "string list \<Rightarrow> string \<Rightarrow> bool" where
  "media_type_is_accepted declared raw =
     (let actual = normalize_media_type raw in
      if actual = [] then False
      else list_ex (\<lambda>c. single_media_type_matches (normalize_media_type c) actual) declared)"

section \<open>XML\<close>

definition xml_root_name :: "value option \<Rightarrow> string" where
  "xml_root_name schema =
     (case schema of
        None \<Rightarrow> ''root''
      | Some s \<Rightarrow>
          (case Option.bind (Option.bind (get s ''xml'') (\<lambda>x. get x ''name'')) as_str of
             Some n \<Rightarrow> n
           | None \<Rightarrow> (case Option.bind (get s ''title'') as_str of Some n \<Rightarrow> n | None \<Rightarrow> ''root'')))"

definition scalar_text :: "(value \<Rightarrow> string) \<Rightarrow> value \<Rightarrow> string" where
  "scalar_text to_json v = (case v of Str t \<Rightarrow> t | Null \<Rightarrow> [] | _ \<Rightarrow> to_json v)"

definition escape_char :: "char \<Rightarrow> string" where
  "escape_char c =
     (if c = CHR ''&'' then ''&amp;''
      else if c = CHR ''<'' then ''&lt;''
      else if c = CHR ''>'' then ''&gt;''
      else if c = CHR 0x22 then ''&quot;''
      else if c = CHR 0x27 then ''&apos;''
      else [c])"

definition escape_xml_text :: "string \<Rightarrow> string" where
  "escape_xml_text t = concat (map escape_char t)"

definition name_start :: "char \<Rightarrow> bool" where
  "name_start c = (is_ascii_alphabetic c \<or> c = CHR ''_'')"

definition name_char :: "char \<Rightarrow> bool" where
  "name_char c = (is_ascii_alphanumeric c \<or> c \<in> set ''_-.'')"

fun sanitize_loop :: "string \<Rightarrow> string \<Rightarrow> string" where
  "sanitize_loop name [] = name"
| "sanitize_loop name (c # cs) =
     sanitize_loop
       (if name = [] then (if name_start c then name @ [c] else name)
        else if name_char c then name @ [c] else name) cs"

definition sanitize_xml_name :: "string \<Rightarrow> string" where
  "sanitize_xml_name raw = (let n = sanitize_loop [] raw in if n = [] then ''_'' else n)"

definition open_xml_element :: "string \<Rightarrow> string" where
  "open_xml_element name = ''<'' @ name @ ''>''"

definition close_xml_element :: "string \<Rightarrow> string" where
  "close_xml_element name = ''</'' @ name @ ''>''"

fun write_xml_element :: "(value \<Rightarrow> string) \<Rightarrow> string \<Rightarrow> value \<Rightarrow> string" where
  "write_xml_element to_json name (Object m) =
     open_xml_element name @ concat (map (\<lambda>kv. write_xml_element to_json (sanitize_xml_name (fst kv)) (snd kv)) m)
     @ close_xml_element name"
| "write_xml_element to_json name (Array xs) =
     open_xml_element name @ concat (map (write_xml_element to_json ''item'') xs) @ close_xml_element name"
| "write_xml_element to_json name v =
     open_xml_element name @ escape_xml_text (scalar_text to_json v) @ close_xml_element name"

definition json_to_xml :: "(value \<Rightarrow> string) \<Rightarrow> string \<Rightarrow> value \<Rightarrow> string" where
  "json_to_xml to_json root_name v = write_xml_element to_json (sanitize_xml_name root_name) v"

definition encode_body :: "(value \<Rightarrow> string) \<Rightarrow> string \<Rightarrow> value \<Rightarrow> value option \<Rightarrow> string" where
  "encode_body to_json mt v schema =
     (if is_json_media_type mt then to_json v
      else if is_xml_media_type mt then json_to_xml to_json (xml_root_name schema) v
      else case v of Str t \<Rightarrow> t | Null \<Rightarrow> [] | _ \<Rightarrow> to_json v)"

section \<open>Reading XML back\<close>

text \<open>The reverse of escaping; an entity that is not one of the five is no escaped text.\<close>

function unescape :: "string \<Rightarrow> string option" where
  "unescape s =
     (case s of
        [] \<Rightarrow> Some []
      | c # cs \<Rightarrow>
          if c \<noteq> CHR ''&'' then map_option ((#) c) (unescape cs)
          else (case split_once CHR '';'' cs of
                  None \<Rightarrow> None
                | Some (e, r) \<Rightarrow>
                    (case map_of [(''amp'', CHR ''&''), (''lt'', CHR ''<''), (''gt'', CHR ''>''),
                        (''quot'', CHR 0x22), (''apos'', CHR 0x27)] e of
                       None \<Rightarrow> None
                     | Some d \<Rightarrow> map_option ((#) d) (unescape r))))"
  by pat_completeness auto

termination
  by (relation "measure length") (auto simp: split_once_Some_iff)

declare unescape.simps [simp del]

lemma unescape_escape_char:
  "unescape (escape_char c @ s) = map_option ((#) c) (unescape s)"
  by (subst unescape.simps) (auto simp: escape_char_def)

lemma unescape_escape: "unescape (escape_xml_text t) = Some t"
  by (induction t) (simp_all add: escape_xml_text_def unescape.simps [of "[]"] unescape_escape_char)

interpretation xt: codec "\<lambda>_. True" escape_xml_text unescape
  by unfold_locales (rule unescape_escape)

lemma escape_no_markup: "CHR ''<'' \<notin> set (escape_xml_text t)" "CHR ''>'' \<notin> set (escape_xml_text t)"
  by (auto simp: escape_xml_text_def escape_char_def split: if_splits)

text \<open>The document a value stands for, and a reader of documents with bounded recursion.\<close>

datatype xml = Elem (xml_name: string) (xml_text: string) (xml_kids: "xml list")

fun xml_of :: "(value \<Rightarrow> string) \<Rightarrow> string \<Rightarrow> value \<Rightarrow> xml" where
  "xml_of to_json name (Object m) =
     Elem name [] (map (\<lambda>kv. xml_of to_json (sanitize_xml_name (fst kv)) (snd kv)) m)"
| "xml_of to_json name (Array xs) = Elem name [] (map (xml_of to_json ''item'') xs)"
| "xml_of to_json name v = Elem name (scalar_text to_json v) []"

fun xml_print :: "xml \<Rightarrow> string" where
  "xml_print (Elem name t kids) =
     open_xml_element name @ escape_xml_text t @ concat (map xml_print kids) @ close_xml_element name"

fun read_element :: "nat \<Rightarrow> string \<Rightarrow> (xml \<times> string) option"
and read_elements :: "nat \<Rightarrow> string \<Rightarrow> (xml list \<times> string) option" where
  "read_element 0 s = None"
| "read_element (Suc f) s =
     (case Option.bind (strip_prefix ''<'' s) (split_once CHR ''>'') of
        None \<Rightarrow> None
      | Some (name, s1) \<Rightarrow>
          (case unescape (takeWhile (\<lambda>c. c \<noteq> CHR ''<'') s1) of
             None \<Rightarrow> None
           | Some t \<Rightarrow>
               (case read_elements f (dropWhile (\<lambda>c. c \<noteq> CHR ''<'') s1) of
                  None \<Rightarrow> None
                | Some (kids, s2) \<Rightarrow>
                    map_option (\<lambda>r. (Elem name t kids, r)) (strip_prefix (close_xml_element name) s2))))"
| "read_elements 0 s = None"
| "read_elements (Suc f) s =
     (if starts_with s ''</'' then Some ([], s)
      else case read_element f s of
        None \<Rightarrow> None
      | Some (e, s1) \<Rightarrow> map_option (\<lambda>(es, r). (e # es, r)) (read_elements f s1))"

fun xml_depth :: "xml \<Rightarrow> nat" where
  "xml_depth (Elem _ _ kids) = Suc (Suc (length kids + sum_list (map xml_depth kids)))"

definition valid_name :: "string \<Rightarrow> bool" where
  "valid_name n \<longleftrightarrow> n \<noteq> [] \<and> name_start (hd n) \<and> list_all name_char (tl n)"

fun valid_names :: "xml \<Rightarrow> bool" where
  "valid_names (Elem n t kids) = (valid_name n \<and> (\<forall>k\<in>set kids. valid_names k))"

lemma name_start_char: "name_start c \<Longrightarrow> name_char c"
  by (auto simp: name_start_def name_char_def is_ascii_alphanumeric_def)

lemma valid_name_chars: "valid_name n \<Longrightarrow> CHR ''>'' \<notin> set n" "valid_name n \<Longrightarrow> hd n \<noteq> CHR ''/''"
proof -
  assume v: "valid_name n"
  then have "list_all name_char n"
    by (cases n) (auto simp: valid_name_def name_start_char)
  then show "CHR ''>'' \<notin> set n"
    by (auto simp: list_all_iff name_char_def is_ascii_alphanumeric_def is_ascii_alphabetic_def
        is_ascii_uppercase_def is_ascii_lowercase_def is_ascii_digit_def char_code_def)
  show "hd n \<noteq> CHR ''/''"
    using v by (auto simp: valid_name_def name_start_def is_ascii_alphabetic_def
        is_ascii_uppercase_def is_ascii_lowercase_def char_code_def)
qed

lemma sanitize_loop_valid: "valid_name n \<Longrightarrow> valid_name (sanitize_loop n cs)"
proof (induction cs arbitrary: n)
  case (Cons c cs)
  have "valid_name (n @ [c])" if "name_char c"
    using Cons.prems that by (cases n) (auto simp: valid_name_def)
  moreover have "n \<noteq> []" using Cons.prems by (auto simp: valid_name_def)
  ultimately show ?case using Cons by simp
qed simp

lemma sanitize_loop_Nil: "sanitize_loop [] cs = [] \<or> valid_name (sanitize_loop [] cs)"
proof (induction cs)
  case (Cons c cs)
  show ?case
  proof (cases "name_start c")
    case True
    then have "valid_name (sanitize_loop [c] cs)" by (intro sanitize_loop_valid) (simp add: valid_name_def)
    with True show ?thesis by simp
  qed (use Cons in simp)
qed simp

lemma sanitize_valid: "valid_name (sanitize_xml_name raw)"
  using sanitize_loop_Nil [of raw] by (auto simp: sanitize_xml_name_def Let_def valid_name_def name_start_def)

lemma xml_of_valid: "valid_name n \<Longrightarrow> valid_names (xml_of to_json n v)"
proof (induction to_json n v rule: xml_of.induct)
  case (2 to_json name xs)
  have "valid_name ''item''" by code_simp
  with 2 show ?case by simp
qed (auto simp: sanitize_valid)

lemma write_is_print: "write_xml_element to_json n v = xml_print (xml_of to_json n v)"
proof (induction to_json n v rule: xml_of.induct)
  case (1 to_json name m)
  then show ?case by (simp add: escape_xml_text_def comp_def cong: map_cong)
next
  case (2 to_json name xs)
  then show ?case by (simp add: escape_xml_text_def comp_def cong: map_cong)
qed simp_all

lemma takeWhile_text:
  assumes "CHR ''<'' \<notin> set t"
  shows "takeWhile (\<lambda>c. c \<noteq> CHR ''<'') (t @ CHR ''<'' # s) = t"
    and "dropWhile (\<lambda>c. c \<noteq> CHR ''<'') (t @ CHR ''<'' # s) = CHR ''<'' # s"
  using assms by (induction t) auto

lemma print_starts:
  assumes "valid_names e"
  shows "\<exists>s. xml_print e = CHR ''<'' # s \<and> \<not> starts_with (xml_print e @ r) ''</''"
proof -
  obtain n t kids where e: "e = Elem n t kids" by (cases e)
  with assms have "n \<noteq> []" "hd n \<noteq> CHR ''/''" using valid_name_chars(2) by (auto simp: valid_name_def)
  then show ?thesis by (cases n) (auto simp: e open_xml_element_def starts_with_def)
qed

lemma kids_start:
  assumes "\<forall>k\<in>set kids. valid_names k"
  shows "\<exists>s. concat (map xml_print kids) @ close_xml_element n @ r = CHR ''<'' # s"
proof (cases kids)
  case (Cons k ks)
  with print_starts [of k "[]"] assms show ?thesis by auto
qed (simp add: close_xml_element_def)

lemma read_element_step:
  assumes "valid_names (Elem n t kids)"
    and "read_elements f (concat (map xml_print kids) @ close_xml_element n @ r) = Some (kids, close_xml_element n @ r)"
  shows "read_element (Suc f) (xml_print (Elem n t kids) @ r) = Some (Elem n t kids, r)"
proof -
  have v: "valid_name n" "\<forall>k\<in>set kids. valid_names k" using assms(1) by auto
  obtain s where s: "concat (map xml_print kids) @ close_xml_element n @ r = CHR ''<'' # s"
    using kids_start [OF v(2)] by blast
  have print: "xml_print (Elem n t kids) @ r = ''<'' @ n @ CHR ''>'' # escape_xml_text t @ CHR ''<'' # s"
    using s by (simp add: open_xml_element_def)
  have "split_once CHR ''>'' (n @ CHR ''>'' # escape_xml_text t @ CHR ''<'' # s) = Some (n, escape_xml_text t @ CHR ''<'' # s)"
    by (rule split_once_append) (rule valid_name_chars [OF v(1)])
  moreover have "strip_prefix ''<'' (''<'' @ u) = Some u" "strip_prefix c (c @ u) = Some u" for u c
    by (simp_all add: strip_prefix_def)
  ultimately show ?thesis
    using assms(2) unfolding print s
    by (simp add: takeWhile_text escape_no_markup unescape_escape del: append.simps)
qed

lemma read_print:
  "(\<forall>e r. valid_names e \<and> xml_depth e \<le> f \<longrightarrow> read_element f (xml_print e @ r) = Some (e, r)) \<and>
   (\<forall>kids r. (\<forall>k\<in>set kids. valid_names k) \<and> Suc (length kids + sum_list (map xml_depth kids)) \<le> f \<and>
     starts_with r ''</'' \<longrightarrow> read_elements f (concat (map xml_print kids) @ r) = Some (kids, r))"
proof (induction f)
  case 0
  have "xml_depth e \<noteq> 0" for e by (cases e) simp
  then show ?case by auto
next
  case (Suc f)
  have "read_element (Suc f) (xml_print e @ r) = Some (e, r)" if "valid_names e" "xml_depth e \<le> Suc f" for e r
  proof -
    obtain n t kids where e: "e = Elem n t kids" by (cases e)
    have "starts_with (close_xml_element n @ r) ''</''" by (simp add: close_xml_element_def starts_with_def)
    with Suc that e have "read_elements f (concat (map xml_print kids) @ close_xml_element n @ r) =
      Some (kids, close_xml_element n @ r)" by simp
    with that(1) show ?thesis unfolding e by (rule read_element_step)
  qed
  moreover have "read_elements (Suc f) (concat (map xml_print kids) @ r) = Some (kids, r)"
    if "\<forall>k\<in>set kids. valid_names k" "Suc (length kids + sum_list (map xml_depth kids)) \<le> Suc f"
      "starts_with r ''</''" for kids r
  proof (cases kids)
    case (Cons k ks)
    with that have "read_element f (xml_print k @ concat (map xml_print ks) @ r) = Some (k, concat (map xml_print ks) @ r)"
      "read_elements f (concat (map xml_print ks) @ r) = Some (ks, r)"
      using Suc by simp_all
    moreover have "\<not> starts_with (xml_print k @ concat (map xml_print ks) @ r) ''</''"
      using print_starts [of k] that(1) Cons by auto
    ultimately show ?thesis using Cons by simp
  qed (use that in simp)
  ultimately show ?case by blast
qed

section \<open>Properties\<close>


end
