(* ===== verification/Openapi_Types.thy ===== *)
theory Openapi_Types
  imports Json
begin

text \<open>
  The operation model of \<open>specmock-runtime/src/http/openapi.rs\<close> and the request headers, shared
  by negotiation, the OpenAPI engine and the HTTP handler. HTTP methods are strings.
\<close>

section \<open>Headers\<close>

text \<open>
  A \<open>HeaderMap\<close> keeps its entries by lower-case name in the order of arrival; a lookup ignores
  case. A value is a byte string; \<open>to_str\<close> succeeds if every byte is a visible ASCII character,
  a space or a tab.
\<close>

type_synonym header_map = "(string \<times> string) list"

definition header_to_str :: "string \<Rightarrow> string option" where
  "header_to_str v =
     (if list_all (\<lambda>c. 32 \<le> char_code c \<and> char_code c < 127 \<or> char_code c = 9) v then Some v else None)"

definition header_get :: "header_map \<Rightarrow> string \<Rightarrow> string option" where
  "header_get hm name = map_of hm (to_ascii_lowercase name)"

definition header_get_all :: "header_map \<Rightarrow> string \<Rightarrow> string list" where
  "header_get_all hm name = map snd (filter (\<lambda>(n, _). n = to_ascii_lowercase name) hm)"

definition header_str :: "header_map \<Rightarrow> string \<Rightarrow> string option" where
  "header_str hm name = Option.bind (header_get hm name) header_to_str"

section \<open>Operations\<close>

datatype parameter_in = Path | Query | Header

record parameter_spec =
  param_name :: string
  param_location :: parameter_in
  param_required :: bool
  param_schema :: "value"

record callback_spec =
  callback_url_expression :: string
  callback_method :: string
  callback_schema :: "value option"

record media_type_spec =
  media_name :: string
  media_schema :: "value option"
  media_example :: "value option"
  named_examples :: "(string \<times> value) list"

record response_header_spec =
  header_schema :: "value option"
  header_example :: "value option"

record response_spec =
  response_status :: string
  content :: "media_type_spec list"
  response_headers :: "(string \<times> response_header_spec) list"

record operation_spec =
  op_method :: string
  path_template :: string
  operation_id :: "string option"
  parameters :: "parameter_spec list"
  request_body_schema :: "value option"
  request_body_required :: bool
  request_body_media_types :: "string list"
  op_responses :: "response_spec list"
  callbacks :: "callback_spec list"

record mock_http_response =
  mock_status :: nat
  mock_media_type :: "string option"
  mock_schema :: "value option"
  mock_body :: "value option"
  mock_headers :: "(string \<times> string) list"

end
