(* ===== verification/Negotiate.thy ===== *)
theory Negotiate
  imports Openapi_Types
begin

text \<open>
  Content negotiation of \<open>specmock-runtime/src/http/negotiate.rs\<close>: the \<open>Prefer\<close> directives, the
  \<open>Accept\<close> header with its \<open>f32\<close> qualities, the choice of a response and of a media type.
\<close>

section \<open>The Prefer header\<close>

record prefer_directives =
  prefer_code :: "nat option"
  prefer_example :: "string option"
  prefer_media_type :: "string option"
  prefer_dynamic :: bool
  prefer_scenario :: "string option"
  prefer_session :: "string option"

definition default_directives :: prefer_directives where
  "default_directives =
     \<lparr>prefer_code = None, prefer_example = None, prefer_media_type = None, prefer_dynamic = False,
      prefer_scenario = None, prefer_session = None\<rparr>"

definition parse_prefer_segment :: "string \<Rightarrow> prefer_directives \<Rightarrow> prefer_directives" where
  "parse_prefer_segment seg d =
     (case split_once CHR ''='' (trim seg) of
        None \<Rightarrow> d
      | Some (k, v) \<Rightarrow>
          (let k = trim k; v = trim v in
           if k = ''code'' then d\<lparr>prefer_code := parse_unsigned u16_max v\<rparr>
           else if k = ''scenario'' \<and> v \<noteq> [] then d\<lparr>prefer_scenario := Some v\<rparr>
           else if k = ''session'' \<and> v \<noteq> [] then d\<lparr>prefer_session := Some v\<rparr>
           else if k = ''example'' \<and> v \<noteq> [] then d\<lparr>prefer_example := Some v\<rparr>
           else if k = ''dynamic'' then d\<lparr>prefer_dynamic := eq_ignore_ascii_case v ''true''\<rparr>
           else d))"

definition parse_prefer_value :: "string \<Rightarrow> prefer_directives \<Rightarrow> prefer_directives" where
  "parse_prefer_value t d = fold parse_prefer_segment (split_on CHR '','' t) d"

section \<open>The Accept header\<close>

record media_entry =
  entry_media_type :: string
  quality :: flt

definition quality_of :: "string \<Rightarrow> flt" where
  "quality_of params =
     (case List.map_filter
         (\<lambda>part. Option.bind (strip_prefix ''q='' (trim part)) (\<lambda>q. parse_float binary32 (trim q)))
         (split_on CHR '';'' params @ [params]) of
        [] \<Rightarrow> Finite 1
      | q # _ \<Rightarrow> q)"

definition media_entry_of :: "string \<Rightarrow> media_entry option" where
  "media_entry_of seg =
     (let s = trim seg in
      if s = [] then None
      else (case (case split_once CHR '';'' s of Some r \<Rightarrow> r | None \<Rightarrow> (s, [])) of
              (mt, params) \<Rightarrow> Some \<lparr>entry_media_type = trim mt, quality = quality_of params\<rparr>))"

text \<open>
  \<open>sort_by\<close> with the qualities in reverse is a stable sort; it is written as an insertion sort.
  The comparison is an order as long as no quality is NaN.
\<close>

fun insert_entry :: "media_entry \<Rightarrow> media_entry list \<Rightarrow> media_entry list" where
  "insert_entry e [] = [e]"
| "insert_entry e (x # xs) =
     (if float_less (quality e) (quality x) then x # insert_entry e xs else e # x # xs)"

definition sort_entries :: "media_entry list \<Rightarrow> media_entry list" where
  "sort_entries es = foldr insert_entry es []"

definition accept_entries :: "string \<Rightarrow> media_entry list" where
  "accept_entries accept = List.map_filter media_entry_of (split_on CHR '','' accept)"

definition best_media_type :: "string \<Rightarrow> string option" where
  "best_media_type accept =
     find (\<lambda>mt. mt \<noteq> ''*/*'') (map entry_media_type (sort_entries (accept_entries accept)))"

definition from_headers :: "header_map \<Rightarrow> prefer_directives" where
  "from_headers hm =
     (let d = fold (\<lambda>v d. case header_to_str v of Some t \<Rightarrow> parse_prefer_value t d | None \<Rightarrow> d)
                (header_get_all hm ''prefer'') default_directives
      in case header_str hm ''accept'' of
           Some accept \<Rightarrow> d\<lparr>prefer_media_type := best_media_type accept\<rparr>
         | None \<Rightarrow> d)"

section \<open>Choosing a response and a media type\<close>

definition select_response :: "response_spec list \<Rightarrow> prefer_directives \<Rightarrow> response_spec option" where
  "select_response rs p =
     (case prefer_code p of
        Some c \<Rightarrow> find (\<lambda>r. response_status r = nat_to_string c) rs
      | None \<Rightarrow>
          (case find (\<lambda>r. response_status r = ''200'') rs of
             Some r \<Rightarrow> Some r
           | None \<Rightarrow>
               (case find (\<lambda>r. starts_with (response_status r) ''2'') rs of
                  Some r \<Rightarrow> Some r
                | None \<Rightarrow>
                    (case find (\<lambda>r. response_status r = ''default'') rs of
                       Some r \<Rightarrow> Some r
                     | None \<Rightarrow> (case rs of [] \<Rightarrow> None | r # _ \<Rightarrow> Some r)))))"

fun first_available :: "string list \<Rightarrow> media_entry list \<Rightarrow> string option" where
  "first_available avail [] = None"
| "first_available avail (e # es) =
     (if entry_media_type e = ''*/*'' then (case avail of [] \<Rightarrow> None | a # _ \<Rightarrow> Some a)
      else if entry_media_type e \<in> set avail then Some (entry_media_type e)
      else first_available avail es)"

definition negotiate_media_type :: "string list \<Rightarrow> string option \<Rightarrow> string option" where
  "negotiate_media_type avail accept =
     (case accept of
        None \<Rightarrow> (case avail of [] \<Rightarrow> None | a # _ \<Rightarrow> Some a)
      | Some t \<Rightarrow> first_available avail (sort_entries (accept_entries t)))"

section \<open>The order of the entries\<close>

abbreviation no_nan :: "media_entry list \<Rightarrow> bool" where
  "no_nan es \<equiv> \<forall>e\<in>set es. quality e \<noteq> NaN"

lemma set_insert_entry [simp]: "set (insert_entry e es) = insert e (set es)"
  by (induction es) auto

lemma set_sort_entries [simp]: "set (sort_entries es) = set es"
  by (induction es) (auto simp: sort_entries_def)

lemma float_less_asym: "float_less x y \<Longrightarrow> \<not> float_less y x"
  using float_less_trans float_less_irrefl by blast

lemma sorted_insert_entry:
  "sorted_wrt (\<lambda>a b. \<not> float_less (quality a) (quality b)) es \<Longrightarrow> no_nan (e # es) \<Longrightarrow>
     sorted_wrt (\<lambda>a b. \<not> float_less (quality a) (quality b)) (insert_entry e es)"
proof (induction es)
  case (Cons x xs)
  show ?case
  proof (cases "float_less (quality e) (quality x)")
    case True
    with Cons show ?thesis by (auto dest: float_less_asym)
  next
    case False
    with Cons.prems float_less_total [of "quality x" "quality e"] show ?thesis by auto
  qed
qed simp

lemma sorted_sort_entries:
  "no_nan es \<Longrightarrow> sorted_wrt (\<lambda>a b. \<not> float_less (quality a) (quality b)) (sort_entries es)"
proof (induction es)
  case (Cons e es)
  then have "no_nan (e # sort_entries es)" by simp
  with Cons sorted_insert_entry [of "sort_entries es" e] show ?case by (simp add: sort_entries_def)
qed (simp add: sort_entries_def)

definition usable :: "string list \<Rightarrow> media_entry \<Rightarrow> bool" where
  "usable avail e \<longleftrightarrow> entry_media_type e = ''*/*'' \<or> entry_media_type e \<in> set avail"

lemma first_available_spec:
  assumes "avail \<noteq> []"
  shows "first_available avail es =
    map_option (\<lambda>e. if entry_media_type e = ''*/*'' then hd avail else entry_media_type e) (find (usable avail) es)"
  using assms by (induction es) (auto simp: usable_def split: list.splits)

lemma find_sorted_best:
  "sorted_wrt (\<lambda>a b. \<not> float_less (quality a) (quality b)) es \<Longrightarrow> find P es = Some e \<Longrightarrow>
     x \<in> set es \<Longrightarrow> P x \<Longrightarrow> \<not> float_less (quality e) (quality x)"
  by (induction es) (auto split: if_splits)

section \<open>Properties\<close>

text \<open>
  C39. Negotiation is exact: with a declared media type, a request is refused if and only if no
  entry of its \<open>Accept\<close> header is declared or \<open>*/*\<close>; otherwise the answer is a declared type, named
  by an entry (or the first declared one for \<open>*/*\<close>) such that no usable entry has a higher quality.
\<close>

theorem negotiate_exact:
  assumes "avail \<noteq> []" and "no_nan (accept_entries accept)"
  shows "case negotiate_media_type avail (Some accept) of
      None \<Rightarrow> \<not> (\<exists>e\<in>set (accept_entries accept). usable avail e)
    | Some mt \<Rightarrow> mt \<in> set avail \<and>
        (\<exists>e\<in>set (accept_entries accept). usable avail e \<and>
          mt = (if entry_media_type e = ''*/*'' then hd avail else entry_media_type e) \<and>
          (\<forall>x\<in>set (accept_entries accept). usable avail x \<longrightarrow> \<not> float_less (quality e) (quality x)))"
proof (cases "find (usable avail) (sort_entries (accept_entries accept))")
  case None
  then have "\<not> (\<exists>e\<in>set (accept_entries accept). usable avail e)" by (simp add: find_None_iff)
  with None show ?thesis by (simp add: negotiate_media_type_def first_available_spec [OF assms(1)])
next
  case (Some e)
  then have e: "e \<in> set (accept_entries accept)" "usable avail e"
    by (auto dest!: find_Some_mem)
  have "\<not> float_less (quality e) (quality x)" if "x \<in> set (accept_entries accept)" "usable avail x" for x
    using find_sorted_best [OF sorted_sort_entries [OF assms(2)] Some, of x] that by simp
  with Some e assms(1) show ?thesis
    by (auto simp: negotiate_media_type_def first_available_spec [OF assms(1)] usable_def intro!: bexI [of _ e])
qed

theorem negotiate_exact_witness:
  "\<not> (\<exists>e\<in>set (accept_entries ''text/plain;q=0.5''). usable [''application/json''] e)"
proof -
  have "no_nan (accept_entries ''text/plain;q=0.5'')" by code_simp
  moreover have "negotiate_media_type [''application/json''] (Some ''text/plain;q=0.5'') = None" by code_simp
  ultimately show ?thesis
    using negotiate_exact [of "[''application/json'']" "''text/plain;q=0.5''"] by simp
qed

text \<open>
  A request handler sees less than the \<open>Accept\<close> header: \<open>from_headers\<close> keeps only its best
  media type, so a header whose second choice is declared is negotiated as unacceptable, although
  negotiation on the header itself finds the declared type.
\<close>

lemma accept_second_choice_lost:
  "negotiate_media_type [''application/json''] (Some ''text/foo, application/json'') = Some ''application/json'' \<and>
   negotiate_media_type [''application/json'']
     (prefer_media_type (from_headers [(''accept'', ''text/foo, application/json'')])) = None"
  by code_simp

end
