(* ===== verification/Openapi.thy ===== *)
theory Openapi
  imports Runtime_Base Ref_Resolver Router Media Negotiate
begin

text \<open>
  The OpenAPI engine of \<open>specmock-runtime/src/http/openapi.rs\<close>: parsing a resolved document into
  operations, request validation, and mock responses. Parameters: the random-number library
  (through a \<open>generator\<close>), \<open>validate_instance\<close> (whose cache \<open>Validate\<close> shows to be transparent) and
  the JSON printer.
\<close>

section \<open>Schema normalisation\<close>

definition METHODS :: "string list" where
  "METHODS = [''get'', ''post'', ''put'', ''patch'', ''delete'', ''head'', ''options'', ''trace'']"

definition nullable_type :: "value \<Rightarrow> value" where
  "nullable_type t =
     (case t of
        Str s \<Rightarrow> Array [Str s, Str ''null'']
      | Array ts \<Rightarrow> if Str ''null'' \<in> set ts then Array ts else Array (ts @ [Str ''null''])
      | _ \<Rightarrow> t)"

definition nullable_step :: "bool \<Rightarrow> (string \<times> value) list \<Rightarrow> (string \<times> value) list" where
  "nullable_step use_nullable m =
     (case map_of m ''type'' of
        Some t \<Rightarrow>
          if use_nullable \<and> Option.bind (map_of m ''nullable'') as_bool = Some True
          then bt_remove ''nullable'' (map (\<lambda>(k, v). (k, if k = ''type'' then nullable_type v else v)) m)
          else m
      | None \<Rightarrow> m)"

lemma object_member_size: "kv \<in> set m \<Longrightarrow> size (snd kv) < size (Object m)"
  by (cases kv) (force intro: le_imp_less_Suc size_list_estimation')

lemma array_member_size: "x \<in> set xs \<Longrightarrow> size x < size (Array xs)"
  by (simp add: le_imp_less_Suc size_list_estimation')

function normalize_schema :: "bool \<Rightarrow> value \<Rightarrow> value" where
  "normalize_schema b v =
     (case v of
        Object m \<Rightarrow>
          Object (nullable_step b
            (map (\<lambda>kv. (fst kv,
                if fst kv \<in> set [''properties'', ''$defs'', ''definitions''] then
                  (case snd kv of
                     Object ps \<Rightarrow> Object (map (\<lambda>kw. (fst kw, normalize_schema b (snd kw))) ps)
                   | w \<Rightarrow> w)
                else if fst kv \<in> set [''items'', ''additionalProperties'', ''not''] then normalize_schema b (snd kv)
                else if fst kv \<in> set [''allOf'', ''anyOf'', ''oneOf''] then
                  (case snd kv of Array xs \<Rightarrow> Array (map (normalize_schema b) xs) | w \<Rightarrow> w)
                else snd kv)) m))
      | _ \<Rightarrow> v)"
  by pat_completeness auto

termination
proof (relation "measure (\<lambda>(b, v). size v)", goal_cases)
  case (2 b v m kv ps kw)
  then have "size (snd kw) < size (snd kv)" "size (snd kv) < size v"
    using object_member_size by metis+
  then show ?case by simp
next
  case (3 b v m kv)
  then show ?case using object_member_size by simp
next
  case (4 b v m kv xs x)
  then have "size x < size (snd kv)" "size (snd kv) < size v"
    using object_member_size array_member_size by metis+
  then show ?case by simp
qed simp

declare normalize_schema.simps [simp del]

definition normalized_object :: "string \<Rightarrow> (string \<times> value) list \<Rightarrow> value" where
  "normalized_object oas m = normalize_schema (starts_with oas ''3.0'') (Object m)"

section \<open>Parsing\<close>

definition location_of :: "string \<Rightarrow> parameter_in option" where
  "location_of s =
     (if s = ''path'' then Some Path else if s = ''query'' then Some Query
      else if s = ''header'' then Some Header else None)"

definition parse_parameter :: "string \<Rightarrow> value \<Rightarrow> parameter_spec option" where
  "parse_parameter oas node =
     Option.bind (as_object node) (\<lambda>obj.
     Option.bind (Option.bind (map_of obj ''name'') as_str) (\<lambda>name.
     Option.bind (Option.bind (Option.bind (map_of obj ''in'') as_str) location_of) (\<lambda>loc.
       Some \<lparr>param_name = name, param_location = loc,
         param_required = (opt_default False (Option.bind (map_of obj ''required'') as_bool) \<or> loc = Path),
         param_schema = normalized_object oas (opt_default [] (Option.bind (map_of obj ''schema'') as_object))\<rparr>)))"

definition parse_parameters :: "value option \<Rightarrow> string \<Rightarrow> parameter_spec list" where
  "parse_parameters node oas =
     (case Option.bind node as_array of
        None \<Rightarrow> []
      | Some xs \<Rightarrow> List.map_filter (parse_parameter oas) xs)"

definition merge_parameters :: "parameter_spec list \<Rightarrow> parameter_spec list \<Rightarrow> parameter_spec list" where
  "merge_parameters inherited own =
     foldl (\<lambda>ps p. filter (\<lambda>q. param_location q \<noteq> param_location p \<or> param_name q \<noteq> param_name p) ps @ [p])
       inherited own"

record request_body_spec =
  body_schema :: "value option"
  body_required :: bool
  body_media_types :: "string list"

definition parse_request_body :: "(string \<times> value) list \<Rightarrow> string \<Rightarrow> request_body_spec" where
  "parse_request_body op oas =
     (case Option.bind (map_of op ''requestBody'') as_object of
        None \<Rightarrow> \<lparr>body_schema = None, body_required = False, body_media_types = []\<rparr>
      | Some rb \<Rightarrow>
          (let req = opt_default False (Option.bind (map_of rb ''required'') as_bool) in
           case Option.bind (map_of rb ''content'') as_object of
             None \<Rightarrow> \<lparr>body_schema = None, body_required = req, body_media_types = []\<rparr>
           | Some cs \<Rightarrow>
               \<lparr>body_schema =
                  map_option (normalized_object oas)
                    (Option.bind (Option.bind (map_of cs ''application/json'') as_object)
                      (\<lambda>mt. Option.bind (map_of mt ''schema'') as_object)),
                body_required = req, body_media_types = map fst cs\<rparr>))"

definition parse_media_type_examples ::
  "(string \<times> value) list \<Rightarrow> value option \<times> (string \<times> value) list" where
  "parse_media_type_examples mt =
     (let named =
        (case Option.bind (map_of mt ''examples'') as_object of
           None \<Rightarrow> []
         | Some es \<Rightarrow> bt_of_list (map (\<lambda>(n, e). (n, opt_default e (get e ''value''))) es))
      in (case map_of mt ''example'' of
            Some e \<Rightarrow> Some e
          | None \<Rightarrow> (case named of [] \<Rightarrow> None | (_, e) # _ \<Rightarrow> Some e), named))"

definition parse_media_type :: "string \<Rightarrow> string \<times> value \<Rightarrow> media_type_spec option" where
  "parse_media_type oas nv =
     map_option
       (\<lambda>mt. \<lparr>media_name = fst nv,
          media_schema = map_option (normalized_object oas) (Option.bind (map_of mt ''schema'') as_object),
          media_example = fst (parse_media_type_examples mt),
          named_examples = snd (parse_media_type_examples mt)\<rparr>)
       (as_object (snd nv))"

definition parse_response_header :: "string \<Rightarrow> string \<times> value \<Rightarrow> (string \<times> response_header_spec) option" where
  "parse_response_header oas nv =
     map_option
       (\<lambda>h. (fst nv,
          \<lparr>header_schema = map_option (normalized_object oas) (Option.bind (map_of h ''schema'') as_object),
           header_example =
             (case map_of h ''example'' of
                Some e \<Rightarrow> Some e
              | None \<Rightarrow>
                  (case Option.bind (map_of h ''examples'') as_object of
                     Some ((_, e) # _) \<Rightarrow> get e ''value''
                   | _ \<Rightarrow> None))\<rparr>))
       (as_object (snd nv))"

definition parse_response_headers ::
  "(string \<times> value) list \<Rightarrow> string \<Rightarrow> (string \<times> response_header_spec) list" where
  "parse_response_headers resp oas =
     (case Option.bind (map_of resp ''headers'') as_object of
        None \<Rightarrow> []
      | Some hs \<Rightarrow> bt_of_list (List.map_filter (parse_response_header oas) hs))"

text \<open>\<open>sort_by_key\<close> on a boolean is stable: the JSON family first, each part in its order.\<close>

definition json_first :: "media_type_spec list \<Rightarrow> media_type_spec list" where
  "json_first ms = filter (\<lambda>m. is_json_media_type (media_name m)) ms
     @ filter (\<lambda>m. \<not> is_json_media_type (media_name m)) ms"

definition parse_response :: "string \<Rightarrow> string \<times> value \<Rightarrow> response_spec option" where
  "parse_response oas nv =
     map_option
       (\<lambda>resp. \<lparr>response_status = fst nv,
          content = json_first
            (case Option.bind (map_of resp ''content'') as_object of
               None \<Rightarrow> []
             | Some cs \<Rightarrow> List.map_filter (parse_media_type oas) cs),
          response_headers = parse_response_headers resp oas\<rparr>)
       (as_object (snd nv))"

definition parse_responses :: "(string \<times> value) list \<Rightarrow> string \<Rightarrow> response_spec list" where
  "parse_responses op oas =
     (case Option.bind (map_of op ''responses'') as_object of
        None \<Rightarrow> []
      | Some rs \<Rightarrow> List.map_filter (parse_response oas) rs)"

definition callback_body_schema :: "string \<Rightarrow> (string \<times> value) list \<Rightarrow> value option" where
  "callback_body_schema oas op =
     map_option (normalized_object oas)
       (Option.bind (Option.bind (Option.bind (Option.bind (Option.bind
          (map_of op ''requestBody'') (\<lambda>rb. get rb ''content'')) as_object)
          (\<lambda>cs. Option.bind (map_of cs ''application/json'') as_object))
          (\<lambda>mt. map_of mt ''schema'')) as_object)"

definition parse_callbacks :: "(string \<times> value) list \<Rightarrow> string \<Rightarrow> callback_spec list" where
  "parse_callbacks op oas =
     (case Option.bind (map_of op ''callbacks'') as_object of
        None \<Rightarrow> []
      | Some cbs \<Rightarrow>
          [\<lparr>callback_url_expression = url, callback_method = to_ascii_uppercase m,
             callback_schema = callback_body_schema oas cop\<rparr>.
           (_, cb) \<leftarrow> cbs, (url, item) \<leftarrow> opt_default [] (as_object cb),
           m \<leftarrow> METHODS, cop \<leftarrow> (case Option.bind (Option.bind (as_object item) (\<lambda>it. map_of it m)) as_object of
             Some c \<Rightarrow> [c] | None \<Rightarrow> [])])"

definition parse_operation ::
  "string \<Rightarrow> string \<Rightarrow> parameter_spec list \<Rightarrow> string \<Rightarrow> (string \<times> value) list \<Rightarrow> operation_spec" where
  "parse_operation oas template inherited m op =
     (let rb = parse_request_body op oas in
      \<lparr>op_method = to_ascii_uppercase m, path_template = template,
       operation_id = Option.bind (map_of op ''operationId'') as_str,
       parameters = merge_parameters inherited (parse_parameters (map_of op ''parameters'') oas),
       request_body_schema = body_schema rb, request_body_required = body_required rb,
       request_body_media_types = body_media_types rb,
       op_responses = parse_responses op oas, callbacks = parse_callbacks op oas\<rparr>)"

record openapi_runtime =
  api_operations :: "operation_spec list"
  api_router :: route_node

definition from_resolved :: "value \<Rightarrow> runtime_error + openapi_runtime" where
  "from_resolved doc =
     (case Option.bind (get doc ''openapi'') as_str of
        None \<Rightarrow> Inl (ParseError ''openapi version field missing'')
      | Some oas \<Rightarrow>
          if \<not> (starts_with oas ''3.0'' \<or> starts_with oas ''3.1'')
          then Inl (ParseError (''unsupported openapi version: '' @ oas @ '', expected 3.0.x or 3.1.x''))
          else
            (case Option.bind (get doc ''paths'') as_object of
               None \<Rightarrow> Inl (ParseError ''openapi paths object missing'')
             | Some paths \<Rightarrow>
                 (let ops =
                    [parse_operation oas template (parse_parameters (map_of item ''parameters'') oas) m op.
                     (template, node) \<leftarrow> paths, item \<leftarrow> (case as_object node of Some it \<Rightarrow> [it] | None \<Rightarrow> []),
                     m \<leftarrow> METHODS, op \<leftarrow> (case Option.bind (map_of item m) as_object of Some op \<Rightarrow> [op] | None \<Rightarrow> [])]
                  in Inr \<lparr>api_operations = ops,
                      api_router = build (map (\<lambda>op. (op_method op, path_template op)) ops)\<rparr>)))"

definition from_path :: "filesystem \<Rightarrow> path \<Rightarrow> runtime_error + openapi_runtime" where
  "from_path fs p =
     (let r = ref_resolver_new fs (opt_default ''.'' (path_parent p)) in
      case fst (resolve fs p r) of
        Inl e \<Rightarrow> Inl (ParseError (core_error_display e))
      | Inr doc \<Rightarrow> from_resolved doc)"

definition match_operation ::
  "openapi_runtime \<Rightarrow> string \<Rightarrow> string \<Rightarrow> (operation_spec \<times> (string \<times> string) list) option" where
  "match_operation api m p =
     map_option (\<lambda>r. (api_operations api ! operation_index r, path_params r)) (match_route (api_router api) m p)"

definition shadowed_path :: "openapi_runtime \<Rightarrow> string \<Rightarrow> string option" where
  "shadowed_path api p =
     (case match_route (api_router api) ''GET'' p of
        None \<Rightarrow> None
      | Some r \<Rightarrow>
          if operation_index r < length (api_operations api)
          then Some (path_template (api_operations api ! operation_index r)) else None)"

section \<open>Request validation\<close>

type_synonym validator = "value \<Rightarrow> value \<Rightarrow> core_error + validation_issue list"

definition schema_type_is_array :: "value \<Rightarrow> bool" where
  "schema_type_is_array schema =
     (case get schema ''type'' of
        Some (Str t) \<Rightarrow> t = ''array''
      | Some (Array ts) \<Rightarrow> list_ex (\<lambda>t. as_str t = Some ''array'') ts
      | _ \<Rightarrow> False)"

definition inferred_type :: "value \<Rightarrow> string" where
  "inferred_type schema =
     opt_default ''string''
       (Option.bind (get schema ''type'')
         (\<lambda>t. case as_str t of
                Some s \<Rightarrow> Some s
              | None \<Rightarrow>
                  (case map_option (List.map_filter as_str) (as_array t) of
                     Some (s # _) \<Rightarrow> Some s
                   | _ \<Rightarrow> None)))"

definition parse_parameter_value :: "string \<Rightarrow> value \<Rightarrow> value" where
  "parse_parameter_value raw schema =
     (let t = inferred_type schema in
      if t = ''integer'' then (case parse_i64 raw of Some n \<Rightarrow> value_of_i64 n | None \<Rightarrow> Str raw)
      else if t = ''number'' then (case parse_float binary64 raw of Some x \<Rightarrow> value_of_f64 x | None \<Rightarrow> Str raw)
      else if t = ''boolean'' then (if raw = ''true'' then Bool True else if raw = ''false'' then Bool False else Str raw)
      else Str raw)"

definition missing_parameter :: "string \<Rightarrow> validation_issue" where
  "missing_parameter name =
     \<lparr>instance_pointer = ''/'' @ name, schema_pointer = ''#/parameters'', keyword = ''required'',
      message = ''missing required parameter '' @ quoted name\<rparr>"

definition parameter_issues :: "validator \<Rightarrow> parameter_spec \<Rightarrow> value \<Rightarrow> validation_issue list" where
  "parameter_issues vi p v =
     (case vi (param_schema p) v of
        Inr issues \<Rightarrow> issues
      | Inl e \<Rightarrow>
          [\<lparr>instance_pointer = ''/'' @ param_name p, schema_pointer = ''#/parameters'', keyword = ''schema'',
            message = core_error_display e\<rparr>])"

definition single_parameter_issues :: "validator \<Rightarrow> parameter_spec \<Rightarrow> string option \<Rightarrow> validation_issue list" where
  "single_parameter_issues vi p raw =
     (case raw of
        None \<Rightarrow> if param_required p then [missing_parameter (param_name p)] else []
      | Some r \<Rightarrow> parameter_issues vi p (parse_parameter_value r (param_schema p)))"

definition query_parameter_issues ::
  "validator \<Rightarrow> parameter_spec \<Rightarrow> string list option \<Rightarrow> validation_issue list" where
  "query_parameter_issues vi p vals =
     (case vals of
        None \<Rightarrow> if param_required p then [missing_parameter (param_name p)] else []
      | Some [] \<Rightarrow> if param_required p then [missing_parameter (param_name p)] else []
      | Some (r # rs) \<Rightarrow>
          if schema_type_is_array (param_schema p) then
            (let items = opt_default (Object []) (get (param_schema p) ''items'')
             in parameter_issues vi p (Array (map (\<lambda>x. parse_parameter_value x items) (r # rs))))
          else parameter_issues vi p (parse_parameter_value r (param_schema p)))"

definition body_issues :: "validator \<Rightarrow> operation_spec \<Rightarrow> value option \<Rightarrow> bool \<Rightarrow> validation_issue list" where
  "body_issues vi op body present =
     (if request_body_required op \<and> \<not> present
      then [\<lparr>instance_pointer = ''/body'', schema_pointer = ''#/requestBody'', keyword = ''required'',
             message = ''missing required request body''\<rparr>] else [])
     @ (case (request_body_schema op, body) of
          (Some schema, Some b) \<Rightarrow>
            (case vi schema b of
               Inr issues \<Rightarrow> issues
             | Inl e \<Rightarrow>
                 [\<lparr>instance_pointer = ''/body'', schema_pointer = ''#/requestBody'', keyword = ''schema'',
                   message = core_error_display e\<rparr>])
        | _ \<Rightarrow> [])"

definition validate_request ::
  "validator \<Rightarrow> operation_spec \<Rightarrow> (string \<times> string) list \<Rightarrow> (string \<times> string list) list \<Rightarrow> header_map
     \<Rightarrow> value option \<Rightarrow> bool \<Rightarrow> validation_issue list" where
  "validate_request vi op path_ps query_ps hm body present =
     concat (map (\<lambda>p.
         case param_location p of
           Path \<Rightarrow> single_parameter_issues vi p (map_of path_ps (param_name p))
         | Query \<Rightarrow> query_parameter_issues vi p (map_of query_ps (param_name p))
         | Header \<Rightarrow> single_parameter_issues vi p (header_str hm (param_name p))) (parameters op))
     @ body_issues vi op body present"

section \<open>Mock responses\<close>

definition media_types :: "response_spec \<Rightarrow> string list" where
  "media_types r = map media_name (content r)"

definition primary_media_type :: "response_spec \<Rightarrow> media_type_spec option" where
  "primary_media_type r = (case content r of [] \<Rightarrow> None | m # _ \<Rightarrow> Some m)"

definition media_type_entry :: "response_spec \<Rightarrow> string \<Rightarrow> media_type_spec option" where
  "media_type_entry r mt = find (\<lambda>m. media_name m = mt) (content r)"

definition json_schema :: "response_spec \<Rightarrow> value option" where
  "json_schema r =
     Option.bind
       (case find (\<lambda>m. is_json_media_type (media_name m)) (content r) of
          Some m \<Rightarrow> Some m
        | None \<Rightarrow> primary_media_type r) media_schema"

definition resolve_body :: "generator \<Rightarrow> media_type_spec \<Rightarrow> u64 \<Rightarrow> runtime_error + value option" where
  "resolve_body gen m s =
     (case media_example m of
        Some e \<Rightarrow> Inr (Some e)
      | None \<Rightarrow>
          (case named_examples m of
             (_, e) # _ \<Rightarrow> Inr (Some e)
           | [] \<Rightarrow>
               (case media_schema m of
                  None \<Rightarrow> Inr None
                | Some schema \<Rightarrow> (case generated gen schema s of Inl e \<Rightarrow> Inl e | Inr v \<Rightarrow> Inr (Some v)))))"

definition header_value_to_string :: "(value \<Rightarrow> string) \<Rightarrow> value \<Rightarrow> string" where
  "header_value_to_string to_json v = (case v of Str t \<Rightarrow> t | Null \<Rightarrow> [] | _ \<Rightarrow> to_json v)"

text \<open>A header whose generation fails is left out; a panic of the library unwinds.\<close>

fun generate_response_headers ::
  "generator \<Rightarrow> (value \<Rightarrow> string) \<Rightarrow> (string \<times> response_header_spec) list \<Rightarrow> u64
     \<Rightarrow> runtime_error + (string \<times> string) list" where
  "generate_response_headers gen to_json [] s = Inr []"
| "generate_response_headers gen to_json ((n, h) # hs) s =
     (case (case header_example h of
              Some e \<Rightarrow> Inr (Some e)
            | None \<Rightarrow>
                (case header_schema h of
                   None \<Rightarrow> Inr None
                 | Some schema \<Rightarrow>
                     (case gen schema (deterministic_hash s n) of
                        Inr v \<Rightarrow> Inr (Some v)
                      | Inl (Failed _) \<Rightarrow> Inr None
                      | Inl Panicked \<Rightarrow> Inl TaskPanic))) of
        Inl e \<Rightarrow> Inl e
      | Inr v \<Rightarrow>
          map_sum id
            (\<lambda>rest. case v of Some w \<Rightarrow> (n, header_value_to_string to_json w) # rest | None \<Rightarrow> rest)
            (generate_response_headers gen to_json hs s))"

definition parse_status_code :: "string \<Rightarrow> nat" where
  "parse_status_code s = (if s = ''default'' then 200 else opt_default 200 (parse_unsigned u16_max s))"

definition entry_body ::
  "generator \<Rightarrow> prefer_directives \<Rightarrow> string \<Rightarrow> media_type_spec \<Rightarrow> u64 \<Rightarrow> runtime_error + value option" where
  "entry_body gen p mt m s =
     (case prefer_example p of
        Some name \<Rightarrow>
          (case map_of (named_examples m) name of
             Some v \<Rightarrow> Inr (Some v)
           | None \<Rightarrow>
               Inl (NotFoundError (''example '' @ quoted name @ '' not found for media type ''
                 @ quoted mt)))
      | None \<Rightarrow>
          if prefer_dynamic p then
            (case media_schema m of
               None \<Rightarrow> Inr None
             | Some schema \<Rightarrow> (case generated gen schema s of Inl e \<Rightarrow> Inl e | Inr v \<Rightarrow> Inr (Some v)))
          else resolve_body gen m s)"

definition mock_response ::
  "generator \<Rightarrow> (value \<Rightarrow> string) \<Rightarrow> operation_spec \<Rightarrow> u64 \<Rightarrow> prefer_directives
     \<Rightarrow> runtime_error + mock_http_response" where
  "mock_response gen to_json op s p =
     (case select_response (op_responses op) p of
        None \<Rightarrow> Inl (NotFoundError ''preferred code not found'')
      | Some r \<Rightarrow>
          (let avail = media_types r in
           case (if avail = [] then Inr (None, None, None)
                 else (case negotiate_media_type avail (prefer_media_type p) of
                         None \<Rightarrow>
                           Inl (NotAcceptableError
                             (''no acceptable representation for Accept header; available media types: ''
                               @ join '', '' avail))
                       | Some mt \<Rightarrow>
                           (case media_type_entry r mt of
                              None \<Rightarrow> Inl (NotAcceptableError (''media type not declared: '' @ mt))
                            | Some m \<Rightarrow>
                                map_sum id (\<lambda>b. (Some mt, media_schema m, b)) (entry_body gen p mt m s)))) of
             Inl e \<Rightarrow> Inl e
           | Inr (mt, schema, body) \<Rightarrow>
               map_sum id
                 (\<lambda>hs. \<lparr>mock_status = parse_status_code (response_status r), mock_media_type = mt,
                    mock_schema = schema, mock_body = body, mock_headers = hs\<rparr>)
                 (generate_response_headers gen to_json (response_headers r) s)))"

definition response_schema_for_status :: "operation_spec \<Rightarrow> nat \<Rightarrow> value option" where
  "response_schema_for_status op st =
     (case Option.bind (find (\<lambda>r. response_status r = nat_to_string st) (op_responses op)) json_schema of
        Some v \<Rightarrow> Some v
      | None \<Rightarrow> Option.bind (find (\<lambda>r. response_status r = ''default'') (op_responses op)) json_schema)"

section \<open>Templates\<close>

text \<open>The loops over \<open>{\<close> and \<open>}\<close> in a path template and in a callback URL.\<close>

function substitute_path_params :: "string \<Rightarrow> (string \<times> string) list \<Rightarrow> string" where
  "substitute_path_params template ps =
     (case split_once CHR ''{'' template of
        None \<Rightarrow> template
      | Some (before, after) \<Rightarrow>
          before @
          (case split_once CHR ''}'' after of
             None \<Rightarrow> CHR ''{'' # after
           | Some (name, rest) \<Rightarrow>
               (case map_of ps name of Some v \<Rightarrow> v | None \<Rightarrow> ''{'' @ name @ ''}'') @ substitute_path_params rest ps))"
  by pat_completeness auto

termination
  by (relation "measure (\<lambda>(t, _). length t)") (auto simp: split_once_Some_iff)

declare substitute_path_params.simps [simp del]

definition render_location_header ::
  "(string \<times> string) list \<Rightarrow> string \<Rightarrow> (string \<times> string) list \<Rightarrow> (string \<times> string) list" where
  "render_location_header hs template ps =
     map (\<lambda>(n, v). (n, if eq_ignore_ascii_case n ''location'' then substitute_path_params template ps else v)) hs"

function callback_text :: "(value \<Rightarrow> string) \<Rightarrow> string \<Rightarrow> value option \<Rightarrow> string option" where
  "callback_text to_json remaining body =
     (case split_once CHR ''{'' remaining of
        None \<Rightarrow> Some remaining
      | Some (before, after) \<Rightarrow>
          (case split_once CHR ''}'' after of
             None \<Rightarrow> None
           | Some (token, rest) \<Rightarrow>
               map_option (\<lambda>r. before @
                   (case Option.bind (strip_prefix ''$request.body#'' token)
                           (\<lambda>ptr. Option.bind body (\<lambda>b. resolve_pointer b ptr)) of
                      Some v \<Rightarrow> (case as_str v of Some s \<Rightarrow> s | None \<Rightarrow> to_json v)
                    | None \<Rightarrow> ''{'' @ token @ ''}'') @ r)
                 (callback_text to_json rest body)))"
  by pat_completeness auto

termination
  by (relation "measure (\<lambda>(_, t, _). length t)") (auto simp: split_once_Some_iff)

declare callback_text.simps [simp del]

definition resolve_callback_url :: "(value \<Rightarrow> string) \<Rightarrow> string \<Rightarrow> value option \<Rightarrow> string option" where
  "resolve_callback_url to_json expr body =
     (case callback_text to_json expr body of
        None \<Rightarrow> None
      | Some r \<Rightarrow> if r = [] then None else Some r)"

end
