(* ===== verification/Asyncapi.thy ===== *)
theory Asyncapi
  imports Openapi
begin

text \<open>
  The AsyncAPI runtime of \<open>specmock-runtime/src/ws/asyncapi.rs\<close>: channels parsed from a resolved
  document of version 2 or 3, and the answer to one WebSocket message. The channels are a hash map
  in the source; here they are an association list whose order stands for the map's iteration
  order. The JSON reader is a parameter, like instance validation and data generation.
\<close>

section \<open>Data\<close>

record channel_spec =
  publish_schema :: "value option"
  subscribe_schema :: "value option"
  subscribe_example :: "value option"

record asyncapi_runtime =
  channels :: "(string \<times> channel_spec) list"

datatype ws_outcome =
    WsError "validation_issue list"
  | WsMock string "value"
  | WsPanic

text \<open>\<open>WsPanic\<close> is the unwinding of the connection's task when the random-number library panics.\<close>

record resolved_incoming_message =
  channel_name :: string
  incoming_payload :: "value"

section \<open>Parsing\<close>

definition empty_channel :: channel_spec where
  "empty_channel = \<lparr>publish_schema = None, subscribe_schema = None, subscribe_example = None\<rparr>"

definition extract_message_payload_schema :: "value \<Rightarrow> string \<Rightarrow> value option" where
  "extract_message_payload_schema node op_name =
     Option.bind (get node op_name) (\<lambda>operation. Option.bind (get operation ''message'') (\<lambda>m. get m ''payload''))"

definition first_item :: "value \<Rightarrow> value option" where
  "first_item v = Option.bind (as_array v) (\<lambda>xs. case xs of [] \<Rightarrow> None | x # _ \<Rightarrow> Some x)"

definition extract_subscribe_payload :: "value \<Rightarrow> value option \<times> value option" where
  "extract_subscribe_payload node =
     (case get node ''subscribe'' of
        None \<Rightarrow> (None, None)
      | Some subscribe \<Rightarrow>
          (case get subscribe ''message'' of
             None \<Rightarrow> (None, None)
           | Some m \<Rightarrow>
               (get m ''payload'',
                case get m ''example'' of
                  Some e \<Rightarrow> Some e
                | None \<Rightarrow> Option.bind (get m ''examples'') first_item)))"

definition extract_v3_operation_messages :: "value \<Rightarrow> value option \<times> value option" where
  "extract_v3_operation_messages op_node =
     (let first = Option.bind (get op_node ''messages'') first_item in
      (Option.bind first (\<lambda>m. get m ''payload''),
       Option.bind (Option.bind (Option.bind first (\<lambda>m. get m ''examples'')) first_item) (\<lambda>e. get e ''payload'')))"

definition from_v2 :: "value \<Rightarrow> runtime_error + asyncapi_runtime" where
  "from_v2 doc =
     (case Option.bind (get doc ''channels'') as_object of
        None \<Rightarrow> Inl (ParseError ''asyncapi missing channels object'')
      | Some m \<Rightarrow>
          Inr \<lparr>channels = map (\<lambda>(name, node).
            let (schema, example) = extract_subscribe_payload node in
            (name, \<lparr>publish_schema = extract_message_payload_schema node ''publish'',
                    subscribe_schema = schema, subscribe_example = example\<rparr>)) m\<rparr>)"

text \<open>
  One operation of a version 3 document, applied to the channel whose (inlined) value it names.
  Two JSON values are equal if they are the same value; \<open>serde_json\<close> also equates the floats \<open>0.0\<close>
  and \<open>-0.0\<close>.
\<close>

definition apply_v3_operation ::
  "(string \<times> value) list \<Rightarrow> (string \<times> channel_spec) list \<Rightarrow> value \<Rightarrow> (string \<times> channel_spec) list" where
  "apply_v3_operation declared specs op_node =
     (case Option.bind (get op_node ''channel'') (\<lambda>ch. map_option fst (find (\<lambda>(_, v). v = ch) declared)) of
        None \<Rightarrow> specs
      | Some name \<Rightarrow>
          let (schema, example) = extract_v3_operation_messages op_node;
              act = Option.bind (get op_node ''action'') as_str
          in AList.map_entry name (\<lambda>spec.
               if act = Some ''send'' then spec\<lparr>publish_schema := schema\<rparr>
               else if act = Some ''receive'' then spec\<lparr>subscribe_schema := schema, subscribe_example := example\<rparr>
               else spec) specs)"

definition from_v3 :: "value \<Rightarrow> runtime_error + asyncapi_runtime" where
  "from_v3 doc =
     (case Option.bind (get doc ''channels'') as_object of
        None \<Rightarrow> Inl (ParseError ''asyncapi v3 missing channels'')
      | Some declared \<Rightarrow>
          let specs = map (\<lambda>(name, _). (name, empty_channel)) declared in
          Inr \<lparr>channels =
            (case Option.bind (get doc ''operations'') as_object of
               None \<Rightarrow> specs
             | Some ops \<Rightarrow> foldl (apply_v3_operation declared) specs (map snd ops))\<rparr>)"

definition from_document :: "value \<Rightarrow> runtime_error + asyncapi_runtime" where
  "from_document doc =
     (let ver = (case Option.bind (get doc ''asyncapi'') as_str of Some s \<Rightarrow> s | None \<Rightarrow> ''2.0.0'') in
      if starts_with ver ''3.'' then from_v3 doc else from_v2 doc)"

definition asyncapi_from_path :: "filesystem \<Rightarrow> path \<Rightarrow> runtime_error + asyncapi_runtime" where
  "asyncapi_from_path fs p =
     (let r = ref_resolver_new fs (opt_default ''.'' (path_parent p)) in
      case fst (resolve fs p r) of
        Inl e \<Rightarrow> Inl (ParseError (core_error_display e))
      | Inr doc \<Rightarrow> from_document doc)"

definition channel_names :: "asyncapi_runtime \<Rightarrow> string list" where
  "channel_names api = map fst (channels api)"

section \<open>Messages\<close>

definition parse_explicit_envelope :: "value \<Rightarrow> resolved_incoming_message option" where
  "parse_explicit_envelope raw =
     Option.bind (as_object raw) (\<lambda>m.
       let first = (\<lambda>keys. Option.bind (find (\<lambda>k. map_of m k \<noteq> None) keys) (map_of m)) in
       map_option (\<lambda>name.
           \<lparr>channel_name = name,
            incoming_payload =
              (case first [''payload'', ''data'', ''message''] of Some p \<Rightarrow> p | None \<Rightarrow> Object [])\<rparr>)
         (Option.bind (first [''channel'', ''topic'']) as_str))"

definition issue :: "string \<Rightarrow> string \<Rightarrow> string \<Rightarrow> string \<Rightarrow> validation_issue" where
  "issue ip sp kw m = \<lparr>instance_pointer = ip, schema_pointer = sp, keyword = kw, message = m\<rparr>"

definition accepts :: "validator \<Rightarrow> value \<Rightarrow> channel_spec \<Rightarrow> bool" where
  "accepts vi raw spec =
     (case publish_schema spec of
        Some schema \<Rightarrow> (case vi schema raw of Inr issues \<Rightarrow> issues = [] | Inl _ \<Rightarrow> False)
      | None \<Rightarrow> True)"

definition resolve_channel_and_payload ::
  "validator \<Rightarrow> asyncapi_runtime \<Rightarrow> value \<Rightarrow> validation_issue list + resolved_incoming_message" where
  "resolve_channel_and_payload vi api raw =
     (case parse_explicit_envelope raw of
        Some explicit \<Rightarrow> Inr explicit
      | None \<Rightarrow>
          (case map fst (filter (\<lambda>(_, spec). accepts vi raw spec) (channels api)) of
             [name] \<Rightarrow> Inr \<lparr>channel_name = name, incoming_payload = raw\<rparr>
           | [] \<Rightarrow> Inl [issue ''/'' ''#/channels'' ''routing'' ''unable to route websocket message to any channel'']
           | matched \<Rightarrow> Inl [issue ''/'' ''#/channels'' ''routing''
               (''ambiguous websocket message, matched multiple channels: '' @ join '', '' matched)]))"

text \<open>The payload a channel answers with: its example, else generated data, else an empty object.\<close>

definition channel_answer :: "generator \<Rightarrow> channel_spec \<Rightarrow> string \<Rightarrow> u64 \<Rightarrow> ws_outcome" where
  "channel_answer gen spec name s =
     (case subscribe_example spec of
        Some e \<Rightarrow> WsMock name e
      | None \<Rightarrow>
          (case subscribe_schema spec of
             None \<Rightarrow> WsMock name (Object [])
           | Some schema \<Rightarrow>
               (case gen schema (deterministic_hash s name) of
                  Inr p \<Rightarrow> WsMock name p
                | Inl (Failed e) \<Rightarrow> WsError [issue ''/payload'' ''#'' ''faker'' (core_error_display e)]
                | Inl Panicked \<Rightarrow> WsPanic)))"

definition handle_message ::
  "validator \<Rightarrow> generator \<Rightarrow> (string \<Rightarrow> string + value) \<Rightarrow> asyncapi_runtime \<Rightarrow> string \<Rightarrow> u64 \<Rightarrow> ws_outcome" where
  "handle_message vi gen from_json api msg s =
     (case from_json msg of
        Inl e \<Rightarrow> WsError [issue ''/'' ''#'' ''json'' (''invalid websocket json message: '' @ e)]
      | Inr raw \<Rightarrow>
          (case resolve_channel_and_payload vi api raw of
             Inl issues \<Rightarrow> WsError issues
           | Inr r \<Rightarrow>
               (case map_of (channels api) (channel_name r) of
                  None \<Rightarrow> WsError [issue ''/channel'' ''#/channels'' ''enum''
                    (''unknown channel '' @ quoted (channel_name r))]
                | Some spec \<Rightarrow>
                    (case publish_schema spec of
                       None \<Rightarrow> channel_answer gen spec (channel_name r) s
                     | Some schema \<Rightarrow>
                         (case vi schema (incoming_payload r) of
                            Inl e \<Rightarrow> WsError [issue ''/payload'' ''#'' ''schema'' (core_error_display e)]
                          | Inr issues \<Rightarrow>
                              if issues \<noteq> [] then WsError issues
                              else channel_answer gen spec (channel_name r) s)))))"

section \<open>Routing of messages\<close>

lemma channel_answer_name: "channel_answer gen spec n s = WsMock name p \<Longrightarrow> name = n"
  by (auto simp: channel_answer_def split: option.splits sum.splits faker_failure.splits)

lemma resolved_message:
  assumes "resolve_channel_and_payload vi api raw = Inr r"
  shows "parse_explicit_envelope raw = Some r \<or>
    parse_explicit_envelope raw = None \<and> incoming_payload r = raw \<and>
      (\<forall>(n, spec)\<in>set (channels api). accepts vi raw spec \<longrightarrow> n = channel_name r)"
proof (cases "parse_explicit_envelope raw")
  case None
  let ?matched = "filter (\<lambda>(_, spec). accepts vi raw spec) (channels api)"
  have "map fst ?matched = [channel_name r]" "incoming_payload r = raw"
    using assms None by (auto simp: resolve_channel_and_payload_def split: option.splits list.splits)
  moreover have "n = channel_name r" if "(n, spec) \<in> set (channels api)" "accepts vi raw spec" for n spec
  proof -
    have "n \<in> set (map fst ?matched)" using that by (force simp: image_iff)
    then show ?thesis unfolding \<open>map fst ?matched = [channel_name r]\<close> by simp
  qed
  ultimately show ?thesis using None by blast
qed (use assms in \<open>simp add: resolve_channel_and_payload_def\<close>)

text \<open>
  C27. A message is answered by the channel it belongs to: a mock answer names a declared channel,
  the one the envelope names or, for a message without an envelope, the only channel whose schema
  accepts it; the payload satisfies that channel's publish schema; and the answer is what the
  channel declares. Everything else is answered with an error.
\<close>

theorem message_answered_by_channel:
  assumes "handle_message vi gen from_json api msg s = WsMock name p"
  shows "\<exists>raw r spec. from_json msg = Inr raw \<and> map_of (channels api) name = Some spec \<and> channel_name r = name \<and>
    (parse_explicit_envelope raw = Some r \<or>
       parse_explicit_envelope raw = None \<and> incoming_payload r = raw \<and>
         (\<forall>(n, spec)\<in>set (channels api). accepts vi raw spec \<longrightarrow> n = name)) \<and>
    accepts vi (incoming_payload r) spec \<and> channel_answer gen spec name s = WsMock name p"
proof -
  obtain raw r spec where raw: "from_json msg = Inr raw" "resolve_channel_and_payload vi api raw = Inr r"
    and spec: "map_of (channels api) (channel_name r) = Some spec" "accepts vi (incoming_payload r) spec"
    and answer: "channel_answer gen spec (channel_name r) s = WsMock name p"
    using assms by (auto simp: handle_message_def accepts_def split: sum.splits option.splits if_splits)
  have "channel_name r = name" using channel_answer_name [OF answer] by simp
  with raw spec answer resolved_message [OF raw(2)] show ?thesis by blast
qed

definition chat_document :: "value" where
  "chat_document = Object [(''asyncapi'', Str ''2.6.0''), (''channels'', Object
     [(''alerts'', Object [(''publish'', Object [(''message'', Object [(''payload'', Bool False)])])]),
      (''chat'', Object [(''subscribe'', Object [(''message'', Object [(''example'', Str ''hi'')])])])])]"

definition chat_api :: asyncapi_runtime where
  "chat_api = projr (from_document chat_document)"

theorem message_answered_by_channel_witness:
  "\<exists>spec. map_of (channels chat_api) ''chat'' = Some spec"
proof -
  have "handle_message (\<lambda>schema _. Inr (if schema = Bool False then [issue [] [] [] []] else []))
      (\<lambda>_ _. Inl Panicked) (\<lambda>_. Inr Null) chat_api ''null'' 42 = WsMock ''chat'' (Str ''hi'')" by code_simp
  from message_answered_by_channel [OF this] show ?thesis by blast
qed

end
