(* ===== verification/Http.thy ===== *)
theory Http
  imports Config Asyncapi Negotiate Media Scenario_Runtime
begin

text \<open>
  The HTTP server of \<open>specmock-runtime/src/http/mod.rs\<close> and \<open>http/proxy.rs\<close>: building the runtime from
  a configuration, the control endpoints, and the handler that serves every other request. The
  handler threads the runtime, whose scenario instances it changes. The HTTP types, the JSON
  and URL libraries and the HTTP client are parameters, gathered in the record \<open>web\<close>; what the
  handler sends in the background is part of its result.
\<close>

section \<open>Library functions\<close>

record web =
  parse_url :: url_parser
  form_decode :: "string \<Rightarrow> (string \<times> string) list"
  read_json :: "string \<Rightarrow> string + value"
  print_json :: "value \<Rightarrow> string"
  print_problem :: "problem_details \<Rightarrow> string"
  valid_status :: "nat \<Rightarrow> bool"
  header_name :: "string \<Rightarrow> string option"
  valid_header_value :: "string \<Rightarrow> bool"
  validate_value :: validator
  generate_value :: generator

section \<open>Data\<close>

record http_runtime =
  run_openapi :: "openapi_runtime option"
  run_asyncapi :: "asyncapi_runtime option"
  run_mode :: mock_mode
  run_upstream :: "url option"
  run_seed :: u64
  run_ws_path :: string
  ws_channel_paths :: "(string \<times> string) list"
  run_max_body_size :: usize
  run_scenarios :: "scenario_runtime option"
  run_control_token :: "string option"
  ws_sessions :: u64

text \<open>A request as the handler reads it; the body is missing if reading it fails.\<close>

record http_request =
  rq_method :: string
  rq_path :: string
  rq_query :: "string option"
  rq_headers :: header_map
  rq_body :: "string option"

record http_response =
  resp_status :: nat
  resp_headers :: header_map
  resp_body :: string

text \<open>A request the server sends, to an upstream or to a callback URL.\<close>

record outbound =
  out_method :: string
  out_url :: string
  out_headers :: header_map
  out_body :: string

text \<open>What the client library reports for an upstream request: a failure, or status, headers and body.\<close>

type_synonym client = "outbound \<Rightarrow> string + nat \<times> header_map \<times> (string + string)"

definition scenarios_handle :: "http_runtime \<Rightarrow> scenario_runtime option" where
  "scenarios_handle rt = run_scenarios rt"

definition fresh_ws_session :: "http_runtime \<Rightarrow> string \<times> http_runtime" where
  "fresh_ws_session rt =
     (''ws-'' @ nat_to_string (unat (ws_sessions rt)), rt\<lparr>ws_sessions := ws_sessions rt + 1\<rparr>)"

definition resolve_ws_channel :: "http_runtime \<Rightarrow> string \<Rightarrow> string option" where
  "resolve_ws_channel rt p = map_of (ws_channel_paths rt) p"

section \<open>Startup\<close>

definition load_scenarios ::
  "filesystem \<Rightarrow> (value \<Rightarrow> string + sidecar) \<Rightarrow> server_config \<Rightarrow> runtime_error + scenario_runtime option" where
  "load_scenarios fs from_value cfg =
     (case scenarios_spec cfg of
        None \<Rightarrow> Inr None
      | Some p \<Rightarrow>
          let r = ref_resolver_new fs (opt_default p (path_parent p)) in
          case fst (resolve fs p r) of
            Inl e \<Rightarrow> Inl (ParseError (core_error_display e))
          | Inr doc \<Rightarrow>
              (case sidecar_parse from_value doc of
                 Inl e \<Rightarrow> Inl (ConfigError (''invalid scenario sidecar '' @ quoted p @ '': '' @ sidecar_error_display e))
               | Inr vs \<Rightarrow> Inr (Some (runtime_new vs (config_max_sessions cfg) (config_max_store_entries cfg)))))"

definition transpose_spec :: "path option \<Rightarrow> (path \<Rightarrow> runtime_error + 'a) \<Rightarrow> runtime_error + 'a option" where
  "transpose_spec spec load = (case spec of None \<Rightarrow> Inr None | Some p \<Rightarrow> map_sum id Some (load p))"

text \<open>
  The first WebSocket route that an OpenAPI path collides with. The channel routes are tried in the
  order of the document where the source iterates a \<open>HashMap\<close>; only the text of the error depends on it.
\<close>

fun ws_collision :: "openapi_runtime \<Rightarrow> string list \<Rightarrow> string option" where
  "ws_collision api [] = None"
| "ws_collision api (route # routes) =
     (case shadowed_path api route of
        Some template \<Rightarrow>
          Some (''OpenAPI path '' @ quoted template @ '' collides with the WebSocket route '' @ quoted route
            @ ''. WebSocket routes take precedence, so that operation would be unreachable. ''
            @ ''Re-run with a different --ws-path.'')
      | None \<Rightarrow> ws_collision api routes)"

definition from_config_with ::
  "web \<Rightarrow> filesystem \<Rightarrow> (value \<Rightarrow> string + sidecar) \<Rightarrow> server_config \<Rightarrow> scenario_runtime option
     \<Rightarrow> runtime_error + http_runtime" where
  "from_config_with w fs from_value cfg shared =
     (case transpose_spec (openapi_spec cfg) (from_path fs) of
        Inl e \<Rightarrow> Inl e
      | Inr api \<Rightarrow>
     (case transpose_spec (asyncapi_spec cfg) (asyncapi_from_path fs) of
        Inl e \<Rightarrow> Inl e
      | Inr async \<Rightarrow>
     if mode cfg = Proxy \<and> upstream cfg = None then
       Inl (ConfigError ''proxy mode requires upstream base URL (--upstream)'')
     else
     (case (case upstream cfg of
              None \<Rightarrow> Inr None
            | Some raw \<Rightarrow>
                (case parse_url w raw of
                   Inl e \<Rightarrow> Inl (ConfigError (''invalid upstream URL '' @ quoted raw @ '': '' @ e))
                 | Inr u \<Rightarrow> Inr (Some u))) of
        Inl e \<Rightarrow> Inl e
      | Inr up \<Rightarrow>
     let base = trim_end_matches CHR ''/'' (ws_path cfg);
         paths = (case async of
                    None \<Rightarrow> []
                  | Some a \<Rightarrow> map (\<lambda>ch. (base @ ''/'' @ ch, ch)) (channel_names a))
     in
     (case Option.bind api (\<lambda>api. ws_collision api (ws_path cfg # map fst paths)) of
        Some m \<Rightarrow> Inl (ConfigError m)
      | None \<Rightarrow>
     if mode cfg = Proxy \<and> scenarios_spec cfg \<noteq> None then
       Inl (ConfigError (''--scenarios cannot be combined with --mode proxy: the upstream holds the real ''
         @ ''state. Drop one of the two.''))
     else
     (case (case shared of Some rt \<Rightarrow> Inr (Some rt) | None \<Rightarrow> load_scenarios fs from_value cfg) of
        Inl e \<Rightarrow> Inl e
      | Inr scen \<Rightarrow>
          Inr \<lparr>run_openapi = api, run_asyncapi = async, run_mode = mode cfg, run_upstream = up,
               run_seed = config_seed cfg, run_ws_path = ws_path cfg, ws_channel_paths = paths,
               run_max_body_size = max_body_size cfg, run_scenarios = scen,
               run_control_token = control_token cfg, ws_sessions = 0\<rparr>)))))"

definition from_config ::
  "web \<Rightarrow> filesystem \<Rightarrow> (value \<Rightarrow> string + sidecar) \<Rightarrow> server_config \<Rightarrow> runtime_error + http_runtime" where
  "from_config w fs from_value cfg = from_config_with w fs from_value cfg None"

section \<open>Responses\<close>

definition problem_response :: "web \<Rightarrow> problem_details \<Rightarrow> http_response" where
  "problem_response w problem =
     \<lparr>resp_status = (if valid_status w (status problem) then status problem else 500),
      resp_headers = [(''content-type'', PROBLEM_JSON_CONTENT_TYPE)],
      resp_body = print_problem w problem\<rparr>"

definition error_response :: "web \<Rightarrow> nat \<Rightarrow> validation_issue list \<Rightarrow> http_response" where
  "error_response w st issues = problem_response w (problem_validation_error st issues)"

definition json_response :: "web \<Rightarrow> value \<Rightarrow> http_response" where
  "json_response w v =
     \<lparr>resp_status = 200, resp_headers = [(''content-type'', ''application/json'')], resp_body = print_json w v\<rparr>"

definition response_header :: "web \<Rightarrow> string \<Rightarrow> string \<Rightarrow> (string \<times> string) option" where
  "response_header w name v =
     Option.bind (header_name w name) (\<lambda>n. if valid_header_value w v then Some (n, v) else None)"

definition header_insert :: "string \<Rightarrow> string \<Rightarrow> header_map \<Rightarrow> header_map" where
  "header_insert n v hm = filter (\<lambda>(m, _). m \<noteq> n) hm @ [(n, v)]"

text \<open>All parts of the response are valid by construction, so the fallback of the builder is never taken.\<close>

definition build_mock_response :: "web \<Rightarrow> mock_http_response \<Rightarrow> http_response" where
  "build_mock_response w mock =
     (let hs = List.map_filter (\<lambda>(n, v). response_header w n v) (mock_headers mock) in
      \<lparr>resp_status = (if valid_status w (mock_status mock) then mock_status mock else 200),
       resp_headers =
         (case mock_media_type mock of
            None \<Rightarrow> hs
          | Some mt \<Rightarrow> header_insert ''content-type'' (if valid_header_value w mt then mt else ''application/json'') hs),
       resp_body =
         (case (mock_body mock, mock_media_type mock) of
            (Some b, Some mt) \<Rightarrow> encode_body (print_json w) mt b (mock_schema mock)
          | _ \<Rightarrow> [])\<rparr>)"

text \<open>The whitespace-separated tokens of a text.\<close>

fun next_token :: "string \<Rightarrow> string \<times> string" where
  "next_token [] = ([], [])"
| "next_token (c # s) =
     (if find (\<lambda>w. prefix w (c # s)) white_space \<noteq> None then ([], c # s)
      else let (t, r) = next_token s in (c # t, r))"

lemma next_token_length: "length (snd (next_token s)) \<le> length s"
  by (induction s) (auto simp: Let_def split_def)

lemma trim_start_length: "length (trim_start s) \<le> length s"
proof (induction s rule: trim_start.induct)
  case (1 s)
  show ?case
  proof (cases "find (\<lambda>w. prefix w s) white_space")
    case (Some w)
    with 1 show ?thesis by (subst trim_start.simps) fastforce
  qed (simp add: trim_start.simps [of s])
qed

lemma trim_start_token: "find (\<lambda>w. prefix w (trim_start s)) white_space = None"
proof (induction s rule: trim_start.induct)
  case (1 s)
  then show ?case
    by (cases "find (\<lambda>w. prefix w s) white_space") (simp_all add: trim_start.simps [of s])
qed

function split_whitespace :: "string \<Rightarrow> string list" where
  "split_whitespace s =
     (let t = trim_start s in
      if t = [] then [] else fst (next_token t) # split_whitespace (snd (next_token t)))"
  by pat_completeness auto
termination
proof (relation "measure length")
  fix s t
  assume t: "t = trim_start s" "t \<noteq> []"
  obtain c u where cu: "t = c # u" using t(2) by (cases t) auto
  then have "snd (next_token t) = snd (next_token u)"
    using trim_start_token [of s] t(1) by (simp add: split_def Let_def)
  then show "(snd (next_token t), s) \<in> measure length"
    using next_token_length [of u] trim_start_length [of s] cu t(1) by simp
qed simp

declare split_whitespace.simps [simp del]

definition sanitize_error_message :: "string \<Rightarrow> string" where
  "sanitize_error_message m =
     join '' '' (map (\<lambda>tok. if starts_with tok ''/'' \<and> CHR ''/'' \<in> set (tl tok) then ''[redacted]'' else tok)
       (split_whitespace m))"

section \<open>Control endpoints\<close>

datatype handler = WsUpgrade | ControlState | ControlReset

text \<open>The explicit routes of the server; every other request goes to the fallback handler.\<close>

definition explicit_routes :: "http_runtime \<Rightarrow> (string \<times> string \<times> handler) list" where
  "explicit_routes rt =
     (''GET'', run_ws_path rt, WsUpgrade) # map (\<lambda>(p, _). (''GET'', p, WsUpgrade)) (ws_channel_paths rt)
     @ (if run_control_token rt \<noteq> None
        then [(''GET'', CONTROL_PREFIX @ ''/state'', ControlState), (''POST'', CONTROL_PREFIX @ ''/reset'', ControlReset)]
        else [])"

definition authorize_control :: "web \<Rightarrow> http_runtime \<Rightarrow> header_map \<Rightarrow> http_response option" where
  "authorize_control w rt hm =
     (case run_control_token rt of
        None \<Rightarrow> None
      | Some expected \<Rightarrow>
          if Option.bind (header_str hm ''authorization'') (strip_prefix ''Bearer '') = Some expected then None
          else Some (problem_response w (problem_stateful_error 401
                 (''the control endpoints require the run'' @ [CHR 0x27] @ ''s bearer token'')
                 [(''control'', Str CONTROL_PREFIX)])))"

definition control_state_handler :: "web \<Rightarrow> http_runtime \<Rightarrow> header_map \<Rightarrow> http_response" where
  "control_state_handler w rt hm =
     (case authorize_control w rt hm of
        Some denied \<Rightarrow> denied
      | None \<Rightarrow>
          (case run_scenarios rt of
             None \<Rightarrow> problem_response w (problem_not_found ''no scenario sidecar is loaded'')
           | Some scen \<Rightarrow>
               json_response w (Object
                 [(''count'', value_of_u64 (of_nat (session_count scen))),
                  (''scenarios'', Array (map Str (runtime_scenario_names scen))),
                  (''sessions'', Array (List.map_filter (\<lambda>(sc, session).
                     map_option (\<lambda>(_, st). Object
                         [(''scenario'', Str sc), (''session'', Str session), (''state'', Str st)])
                       (session_state_for scen sc session)) (sessions scen)))])))"

definition control_reset_handler :: "web \<Rightarrow> http_runtime \<Rightarrow> header_map \<Rightarrow> http_response \<times> http_runtime" where
  "control_reset_handler w rt hm =
     (case authorize_control w rt hm of
        Some denied \<Rightarrow> (denied, rt)
      | None \<Rightarrow>
          (case run_scenarios rt of
             None \<Rightarrow> (problem_response w (problem_not_found ''no scenario sidecar is loaded''), rt)
           | Some scen \<Rightarrow>
               let (n, scen') = reset_all (print_json w) scen
               in (json_response w (Object [(''reset'', value_of_u64 (of_nat n))]), rt\<lparr>run_scenarios := Some scen'\<rparr>)))"

section \<open>Request checks\<close>

definition content_type_header :: "header_map \<Rightarrow> string option" where
  "content_type_header hm = header_str hm ''content-type''"

fun contains_text :: "string \<Rightarrow> string \<Rightarrow> bool" where
  "contains_text pat [] = (pat = [])"
| "contains_text pat (c # s) = (prefix pat (c # s) \<or> contains_text pat s)"

definition header_is_json :: "header_map \<Rightarrow> bool" where
  "header_is_json hm =
     (case header_str hm ''content-type'' of
        None \<Rightarrow> False
      | Some v \<Rightarrow> contains_text ''application/json'' (to_ascii_lowercase v))"

definition parse_optional_json_body ::
  "web \<Rightarrow> header_map \<Rightarrow> string \<Rightarrow> bool \<Rightarrow> validation_issue + value option" where
  "parse_optional_json_body w hm bytes should_parse =
     (if \<not> should_parse \<or> bytes = [] then Inr None
      else if \<not> header_is_json hm then Inr None
      else case read_json w bytes of
             Inr v \<Rightarrow> Inr (Some v)
           | Inl e \<Rightarrow> Inl (issue ''/body'' ''#/requestBody'' ''json'' (''invalid json request body: '' @ e)))"

definition parse_query :: "web \<Rightarrow> string option \<Rightarrow> (string \<times> string list) list" where
  "parse_query w query =
     (case query of
        None \<Rightarrow> []
      | Some raw \<Rightarrow>
          foldl (\<lambda>out (k, v). case map_of out k of
              None \<Rightarrow> (k, [v]) # out
            | Some _ \<Rightarrow> AList.map_entry k (\<lambda>vs. vs @ [v]) out) [] (form_decode w raw))"

definition validate_http_request ::
  "web \<Rightarrow> operation_spec \<Rightarrow> (string \<times> string) list \<Rightarrow> (string \<times> string list) list \<Rightarrow> header_map
     \<Rightarrow> value option \<Rightarrow> bool \<Rightarrow> validation_issue list" where
  "validate_http_request w op ps query hm body present =
     validate_request (validate_value w) op ps query hm body present"

text \<open>A request that passed every check: its operation, path parameters, body and parsed body.\<close>

record accepted =
  acc_operation :: operation_spec
  acc_params :: "(string \<times> string) list"
  acc_bytes :: string
  acc_json :: "value option"

text \<open>The handler up to the point where the request is known to be valid.\<close>

definition check_request :: "web \<Rightarrow> http_runtime \<Rightarrow> http_request \<Rightarrow> http_response + accepted" where
  "check_request w rt rq =
     (case (case rq_body rq of Some b \<Rightarrow> if length b \<le> unat (run_max_body_size rt) then Some b else None
            | None \<Rightarrow> None) of
        None \<Rightarrow> Inl (problem_response w (problem_payload_too_large
          (''request body exceeds maximum size of '' @ usize_text (run_max_body_size rt) @ '' bytes'')))
      | Some bytes \<Rightarrow>
     (case run_openapi rt of
        None \<Rightarrow> Inl (problem_response w (problem_not_found ''no OpenAPI runtime configured''))
      | Some api \<Rightarrow>
     (case match_operation api (rq_method rq) (rq_path rq) of
        None \<Rightarrow> Inl (problem_response w (problem_not_found ''operation not found''))
      | Some (op, ps) \<Rightarrow>
     let ct = (case content_type_header (rq_headers rq) of Some v \<Rightarrow> v | None \<Rightarrow> []);
         declared = request_body_media_types op
     in
     if bytes \<noteq> [] \<and> declared \<noteq> [] \<and> \<not> media_type_is_accepted declared ct then
       Inl (problem_response w (problem_unsupported_media_type
         (''content-type '' @ quoted ct @ '' is not declared for this operation; expected one of: ''
          @ join '', '' declared)))
     else
     (case parse_optional_json_body w (rq_headers rq) bytes (request_body_schema op \<noteq> None) of
        Inl i \<Rightarrow> Inl (error_response w 400 [i])
      | Inr body \<Rightarrow>
          let issues = validate_http_request w op ps (parse_query w (rq_query rq)) (rq_headers rq) body (bytes \<noteq> []) in
          if issues \<noteq> [] then Inl (error_response w 400 issues)
          else Inr \<lparr>acc_operation = op, acc_params = ps, acc_bytes = bytes, acc_json = body\<rparr>))))"

section \<open>Proxying\<close>

definition STRIPPED_HEADERS :: "string list" where
  "STRIPPED_HEADERS = [''host'', ''content-length'', ''authorization'', ''cookie'', ''proxy-authorization'']"

definition host_value :: "url \<Rightarrow> string option" where
  "host_value u =
     map_option (\<lambda>host. case url_port u of
         Some p \<Rightarrow> host @ '':'' @ nat_to_string (unat p)
       | None \<Rightarrow> host) (host_str u)"

definition upstream_request :: "url \<Rightarrow> http_request \<Rightarrow> string \<Rightarrow> outbound" where
  "upstream_request u rq bytes =
     \<lparr>out_method = rq_method rq,
      out_url = trim_end_matches CHR ''/'' (url_text u) @ rq_path rq
        @ (case rq_query rq of Some q \<Rightarrow> ''?'' @ q | None \<Rightarrow> []),
      out_headers = filter (\<lambda>(n, _). to_ascii_lowercase n \<notin> set STRIPPED_HEADERS) (rq_headers rq)
        @ (case host_value u of Some h \<Rightarrow> [(''host'', h)] | None \<Rightarrow> []),
      out_body = bytes\<rparr>"

text \<open>The answer to an upstream response: the response itself, or 502 if it breaks the contract.\<close>

definition check_upstream :: "web \<Rightarrow> operation_spec \<Rightarrow> nat \<Rightarrow> header_map \<Rightarrow> string \<Rightarrow> http_response" where
  "check_upstream w op st hm bytes =
     (let ok = \<lparr>resp_status = st, resp_headers = hm, resp_body = bytes\<rparr> in
      case response_schema_for_status op st of
        None \<Rightarrow> ok
      | Some schema \<Rightarrow>
          if \<not> header_is_json hm then ok
          else case read_json w bytes of
                 Inl e \<Rightarrow> error_response w 502
                   [issue ''/response/body'' ''#/responses'' ''json'' (''upstream response is not valid json: '' @ e)]
               | Inr v \<Rightarrow>
                   (case validate_value w schema v of
                      Inl e \<Rightarrow> error_response w 502 [issue ''/response'' ''#/responses'' ''schema'' (core_error_display e)]
                    | Inr issues \<Rightarrow> if issues \<noteq> [] then error_response w 502 issues else ok))"

definition proxy_request :: "web \<Rightarrow> client \<Rightarrow> url \<Rightarrow> http_request \<Rightarrow> accepted \<Rightarrow> http_response" where
  "proxy_request w send u rq acc =
     (case send (upstream_request u rq (acc_bytes acc)) of
        Inl e \<Rightarrow> error_response w 502 [issue ''/proxy'' ''#'' ''proxy'' (''upstream request failed: '' @ e)]
      | Inr (st, hm, Inl e) \<Rightarrow>
          error_response w 502 [issue ''/response/body'' ''#'' ''proxy'' (''failed to read upstream response body: '' @ e)]
      | Inr (st, hm, Inr bytes) \<Rightarrow> check_upstream w (acc_operation acc) st hm bytes)"

section \<open>Mocking\<close>

definition fire_callback :: "web \<Rightarrow> string \<Rightarrow> string \<Rightarrow> value option \<Rightarrow> u64 \<Rightarrow> outbound option" where
  "fire_callback w url m schema s =
     (let plain = \<lparr>out_method = m, out_url = url, out_headers = [], out_body = []\<rparr> in
      case schema of
        None \<Rightarrow> Some plain
      | Some sc \<Rightarrow>
          (case generate_value w sc s of
             Inr b \<Rightarrow> Some (plain\<lparr>out_headers := [(''content-type'', ''application/json'')], out_body := print_json w b\<rparr>)
           | Inl (Failed _) \<Rightarrow> Some plain
           | Inl Panicked \<Rightarrow> None))"

definition fired_callbacks :: "web \<Rightarrow> operation_spec \<Rightarrow> value option \<Rightarrow> u64 \<Rightarrow> outbound list" where
  "fired_callbacks w op body s =
     List.map_filter (\<lambda>cb.
       Option.bind (resolve_callback_url (print_json w) (callback_url_expression cb) body) (\<lambda>url.
         if is_valid_callback_url (parse_url w) url
         then fire_callback w url (callback_method cb) (callback_schema cb) s
         else None)) (callbacks op)"

text \<open>The effect of a scenario resolution on the mock response: a failure replaces it by a problem.\<close>

definition apply_resolution :: "web \<Rightarrow> resolution \<Rightarrow> mock_http_response \<Rightarrow> http_response + mock_http_response" where
  "apply_resolution w r mock =
     (case r of
        Ungoverned \<Rightarrow> Inr mock
      | Body b \<Rightarrow> Inr (mock\<lparr>mock_body := Some b\<rparr>)
      | Empty \<Rightarrow> Inr (mock\<lparr>mock_body := None, mock_status := 204\<rparr>)
      | Forced st b \<Rightarrow>
          Inr (mock\<lparr>mock_status := st, mock_body := (if b \<noteq> None then b else mock_body mock)\<rparr>)
      | FailedWith f \<Rightarrow>
          Inl (problem_response w (problem_stateful_error (failure_status f) (failure_detail f) (failure_extensions f))))"

text \<open>
  The result of a request: the response, or nothing if the random-number library panics and the
  task unwinds; the runtime afterwards; and the requests the server sends.
\<close>

type_synonym handled = "http_response option \<times> http_runtime \<times> outbound list"

definition mock_request :: "web \<Rightarrow> http_runtime \<Rightarrow> http_request \<Rightarrow> accepted \<Rightarrow> handled" where
  "mock_request w rt rq acc =
     (let op = acc_operation acc;
          prefer = from_headers (rq_headers rq);
          s = deterministic_hash (run_seed rt) (rq_method rq @ rq_path rq)
      in
      case mock_response (generate_value w) (print_json w) op s prefer of
        Inl (NotFoundError m) \<Rightarrow> (Some (problem_response w (problem_not_found m)), rt, [])
      | Inl (NotAcceptableError m) \<Rightarrow> (Some (problem_response w (problem_not_acceptable m)), rt, [])
      | Inl TaskPanic \<Rightarrow> (None, rt, [])
      | Inl e \<Rightarrow>
          (Some (error_response w 500 [issue ''/response'' ''#/responses'' ''response''
             (sanitize_error_message (runtime_error_display e))]), rt, [])
      | Inr mock \<Rightarrow>
          let mock = mock\<lparr>mock_headers := render_location_header (mock_headers mock) (path_template op) (acc_params acc)\<rparr>;
              (r, rt) =
                (case run_scenarios rt of
                   None \<Rightarrow> (Ungoverned, rt)
                 | Some scen \<Rightarrow>
                     let (r, scen') = scenario_resolve (print_json w) scen (prefer_scenario prefer)
                           (prefer_session prefer) (rq_method rq) (path_template op) (acc_params acc) (acc_json acc)
                           (case mock_body mock of Some b \<Rightarrow> b | None \<Rightarrow> Null)
                           (prefer_code prefer \<noteq> None \<or> prefer_dynamic prefer) True
                     in (r, rt\<lparr>run_scenarios := Some scen'\<rparr>))
          in case apply_resolution w r mock of
               Inl failed \<Rightarrow> (Some failed, rt, [])
             | Inr mock \<Rightarrow> (Some (build_mock_response w mock), rt, fired_callbacks w op (acc_json acc) s))"

definition http_fallback_handler :: "web \<Rightarrow> client \<Rightarrow> http_runtime \<Rightarrow> http_request \<Rightarrow> handled" where
  "http_fallback_handler w send rt rq =
     (case check_request w rt rq of
        Inl refused \<Rightarrow> (Some refused, rt, [])
      | Inr acc \<Rightarrow>
          (case (run_mode rt, run_upstream rt) of
             (Proxy, Some u) \<Rightarrow>
               (Some (proxy_request w send u rq acc), rt, [upstream_request u rq (acc_bytes acc)])
           | _ \<Rightarrow> mock_request w rt rq acc))"

end
