(* ===== verification/Openapi_Props.thy ===== *)
theory Openapi_Props
  imports Openapi
begin

text \<open>
  What the OpenAPI engine guarantees: routing over the parsed operations, parameter inheritance,
  schema normalisation, the shape of mock responses and the rendering of \<open>Location\<close>.
\<close>

section \<open>Routing over a parsed document\<close>

definition api_ok :: "openapi_runtime \<Rightarrow> bool" where
  "api_ok api \<longleftrightarrow> api_router api = build (map (\<lambda>op. (op_method op, path_template op)) (api_operations api))"

lemma from_resolved_ok: "from_resolved doc = Inr api \<Longrightarrow> api_ok api"
  by (auto simp: from_resolved_def api_ok_def Let_def split: option.splits if_splits)

definition serves_request :: "operation_spec \<Rightarrow> string \<Rightarrow> string \<Rightarrow> bool" where
  "serves_request op m p \<longleftrightarrow> op_method op = m \<and> matches_path (parse_segments (path_template op)) (split_path p)"

lemma declares_api:
  "declares (map (\<lambda>op. (op_method op, path_template op)) ops) m p i \<longleftrightarrow>
     i < length ops \<and> serves_request (ops ! i) m p"
  by (auto simp: serves_request_def)

lemma match_operation_cases:
  assumes "from_resolved doc = Inr api"
  shows "case match_operation api m p of
      None \<Rightarrow> \<forall>op\<in>set (api_operations api). \<not> serves_request op m p
    | Some (op, ps) \<Rightarrow> op \<in> set (api_operations api) \<and> serves_request op m p \<and>
        ps = bind_params (parse_segments (path_template op)) (split_path p) []"
proof -
  let ?ops = "api_operations api" and ?rs = "map (\<lambda>op. (op_method op, path_template op)) (api_operations api)"
  have router: "api_router api = build ?rs" using from_resolved_ok [OF assms] by (simp add: api_ok_def)
  show ?thesis
  proof (cases "match_route (build ?rs) m p")
    case None
    then have "\<not> declares ?rs m p i" for i using match_route_None by blast
    then have "\<forall>op\<in>set ?ops. \<not> serves_request op m p"
      unfolding declares_api by (auto simp: in_set_conv_nth)
    with None show ?thesis by (simp add: match_operation_def router)
  next
    case (Some r)
    have "declares ?rs m p (operation_index r)"
      and ps: "path_params r = bind_params (parse_segments (snd (?rs ! operation_index r))) (split_path p) []"
      using match_route_Some [OF Some] by auto
    then have "operation_index r < length ?ops" "serves_request (?ops ! operation_index r) m p"
      unfolding declares_api by auto
    with Some ps show ?thesis by (simp add: match_operation_def router)
  qed
qed

text \<open>
  C36. A parsed document routes every request to an operation that serves it, with the path's
  segments as parameters, and reports no operation only when none of the document serves it; the
  index the router returns is always within the operations.
\<close>

theorem match_operation_correct:
  assumes "from_resolved doc = Inr api"
  shows "case match_operation api m p of
      None \<Rightarrow> \<forall>op\<in>set (api_operations api). \<not> serves_request op m p
    | Some (op, ps) \<Rightarrow> op \<in> set (api_operations api) \<and> serves_request op m p \<and>
        ps = bind_params (parse_segments (path_template op)) (split_path p) []"
  using assms by (rule match_operation_cases)

section \<open>Parameter inheritance\<close>

definition param_key :: "parameter_spec \<Rightarrow> parameter_in \<times> string" where
  "param_key p = (param_location p, param_name p)"

abbreviation by_key :: "parameter_spec list \<Rightarrow> (parameter_in \<times> string) \<rightharpoonup> parameter_spec" where
  "by_key ps \<equiv> map_of (map (\<lambda>p. (param_key p, p)) ps)"

lemma by_key_filter: "by_key (filter (\<lambda>q. param_key q \<noteq> k) ps) = (by_key ps)(k := None)"
  by (induction ps) (auto simp: fun_eq_iff)

lemma by_key_override:
  "by_key (filter (\<lambda>q. param_key q \<noteq> param_key p) ps @ [p]) = (by_key ps)(param_key p \<mapsto> p)"
  by (auto simp: by_key_filter map_add_def fun_eq_iff split: option.splits)

lemma merge_parameters_fold:
  "merge_parameters inherited own =
     foldl (\<lambda>ps p. filter (\<lambda>q. param_key q \<noteq> param_key p) ps @ [p]) inherited own"
  unfolding merge_parameters_def by (simp add: param_key_def)

text \<open>
  Operation parameters override the inherited ones: in the merged list a location and name
  occur once, the last declaration of the operation holds for it, and the parameters of the path
  that the operation does not redeclare are kept.
\<close>

theorem merge_parameters_override:
  assumes "distinct (map param_key inherited)"
  shows "distinct (map param_key (merge_parameters inherited own)) \<and>
    by_key (merge_parameters inherited own) = by_key inherited ++ by_key (rev own)"
  using assms unfolding merge_parameters_fold
proof (induction own arbitrary: inherited)
  case (Cons p own)
  let ?f = "\<lambda>ps p. filter (\<lambda>q. param_key q \<noteq> param_key p) ps @ [p]"
  let ?inh = "filter (\<lambda>q. param_key q \<noteq> param_key p) inherited @ [p]"
  have "distinct (map param_key ?inh)" using Cons.prems by (auto simp: distinct_map_filter)
  from Cons.IH [OF this] have IH: "distinct (map param_key (foldl ?f ?inh own))"
    "by_key (foldl ?f ?inh own) = by_key ?inh ++ by_key (rev own)" by blast+
  have "by_key ?inh = by_key inherited ++ by_key [p]"
    unfolding by_key_override by (simp add: map_add_upd)
  moreover have "by_key (rev (p # own)) = by_key [p] ++ by_key (rev own)" by simp
  ultimately show ?case using IH by (simp only: foldl_Cons map_add_assoc)
qed simp

definition id_param :: "bool \<Rightarrow> parameter_spec" where
  "id_param req = \<lparr>param_name = ''id'', param_location = Query, param_required = req, param_schema = Object []\<rparr>"

theorem merge_parameters_override_witness:
  "by_key (merge_parameters [id_param False] [id_param True]) (Query, ''id'') = Some (id_param True)"
proof -
  have "distinct (map param_key [id_param False])" by simp
  from merge_parameters_override [OF this, of "[id_param True]"] show ?thesis
    by (simp add: param_key_def id_param_def)
qed

section \<open>Schema normalisation\<close>

lemma nullable_step_off [simp]: "nullable_step False m = m"
  by (simp add: nullable_step_def split: option.split)

definition norm_member :: "bool \<Rightarrow> string \<times> value \<Rightarrow> string \<times> value" where
  "norm_member b kv = (fst kv,
     if fst kv \<in> set [''properties'', ''$defs'', ''definitions''] then
       (case snd kv of
          Object ps \<Rightarrow> Object (map (\<lambda>kw. (fst kw, normalize_schema b (snd kw))) ps)
        | w \<Rightarrow> w)
     else if fst kv \<in> set [''items'', ''additionalProperties'', ''not''] then normalize_schema b (snd kv)
     else if fst kv \<in> set [''allOf'', ''anyOf'', ''oneOf''] then
       (case snd kv of Array xs \<Rightarrow> Array (map (normalize_schema b) xs) | w \<Rightarrow> w)
     else snd kv)"

lemma normalize_Object: "normalize_schema b (Object m) = Object (nullable_step b (map (norm_member b) m))"
  by (subst normalize_schema.simps) (simp add: norm_member_def [abs_def])

lemma fst_norm_member [simp]: "fst (norm_member b kv) = fst kv"
  by (simp add: norm_member_def)

text \<open>A fact about all smaller schemas is a fact about the schemas inside a member.\<close>

lemma norm_member_cong:
  assumes "\<And>w. size w < size (Object m) \<Longrightarrow> f (normalize_schema b w) = g w" and "kv \<in> set m"
  shows "snd kv = Object ps \<Longrightarrow> kw \<in> set ps \<Longrightarrow> f (normalize_schema b (snd kw)) = g (snd kw)"
    and "snd kv = Array xs \<Longrightarrow> x \<in> set xs \<Longrightarrow> f (normalize_schema b x) = g x"
    and "f (normalize_schema b (snd kv)) = g (snd kv)"
  using object_member_size [OF assms(2)] object_member_size [of kw ps] array_member_size [of x xs]
  by (auto intro!: assms(1) simp del: json_size)

lemma norm_member_id:
  assumes "\<And>w. size w < size (Object m) \<Longrightarrow> normalize_schema b w = w" and "kv \<in> set m"
  shows "norm_member b kv = kv"
  using norm_member_cong [of m "\<lambda>x. x" b "\<lambda>x. x" kv] assms
  by (auto simp: norm_member_def prod_eq_iff split: json_splits intro!: map_idI)

lemma norm_member_idem:
  assumes "\<And>w. size w < size (Object m) \<Longrightarrow> normalize_schema b (normalize_schema b w) = normalize_schema b w"
    and "kv \<in> set m"
  shows "norm_member b (norm_member b kv) = norm_member b kv"
  using norm_member_cong [of m "normalize_schema b" b "normalize_schema b" kv] assms
  by (auto simp: norm_member_def split: json_splits)

lemma normalize_off: "normalize_schema False v = v"
proof (induction "size v" arbitrary: v rule: less_induct)
  case less
  show ?case
  proof (cases v)
    case (Object m)
    have "map (norm_member False) m = m" using less.hyps Object by (intro map_idI norm_member_id) simp
    then show ?thesis by (simp add: Object normalize_Object)
  qed (simp_all add: normalize_schema.simps)
qed

lemma nullable_step_idem: "nullable_step b (nullable_step b m) = nullable_step b m"
  by (auto simp: nullable_step_def [of b m] split: option.split) (auto simp: nullable_step_def split: option.split)

lemma nullable_step_mem:
  "kv \<in> set (nullable_step b m) \<Longrightarrow> kv \<in> set m \<or> fst kv = ''type''"
  by (auto simp: nullable_step_def bt_remove_def split: option.splits if_splits)

lemma normalize_idem: "normalize_schema b (normalize_schema b v) = normalize_schema b v"
proof (induction "size v" arbitrary: v rule: less_induct)
  case less
  show ?case
  proof (cases v)
    case (Object m)
    have "norm_member b kv = kv" if "kv \<in> set (nullable_step b (map (norm_member b) m))" for kv
      using nullable_step_mem [OF that]
    proof
      assume "kv \<in> set (map (norm_member b) m)"
      then show ?thesis using norm_member_idem less.hyps Object by auto
    next
      assume "fst kv = ''type''"
      then show ?thesis by (simp add: norm_member_def prod_eq_iff)
    qed
    then have "map (norm_member b) (nullable_step b (map (norm_member b) m)) = nullable_step b (map (norm_member b) m)"
      by (intro map_idI)
    then show ?thesis by (simp add: Object normalize_Object nullable_step_idem)
  qed (simp_all add: normalize_schema.simps)
qed

text \<open>
  Normalisation rewrites only OpenAPI 3.0 schemas and only once: for 3.1 it changes nothing,
  and applied to its own result it changes nothing, so a schema shared by several operations may be
  normalised again.
\<close>

theorem normalize_schema_stable:
  "normalize_schema False v = v \<and> normalize_schema b (normalize_schema b v) = normalize_schema b v"
  using normalize_off normalize_idem by blast

section \<open>Mock responses\<close>

lemma select_response_mem:
  assumes "select_response rs p = Some r"
  shows "r \<in> set rs" and "prefer_code p = Some c \<Longrightarrow> response_status r = nat_to_string c"
  using assms by (auto simp: select_response_def dest!: find_Some_mem split: option.splits list.splits)

lemma negotiate_available:
  assumes "negotiate_media_type avail accept = Some mt"
  shows "mt \<in> set avail"
proof -
  have "first_available avail es = Some x \<Longrightarrow> x \<in> set avail" for es x
    by (induction es) (auto split: if_splits list.splits)
  with assms show ?thesis by (auto simp: negotiate_media_type_def split: option.splits list.splits)
qed


lemma media_type_entry_negotiated:
  "negotiate_media_type (media_types r) accept = Some mt \<Longrightarrow> media_type_entry r mt \<noteq> None"
  by (auto dest!: negotiate_available simp: media_types_def media_type_entry_def find_None_iff)

section \<open>Location\<close>

text \<open>A segment the router reads as it is written: a literal without braces, or a named parameter.\<close>

fun plain_segment :: "segment_matcher \<Rightarrow> bool" where
  "plain_segment (Literal l) = (l \<noteq> [] \<and> set l \<inter> set ''/{}'' = {})"
| "plain_segment (Param n) = (n \<noteq> [] \<and> set n \<inter> set ''/{}'' = {})"

fun write_segment :: "segment_matcher \<Rightarrow> string" where
  "write_segment (Literal l) = l"
| "write_segment (Param n) = ''{'' @ n @ ''}''"

definition write_template :: "segment_matcher list \<Rightarrow> string" where
  "write_template ss = concat (map (\<lambda>s. ''/'' @ write_segment s) ss)"

abbreviation slashed :: "string list \<Rightarrow> string" where
  "slashed ws \<equiv> concat (map ((#) CHR ''/'') ws)"

lemma slashed_join: "ws \<noteq> [] \<Longrightarrow> slashed ws = CHR ''/'' # join ''/'' ws"
  by (induction "''/''" ws rule: join.induct) auto

lemma trim_matches_id:
  assumes "s = [] \<or> hd s \<noteq> c \<and> last s \<noteq> c"
  shows "trim_matches c s = s" and "trim_matches c (c # s) = s"
proof -
  have "dropWhile (\<lambda>x. x = c) s = s" using assms by (cases s) auto
  moreover have "dropWhile (\<lambda>x. x = c) (rev s) = rev s" using assms by (cases s rule: rev_cases) auto
  ultimately show "trim_matches c s = s" "trim_matches c (c # s) = s"
    by (simp_all add: trim_matches_def trim_start_matches_def trim_end_matches_def)
qed

lemma join_ends:
  "ws \<noteq> [] \<Longrightarrow> \<forall>w\<in>set ws. w \<noteq> [] \<Longrightarrow> join sep ws \<noteq> [] \<and> hd (join sep ws) = hd (hd ws) \<and> last (join sep ws) = last (last ws)"
  by (induction sep ws rule: join.induct) (auto simp: last_append)

lemma split_path_slashed:
  assumes "\<forall>w\<in>set ws. w \<noteq> [] \<and> CHR ''/'' \<notin> set w"
  shows "split_path (slashed ws) = ws"
proof (cases "ws = []")
  case False
  have "hd (hd ws) \<noteq> CHR ''/''" "last (last ws) \<noteq> CHR ''/''"
    using assms False by (metis hd_in_set last_in_set)+
  then have "trim_matches CHR ''/'' (slashed ws) = join ''/'' ws"
    using join_ends [of ws "''/''"] assms False by (simp add: slashed_join trim_matches_id(2))
  then show ?thesis
    using assms False split_on_join [of ws "CHR ''/''"] by (simp add: split_path_def)
qed (simp add: split_path_def trim_matches_def trim_start_matches_def trim_end_matches_def)

lemma segment_of_write: "plain_segment s \<Longrightarrow> segment_of (write_segment s) = s"
proof (cases s)
  case (Literal l)
  assume "plain_segment s"
  with Literal show ?thesis
    by (cases l) (auto simp: segment_of_def starts_with_def)
next
  case (Param n)
  assume "plain_segment s"
  with Param have "n \<noteq> []" by simp
  then show ?thesis using Param by (auto simp: segment_of_def starts_with_def ends_with_def suffix_def)
qed

lemma parse_write_template:
  assumes "\<forall>s\<in>set ss. plain_segment s"
  shows "parse_segments (write_template ss) = ss"
proof -
  have "\<forall>w\<in>set (map write_segment ss). w \<noteq> [] \<and> CHR ''/'' \<notin> set w"
  proof
    fix w
    assume "w \<in> set (map write_segment ss)"
    then obtain s where "s \<in> set ss" "w = write_segment s" by auto
    with assms show "w \<noteq> [] \<and> CHR ''/'' \<notin> set w" by (cases s) auto
  qed
  from split_path_slashed [OF this] have "split_path (write_template ss) = map write_segment ss"
    by (simp add: write_template_def comp_def)
  with assms show ?thesis by (auto simp: parse_segments_def segment_of_write intro!: map_idI)
qed

lemma substitute_literal:
  assumes "CHR ''{'' \<notin> set l"
  shows "substitute_path_params (l @ t) ps = l @ substitute_path_params t ps"
proof -
  have "split_once CHR ''{'' (l @ t) = map_option (\<lambda>(a, b). (l @ a, b)) (split_once CHR ''{'' t)"
    using assms by (induction l) (auto simp: option.map_comp comp_def split_def option.map_ident)
  then show ?thesis
    by (simp add: substitute_path_params.simps [of "l @ t"] substitute_path_params.simps [of t] split: option.split)
qed

lemma substitute_param:
  assumes "CHR ''}'' \<notin> set n"
  shows "substitute_path_params (''{'' @ n @ ''}'' @ t) ps =
    (case map_of ps n of Some v \<Rightarrow> v | None \<Rightarrow> ''{'' @ n @ ''}'') @ substitute_path_params t ps"
  using split_once_append [OF assms, of t] by (subst substitute_path_params.simps) simp

lemma substitute_template:
  "\<forall>s\<in>set ss. plain_segment s \<Longrightarrow> substitute_path_params (write_template ss) ps =
     slashed (map (\<lambda>s. case s of Literal l \<Rightarrow> l | Param n \<Rightarrow> (case map_of ps n of Some v \<Rightarrow> v | None \<Rightarrow> ''{'' @ n @ ''}'')) ss)"
proof (induction ss)
  case (Cons s ss)
  then show ?case
    using substitute_literal [of "''/''"] substitute_literal [of "''/'' @ _"]
    by (cases s) (auto simp: write_template_def substitute_literal substitute_param simp del: append.simps)
qed (simp add: write_template_def substitute_path_params.simps)

fun param_names :: "segment_matcher list \<Rightarrow> string list" where
  "param_names [] = []"
| "param_names (Param n # ss) = n # param_names ss"
| "param_names (Literal _ # ss) = param_names ss"

lemma bind_params_other:
  "n \<notin> set (param_names ss) \<Longrightarrow> map_of (bind_params ss segs ps) n = map_of ps n"
  by (induction ss segs ps rule: bind_params.induct) auto

lemma bound_segments:
  "matches_path ss segs \<Longrightarrow> distinct (param_names ss) \<Longrightarrow>
     map (\<lambda>s. case s of Literal l \<Rightarrow> l
       | Param n \<Rightarrow> (case map_of (bind_params ss segs ps) n of Some v \<Rightarrow> v | None \<Rightarrow> ''{'' @ n @ ''}'')) ss = segs"
  by (induction ss segs arbitrary: ps rule: matches_path.induct) (auto simp: bind_params_other)

lemma split_path_segments: "w \<in> set (split_path p) \<Longrightarrow> w \<noteq> [] \<and> CHR ''/'' \<notin> set w"
  by (auto simp: split_path_def dest: split_on_no_sep)

text \<open>
  C38. A declared \<open>Location\<close> is rendered as the path of the request: substituting the parameters of
  the match into the template of the matched operation gives back the segments of the request
  path, for a template whose parameters are whole segments with distinct names.
\<close>

theorem location_is_request_path:
  assumes "from_resolved doc = Inr api" and "match_operation api m p = Some (op, ps)"
    and "path_template op = write_template ss" and "\<forall>s\<in>set ss. plain_segment s" and "distinct (param_names ss)"
  shows "split_path (substitute_path_params (path_template op) ps) = split_path p"
proof -
  have "matches_path ss (split_path p)" "ps = bind_params ss (split_path p) []"
    using match_operation_cases [OF assms(1), of m p] assms(2,3) parse_write_template [OF assms(4)]
    by (simp_all add: serves_request_def)
  then have "substitute_path_params (path_template op) ps = slashed (split_path p)"
    by (simp add: assms(3) substitute_template [OF assms(4)] bound_segments [OF _ assms(5)])
  then show ?thesis by (simp add: split_path_slashed split_path_segments)
qed

definition pets_document :: "value" where
  "pets_document = Object [(''openapi'', Str ''3.0.0''),
     (''paths'', Object [(''/pets/{id}'', Object [(''get'', Object
        [(''responses'', Object [(''200'', Object [(''content'', Object [(''application/json'', Object
           [(''example'', Bool True)])])])])])])])]"

definition pets_api :: openapi_runtime where
  "pets_api = projr (from_resolved pets_document)"

lemma pets_api_ok: "from_resolved pets_document = Inr pets_api"
  by code_simp

definition pets_get :: operation_spec where
  "pets_get = hd (api_operations pets_api)"

theorem match_operation_correct_witness:
  "\<not> serves_request pets_get ''PUT'' ''/pets/7''"
proof -
  have "match_operation pets_api ''PUT'' ''/pets/7'' = None" by code_simp
  moreover have "pets_get \<in> set (api_operations pets_api)" by code_simp
  ultimately show ?thesis
    using match_operation_correct [OF pets_api_ok, of "''PUT''" "''/pets/7''"] by simp
qed

theorem location_is_request_path_witness:
  "split_path (substitute_path_params (path_template pets_get) [(''id'', ''7'')]) = [''pets'', ''7'']"
proof -
  have "match_operation pets_api ''GET'' ''/pets//7/'' = Some (pets_get, [(''id'', ''7'')])" by code_simp
  moreover have "path_template pets_get = write_template [Literal ''pets'', Param ''id'']" by code_simp
  ultimately have "split_path (substitute_path_params (path_template pets_get) [(''id'', ''7'')]) = split_path ''/pets//7/''"
    by (rule location_is_request_path [OF pets_api_ok]) simp_all
  also have "split_path ''/pets//7/'' = [''pets'', ''7'']" by code_simp
  finally show ?thesis .
qed


end
