(* ===== verification/Http_Props.thy ===== *)
theory Http_Props
  imports Http Openapi_Props
begin

text \<open>
  What the HTTP handler guarantees: only valid requests move scenario state or cause outgoing
  traffic, a proxy keeps credentials and checks the upstream against the contract, and the control
  endpoints need the token.
\<close>

section \<open>Only valid requests have effects\<close>

definition request_valid :: "web \<Rightarrow> http_runtime \<Rightarrow> http_request \<Rightarrow> bool" where
  "request_valid w rt rq \<longleftrightarrow>
     (\<exists>bytes api op ps body.
        rq_body rq = Some bytes \<and> length bytes \<le> unat (run_max_body_size rt) \<and>
        run_openapi rt = Some api \<and> match_operation api (rq_method rq) (rq_path rq) = Some (op, ps) \<and>
        (bytes = [] \<or> request_body_media_types op = [] \<or>
           media_type_is_accepted (request_body_media_types op)
             (opt_default [] (content_type_header (rq_headers rq)))) \<and>
        parse_optional_json_body w (rq_headers rq) bytes (request_body_schema op \<noteq> None) = Inr body \<and>
        validate_request (validate_value w) op ps (parse_query w (rq_query rq)) (rq_headers rq) body (bytes \<noteq> []) = [])"

lemma check_request_valid: "check_request w rt rq = Inr acc \<Longrightarrow> request_valid w rt rq"
  unfolding check_request_def request_valid_def validate_http_request_def Let_def opt_default_def
  by (auto split: option.splits prod.splits if_splits sum.splits)

lemma mock_request_config:
  assumes "mock_request w rt rq acc = (r, rt', outs)"
  shows "rt'\<lparr>run_scenarios := run_scenarios rt\<rparr> = rt"
  using assms
  by (auto simp: mock_request_def Let_def split_def
      split: sum.splits runtime_error.splits option.splits)

lemma mock_request_bypass:
  assumes "mock_request w rt rq acc = (r, rt', outs)"
    and "prefer_code (from_headers (rq_headers rq)) \<noteq> None \<or> prefer_dynamic (from_headers (rq_headers rq))"
  shows "rt' = rt"
proof -
  have "snd (scenario_resolve tj scen sc session m t ps body gen True ok) = scen" for tj scen sc session m t ps body gen ok
    by (simp add: scenario_resolve_def resolve_with_def)
  moreover have "rt\<lparr>run_scenarios := Some scen\<rparr> = rt" if "run_scenarios rt = Some scen" for scen
    using that by (metis http_runtime.surjective http_runtime.update_convs(9) http_runtime.select_convs(9))
  ultimately show ?thesis
    using assms
    by (auto simp: mock_request_def Let_def split_def split: sum.splits runtime_error.splits option.splits)
qed

text \<open>
  C17. Only a valid request has effects: whatever a request does to the server beyond its response,
  a change of scenario state or an outgoing request, happens only if its body was within the limit,
  it matched an operation, its media type was declared and request validation found no issue. Only
  the scenario instances ever change, and not even those for a request with \<open>Prefer: code\<close> or
  \<open>dynamic=true\<close>.
\<close>

theorem http_effects_only_when_valid:
  assumes "http_fallback_handler w send rt rq = (r, rt', outs)"
  shows "rt'\<lparr>run_scenarios := run_scenarios rt\<rparr> = rt
    \<and> (rt' \<noteq> rt \<or> outs \<noteq> [] \<longrightarrow> request_valid w rt rq)
    \<and> (prefer_code (from_headers (rq_headers rq)) \<noteq> None \<or> prefer_dynamic (from_headers (rq_headers rq)) \<longrightarrow> rt' = rt)"
proof (cases "check_request w rt rq")
  case (Inr acc)
  with assms check_request_valid [OF Inr] show ?thesis
    using mock_request_config [of w rt rq acc r rt' outs] mock_request_bypass [of w rt rq acc r rt' outs]
    by (auto simp: http_fallback_handler_def split: mock_mode.splits option.splits)
qed (use assms in \<open>auto simp: http_fallback_handler_def\<close>)

section \<open>Proxying\<close>

text \<open>
  C18. A proxy forwards to its upstream and nowhere else, without the client's credentials, and
  answers within the contract: every outgoing request goes to the configured base URL, carries no
  \<open>Authorization\<close>, \<open>Proxy-Authorization\<close> or \<open>Cookie\<close> header and names the upstream as its only host;
  no scenario state moves; and a JSON answer for a status with a declared schema is valid against
  that schema unless the server answers 502.
\<close>

theorem proxy_contract:
  assumes "run_mode rt = Proxy" and "run_upstream rt = Some u" and "valid_status w 502"
    and "http_fallback_handler w send rt rq = (r, rt', outs)"
  shows "rt' = rt
    \<and> (\<forall>sent\<in>set outs. prefix (trim_end_matches CHR ''/'' (url_text u) @ rq_path rq) (out_url sent) \<and>
        (\<forall>(n, v)\<in>set (out_headers sent).
           to_ascii_lowercase n \<notin> {''authorization'', ''proxy-authorization'', ''cookie''} \<and>
           (to_ascii_lowercase n = ''host'' \<longrightarrow> host_value u = Some v)))
    \<and> (\<forall>resp acc schema. r = Some resp \<longrightarrow> check_request w rt rq = Inr acc \<longrightarrow> resp_status resp \<noteq> 502 \<longrightarrow>
        response_schema_for_status (acc_operation acc) (resp_status resp) = Some schema \<longrightarrow>
        header_is_json (resp_headers resp) \<longrightarrow>
        (\<exists>v. read_json w (resp_body resp) = Inr v \<and> validate_value w schema v = Inr []))"
proof -
  have err: "resp_status (error_response w 502 is) = 502" for "is"
    using assms(3) by (simp add: error_response_def problem_response_def problem_validation_error_def)
  have host: "to_ascii_lowercase ''host'' = ''host''" by code_simp
  have "\<exists>v. read_json w (resp_body resp) = Inr v \<and> validate_value w schema v = Inr []"
    if "resp = proxy_request w send u rq acc" "resp_status resp \<noteq> 502"
      "response_schema_for_status (acc_operation acc) (resp_status resp) = Some schema"
      "header_is_json (resp_headers resp)" for resp acc schema
    using that
    by (auto simp: proxy_request_def check_upstream_def Let_def err
        split: sum.splits option.splits if_splits)
  with assms host show ?thesis
    by (cases "check_request w rt rq")
      (auto simp: http_fallback_handler_def upstream_request_def STRIPPED_HEADERS_def prefix_def split: option.splits)
qed

section \<open>Control endpoints\<close>

text \<open>
  The only mutating endpoint is guarded: the control routes exist exactly if a token is
  configured, and then a reset without that token as bearer is answered with 401 and changes
  nothing.
\<close>

theorem control_needs_token:
  assumes "valid_status w 401" and "run_control_token rt = Some token"
    and "header_str hm ''authorization'' \<noteq> Some (''Bearer '' @ token)"
  shows "(\<exists>denied. control_reset_handler w rt hm = (denied, rt) \<and> resp_status denied = 401)
    \<and> resp_status (control_state_handler w rt hm) = 401
    \<and> (''POST'', CONTROL_PREFIX @ ''/reset'', ControlReset) \<notin> set (explicit_routes (rt\<lparr>run_control_token := None\<rparr>))"
proof -
  have "Option.bind (header_str hm ''authorization'') (strip_prefix ''Bearer '') \<noteq> Some token"
    using assms(3) by (cases "header_str hm ''authorization''") (auto simp: strip_prefix_def prefix_def)
  then obtain denied where "authorize_control w rt hm = Some denied" "resp_status denied = 401"
    using assms(1,2) by (auto simp: authorize_control_def problem_response_def problem_stateful_error_def)
  then show ?thesis
    by (auto simp: control_reset_handler_def control_state_handler_def explicit_routes_def)
qed

section \<open>A concrete server\<close>

definition demo_web :: web where
  "demo_web =
     \<lparr>parse_url = (\<lambda>_. Inl []), form_decode = (\<lambda>_. []), read_json = (\<lambda>_. Inr (Bool True)),
      print_json = (\<lambda>_. ''true''), print_problem = (\<lambda>_. []), valid_status = (\<lambda>s. 100 \<le> s \<and> s < 1000),
      header_name = (\<lambda>n. Some (to_ascii_lowercase n)), valid_header_value = (\<lambda>_. True),
      validate_value = (\<lambda>_ _. Inr []), generate_value = (\<lambda>_ _. Inl Panicked)\<rparr>"

definition demo_upstream :: url where
  "demo_upstream = \<lparr>scheme = ''http'', host_str = Some ''up'', url_port = Some 81, url_text = ''http://up:81/''\<rparr>"

definition demo_proxy :: http_runtime where
  "demo_proxy =
     \<lparr>run_openapi = Some pets_api, run_asyncapi = None, run_mode = Proxy, run_upstream = Some demo_upstream,
      run_seed = 42, run_ws_path = ''/ws'', ws_channel_paths = [], run_max_body_size = 1024,
      run_scenarios = None, run_control_token = Some ''secret'', ws_sessions = 0\<rparr>"

definition demo_get :: http_request where
  "demo_get = \<lparr>rq_method = ''GET'', rq_path = ''/pets/7'', rq_query = None,
     rq_headers = [(''cookie'', ''a=b''), (''accept'', ''*/*'')], rq_body = Some []\<rparr>"

definition demo_send :: client where
  "demo_send _ = Inr (200, [(''content-type'', ''application/json'')], Inr ''true'')"

abbreviation demo_sent :: outbound where
  "demo_sent \<equiv> upstream_request demo_upstream demo_get []"

lemma demo_handled:
  "http_fallback_handler demo_web demo_send demo_proxy demo_get =
     (Some \<lparr>resp_status = 200, resp_headers = [(''content-type'', ''application/json'')], resp_body = ''true''\<rparr>,
      demo_proxy, [demo_sent])"
proof -
  have "(case check_request demo_web demo_proxy demo_get of
      Inr acc \<Rightarrow> acc_bytes acc = [] \<and> response_schema_for_status (acc_operation acc) 200 = None | Inl _ \<Rightarrow> False)"
    by code_simp
  then show ?thesis
    by (auto simp: http_fallback_handler_def demo_proxy_def proxy_request_def demo_send_def check_upstream_def Let_def
        split: sum.splits)
qed

theorem http_effects_only_when_valid_witness: "request_valid demo_web demo_proxy demo_get"
  using http_effects_only_when_valid [OF demo_handled] by simp

theorem proxy_contract_witness:
  "prefix ''http://up:81/pets/7'' (out_url demo_sent) \<and> out_headers demo_sent = [(''accept'', ''*/*''), (''host'', ''up:81'')]"
proof -
  have rt: "run_mode demo_proxy = Proxy" "run_upstream demo_proxy = Some demo_upstream" "valid_status demo_web 502"
    by code_simp+
  have "trim_end_matches CHR ''/'' (url_text demo_upstream) @ rq_path demo_get = ''http://up:81/pets/7''"
    and "out_headers demo_sent = [(''accept'', ''*/*''), (''host'', ''up:81'')]" by code_simp+
  with proxy_contract [OF rt demo_handled] show ?thesis by simp
qed

theorem control_needs_token_witness:
  "resp_status (control_state_handler demo_web demo_proxy [(''authorization'', ''Bearer guess'')]) = 401"
proof -
  have "valid_status demo_web 401" "run_control_token demo_proxy = Some ''secret''"
    "header_str [(''authorization'', ''Bearer guess'')] ''authorization'' \<noteq> Some (''Bearer '' @ ''secret'')"
    by code_simp+
  from control_needs_token [OF this] show ?thesis by simp
qed

end
