(* ===== verification/Config_Props.thy ===== *)
theory Config_Props
  imports Config
begin

text \<open>
  What configuration validation guarantees: textual addresses read back, and a validated proxy never
  forwards to a literal loopback, private or link-local IPv4 address. The last section shows which
  IPv6 addresses the guard lets through.
\<close>

section \<open>Reading addresses\<close>

definition print_ipv4 :: "u8 list \<Rightarrow> string" where
  "print_ipv4 os = join ''.'' (map (\<lambda>x. nat_to_string (unat x)) os)"

lemma to_digit_decimal: "is_ascii_digit c \<Longrightarrow> to_digit 10 c = Some (digit_value c)"
  by (auto simp: to_digit_def hex_digit_def digit_value_def ascii_defs)

lemma decimal_value:
  "list_all is_ascii_digit ds \<Longrightarrow>
     foldl (\<lambda>acc c. acc * 10 + the (to_digit 10 c)) n ds = foldl (\<lambda>acc c. 10 * acc + digit_value c) n ds"
  by (induction ds arbitrary: n) (simp_all add: to_digit_decimal mult.commute)

lemma nat_to_string_value: "foldl (\<lambda>acc c. acc * 10 + the (to_digit 10 c)) 0 (nat_to_string n) = n"
  using digits_value_nat_to_string [of n] decimal_value [OF nat_to_string_digits, of 0 n]
  by (simp add: digits_value_def del: nat_to_string.simps digits_value_nat_to_string)

lemma nat_to_string_length: "n < 1000 \<Longrightarrow> length (nat_to_string n) \<le> 3"
proof -
  have one: "n < 10 \<Longrightarrow> length (nat_to_string n) = 1" for n by (simp add: nat_to_string.simps [of n])
  have two: "length (nat_to_string n) \<le> 2" if "n < 100" for n
    using that one [of "n div 10"] by (cases "n < 10") (simp_all add: nat_to_string.simps [of n])
  show "n < 1000 \<Longrightarrow> length (nat_to_string n) \<le> 3"
    using two [of "n div 10"] by (cases "n < 10") (simp_all add: nat_to_string.simps [of n])
qed

lemma nat_to_string_lead: "hd (nat_to_string n) = CHR ''0'' \<longrightarrow> length (nat_to_string n) = 1"
proof (induction n rule: nat_to_string.induct)
  case (1 n)
  show ?case
  proof (cases "n < 10")
    case False
    have "hd (nat_to_string (n div 10)) \<noteq> CHR ''0''"
    proof (cases "n div 10 < 10")
      case True
      have "digit_char (n div 10) = CHR ''0'' \<Longrightarrow> n div 10 = 0"
        using digit_char_value [OF True] by (simp add: digit_value_def char_code_def)
      with True False show ?thesis by (auto simp: nat_to_string.simps [of "n div 10"])
    next
      case False
      then have "length (nat_to_string (n div 10)) \<noteq> 1" by (simp add: nat_to_string.simps [of "n div 10"])
      with 1 \<open>\<not> n < 10\<close> show ?thesis by blast
    qed
    with False show ?thesis by (simp add: nat_to_string.simps [of n])
  qed (simp add: nat_to_string.simps [of n])
qed

lemma takeWhile_stop:
  "list_all P ds \<Longrightarrow> rest = [] \<or> \<not> P (hd rest) \<Longrightarrow> takeWhile P (ds @ rest) = ds"
  by (induction ds) (cases rest; auto)+

lemma read_number_octet:
  assumes "n \<le> 255" and "rest = [] \<or> to_digit 10 (hd rest) = None"
  shows "read_number 10 3 False 255 (nat_to_string n @ rest) = Some (n, rest)"
proof -
  have digits: "list_all (\<lambda>c. to_digit 10 c \<noteq> None) (nat_to_string n)"
    using nat_to_string_digits [of n] by (simp add: list_all_iff to_digit_decimal del: nat_to_string.simps)
  have "takeWhile (\<lambda>c. to_digit 10 c \<noteq> None) (nat_to_string n @ rest) = nat_to_string n"
    using assms(2) by (intro takeWhile_stop [OF digits]) auto
  with nat_to_string_length [of n] nat_to_string_lead [of n] assms(1) show ?thesis
    by (auto simp: read_number_def nat_to_string_value Let_def simp del: nat_to_string.simps)
qed

lemma unat_u8: "unat (x::u8) \<le> 255"
  using unsigned_less [of x, where ?'a = nat] by simp

abbreviation dotted :: "u8 list \<Rightarrow> string" where
  "dotted os \<equiv> concat (map (\<lambda>x. CHR ''.'' # nat_to_string (unat x)) os)"

lemma dotted_hd:
  assumes "rest = [] \<or> to_digit 10 (hd rest) = None"
  shows "dotted os @ rest = [] \<or> to_digit 10 (hd (dotted os @ rest)) = None"
proof -
  have "to_digit 10 CHR ''.'' = None" by code_simp
  with assms show ?thesis by (cases os) auto
qed

lemma print_ipv4_Cons: "print_ipv4 (x # os) = nat_to_string (unat x) @ dotted os"
proof (induction os arbitrary: x)
  case (Cons y os)
  then show ?case by (simp add: print_ipv4_def del: nat_to_string.simps)
qed (simp add: print_ipv4_def)

lemma read_octets_dotted:
  assumes "rest = [] \<or> to_digit 10 (hd rest) = None"
  shows "read_octets (Suc i) (length os) (dotted os @ rest) = Some (os, rest)"
proof (induction os arbitrary: i)
  case (Cons x os)
  then show ?case
    using read_number_octet [OF unat_u8 dotted_hd [OF assms], of x os]
    by (simp add: read_separator_def strip_prefix_def del: nat_to_string.simps)
qed simp

lemma read_print_ipv4:
  assumes "length os = 4" and "rest = [] \<or> to_digit 10 (hd rest) = None"
  shows "read_ipv4_addr (print_ipv4 os @ rest) = Some (os, rest)"
proof -
  obtain x xs where os: "os = x # xs" using assms by (cases os) auto
  then show ?thesis
    using read_octets_dotted [OF assms(2), of 0 xs] read_number_octet [OF unat_u8 dotted_hd [OF assms(2)], of x xs] assms(1)
    by (simp add: read_ipv4_addr_def numeral_eq_Suc read_separator_def print_ipv4_Cons del: nat_to_string.simps)
qed

lemma parse_print_ipv4:
  assumes "length os = 4"
  shows "parse_ip_addr (print_ipv4 os) = Some (V4 os)"
  using read_print_ipv4 [OF assms, of "[]"] by (simp add: parse_ip_addr_def)

lemma nat_to_string_no_bracket: "CHR ''['' \<notin> set (nat_to_string n)" "CHR '']'' \<notin> set (nat_to_string n)"
  using nat_to_string_digits [of n] by (auto simp: list_all_iff ascii_defs)

lemma join_set: "set (join sep ws) \<subseteq> set sep \<union> (\<Union>w\<in>set ws. set w)"
  by (induction sep ws rule: join.induct) auto

lemma trim_absent: "c \<notin> set s \<Longrightarrow> trim_start_matches c s = s" "c \<notin> set s \<Longrightarrow> trim_end_matches c s = s"
proof -
  show "c \<notin> set s \<Longrightarrow> trim_start_matches c s = s" for s
    by (cases s) (auto simp: trim_start_matches_def)
  show "c \<notin> set s \<Longrightarrow> trim_end_matches c s = s"
    by (cases s rule: rev_cases) (auto simp: trim_end_matches_def)
qed

lemma strip_brackets_ipv4 [simp]: "strip_brackets (print_ipv4 os) = print_ipv4 os"
proof -
  have "CHR ''['' \<notin> set (print_ipv4 os)" "CHR '']'' \<notin> set (print_ipv4 os)"
    using join_set [of "''.''" "map (\<lambda>x. nat_to_string (unat x)) os"] nat_to_string_no_bracket
    unfolding print_ipv4_def by fastforce+
  then show ?thesis by (simp add: strip_brackets_def trim_absent)
qed

section \<open>The upstream guard\<close>

lemma guard_ok [simp]: "guard bad m next = Inr x \<longleftrightarrow> \<not> bad \<and> next = Inr x"
  by (simp add: guard_def config_error_def)

lemma validate_upstream:
  assumes "validate_config parse_url exists cfg = Inr ()" and "upstream cfg = Some text" and "parse_url text = Inr u"
  shows "scheme u = ''http'' \<or> scheme u = ''https''"
    and "mode cfg = Proxy \<Longrightarrow> \<not> allow_private_upstream cfg \<Longrightarrow> \<not> private_host u"
  using assms by (auto simp: validate_config_def upstream_check_def split: sum.splits)

text \<open>
  C23. A validated proxy does not forward into the local network: unless the operator allows it, the
  upstream of an accepted proxy configuration has an HTTP scheme, and if its host is a literal
  IPv4 address, that address is not loopback, private or link-local; nor is it the IPv6 loopback.
\<close>

theorem validated_upstream_public:
  assumes "validate_config parse_url exists cfg = Inr ()" and "mode cfg = Proxy" and "\<not> allow_private_upstream cfg"
    and "upstream cfg = Some text" and "parse_url text = Inr u"
  shows "(scheme u = ''http'' \<or> scheme u = ''https'') \<and>
    (host_str u = Some (print_ipv4 [a, b, c, d]) \<longrightarrow>
       a \<noteq> 127 \<and> a \<noteq> 10 \<and> \<not> (a = 172 \<and> 16 \<le> b \<and> b \<le> 31) \<and> \<not> (a = 192 \<and> b = 168) \<and> \<not> (a = 169 \<and> b = 254)) \<and>
    host_str u \<noteq> Some ''[::1]''"
proof -
  have public: "\<not> private_host u" using validate_upstream(2) assms by blast
  have "parse_ip_addr (print_ipv4 [a, b, c, d]) = Some (V4 [a, b, c, d])" by (rule parse_print_ipv4) simp
  moreover have "parse_ip_addr (strip_brackets ''[::1]'') = Some (V6 [0, 0, 0, 0, 0, 0, 0, 1])" by code_simp
  ultimately show ?thesis
    using public validate_upstream(1) [OF assms(1,4,5)] by (auto simp: private_host_def)
qed

definition plain_url :: "string \<Rightarrow> string + url" where
  "plain_url text =
     (case strip_prefix ''http://'' text of
        None \<Rightarrow> Inl ''relative URL without a base''
      | Some host \<Rightarrow> Inr \<lparr>scheme = ''http'', host_str = Some host, url_port = None, url_text = text @ ''/''\<rparr>)"

definition proxy_config :: "string \<Rightarrow> server_config" where
  "proxy_config text = default_config\<lparr>openapi_spec := Some ''api.yaml'', mode := Proxy, upstream := Some text\<rparr>"

theorem validated_upstream_public_witness:
  "validate_config plain_url (\<lambda>_. True) (proxy_config ''http://93.184.216.34'') = Inr ()
   \<and> (93::u8) \<noteq> 127"
proof -
  let ?u = "\<lparr>scheme = ''http'', host_str = Some ''93.184.216.34'', url_port = None, url_text = ''http://93.184.216.34/''\<rparr>"
  have ok: "validate_config plain_url (\<lambda>_. True) (proxy_config ''http://93.184.216.34'') = Inr ()" by code_simp
  have cfg: "mode (proxy_config ''http://93.184.216.34'') = Proxy"
    "\<not> allow_private_upstream (proxy_config ''http://93.184.216.34'')"
    "upstream (proxy_config ''http://93.184.216.34'') = Some ''http://93.184.216.34''"
    and url: "plain_url ''http://93.184.216.34'' = Inr ?u" by code_simp+
  have "host_str ?u = Some (print_ipv4 [93, 184, 216, 34])" by code_simp
  with validated_upstream_public [OF ok cfg url, of 93 184 216 34] ok show ?thesis by simp
qed

text \<open>
  The guard knows no IPv6 address but the loopback: link-local, unique local and IPv4-mapped
  loopback addresses of the URL are let through.
\<close>

lemma upstream_ipv6_unguarded:
  "list_all (\<lambda>host. validate_config plain_url (\<lambda>_. True) (proxy_config (''http://'' @ host)) = Inr ())
     [''[fe80::1]'', ''[fd00::1]'', ''[::ffff:127.0.0.1]'', ''[::ffff:7f00:1]'']"
  by code_simp

end
