(* ===== verification/Ws_Handler.thy ===== *)
theory Ws_Handler
  imports Http
begin

text \<open>
  The WebSocket handler of \<open>specmock-runtime/src/http/ws_handler.rs\<close>: the rate limiter, the upgrade
  with its query parameters, the message loop of a connection over the sequence of what the
  socket delivers, and the scenario overlay. Time is a count of nanoseconds; the serialisers are
  parameters.
\<close>

section \<open>Rate limiter\<close>

definition MAX_WS_MESSAGES_PER_SECOND :: u32 where
  "MAX_WS_MESSAGES_PER_SECOND = 100"

abbreviation second :: nat where "second \<equiv> 1000000000"

record rate_limiter =
  message_count :: u32
  window_start :: nat

definition rate_limiter_new :: "nat \<Rightarrow> rate_limiter" where
  "rate_limiter_new now = \<lparr>message_count = 0, window_start = now\<rparr>"

definition check_and_update :: "nat \<Rightarrow> rate_limiter \<Rightarrow> bool \<times> rate_limiter" where
  "check_and_update now rl =
     (if second \<le> now - window_start rl then (True, \<lparr>message_count = 1, window_start = now\<rparr>)
      else if MAX_WS_MESSAGES_PER_SECOND \<le> message_count rl then (False, rl)
      else (True, rl\<lparr>message_count := message_count rl + 1\<rparr>))"

section \<open>Query parameters\<close>

text \<open>Well-formed UTF-8, as \<open>String::from_utf8\<close> decides it.\<close>

definition cont :: "char \<Rightarrow> bool" where
  "cont c = (128 \<le> char_code c \<and> char_code c \<le> 191)"

definition second_of_three :: "char \<Rightarrow> char \<Rightarrow> bool" where
  "second_of_three a b =
     (let x = char_code a; y = char_code b in
      x = 224 \<and> 160 \<le> y \<and> y \<le> 191 \<or> x = 237 \<and> 128 \<le> y \<and> y \<le> 159 \<or>
      (225 \<le> x \<and> x \<le> 236 \<or> 238 \<le> x \<and> x \<le> 239) \<and> cont b)"

definition second_of_four :: "char \<Rightarrow> char \<Rightarrow> bool" where
  "second_of_four a b =
     (let x = char_code a; y = char_code b in
      x = 240 \<and> 144 \<le> y \<and> y \<le> 191 \<or> x = 244 \<and> 128 \<le> y \<and> y \<le> 143 \<or>
      241 \<le> x \<and> x \<le> 243 \<and> cont b)"

fun valid_utf8 :: "string \<Rightarrow> bool" where
  "valid_utf8 [] = True"
| "valid_utf8 (a # s) =
     (if char_code a < 128 then valid_utf8 s
      else case s of
             [] \<Rightarrow> False
           | b # s \<Rightarrow>
               if 194 \<le> char_code a \<and> char_code a \<le> 223 \<and> cont b then valid_utf8 s
               else (case s of
                       [] \<Rightarrow> False
                     | c # s \<Rightarrow>
                         if second_of_three a b \<and> cont c then valid_utf8 s
                         else (case s of
                                 [] \<Rightarrow> False
                               | d # s \<Rightarrow> second_of_four a b \<and> cont c \<and> cont d \<and> valid_utf8 s)))"

text \<open>\<open>u8::from_str_radix\<close> with radix 16, which accepts a leading plus sign.\<close>

definition u8_from_hex :: "string \<Rightarrow> nat option" where
  "u8_from_hex s =
     (let ds = (case strip_prefix ''+'' s of Some r \<Rightarrow> r | None \<Rightarrow> s) in
      if ds = [] \<or> \<not> list_all (\<lambda>c. hex_digit c \<noteq> None) ds then None
      else let n = foldl (\<lambda>acc c. acc * 16 + the (hex_digit c)) 0 ds in
           if n \<le> 255 then Some n else None)"

text \<open>The decoding loop; it gives up if the two bytes after a percent sign are not text.\<close>

fun percent_bytes :: "string \<Rightarrow> string option" where
  "percent_bytes [] = Some []"
| "percent_bytes (c # s) =
     (case (if c = CHR ''%'' \<and> 2 \<le> length s
            then if \<not> valid_utf8 (take 2 s) then None else Some (u8_from_hex (take 2 s))
            else Some None) of
        None \<Rightarrow> None
      | Some (Some b) \<Rightarrow> map_option (Cons (char_of b)) (percent_bytes (drop 2 s))
      | Some None \<Rightarrow> map_option (Cons c) (percent_bytes s))"

definition percent_decode :: "string \<Rightarrow> string option" where
  "percent_decode v =
     (if CHR ''%'' \<notin> set v then None
      else Option.bind (percent_bytes v) (\<lambda>out. if valid_utf8 out then Some out else None))"

definition query_param :: "string option \<Rightarrow> string \<Rightarrow> string option" where
  "query_param query name =
     Option.bind query (\<lambda>q.
       case List.map_filter (\<lambda>pair.
              Option.bind (split_once CHR ''='' pair) (\<lambda>(k, v).
                if k \<noteq> name then None
                else let v = opt_default v (percent_decode v) in if v = [] then None else Some v))
            (split_on CHR ''&'' q) of
         [] \<Rightarrow> None
       | v # _ \<Rightarrow> Some v)"

section \<open>Upgrade\<close>

record ws_connection =
  pinned_channel :: "string option"
  requested_scenario :: "string option"
  ws_session :: string

definition ws_upgrade_handler ::
  "web \<Rightarrow> http_runtime \<Rightarrow> string \<Rightarrow> string option \<Rightarrow> (http_response + ws_connection) \<times> http_runtime" where
  "ws_upgrade_handler w rt p query =
     (if run_asyncapi rt = None then
        (Inl \<lparr>resp_status = 404, resp_headers = [(''content-type'', ''application/json'')],
              resp_body = print_json w (Object [(''error'', Str ''asyncapi runtime is not configured'')])\<rparr>, rt)
      else
        let pinned = resolve_ws_channel rt p;
            (session, rt) = (case query_param query ''session'' of
                               Some s \<Rightarrow> (s, rt)
                             | None \<Rightarrow> fresh_ws_session rt)
        in (Inr \<lparr>pinned_channel = pinned, requested_scenario = query_param query ''scenario'',
                 ws_session = session\<rparr>, rt))"

section \<open>Messages\<close>

definition apply_scenario ::
  "web \<Rightarrow> http_runtime \<Rightarrow> ws_outcome \<Rightarrow> string option \<Rightarrow> string \<Rightarrow> string option \<Rightarrow> value option
     \<Rightarrow> ws_outcome \<times> http_runtime" where
  "apply_scenario w rt outcome scen_name session pinned incoming =
     (case (run_scenarios rt, scen_name, pinned, outcome) of
        (Some scen, Some name, Some channel, WsMock _ payload) \<Rightarrow>
          let (r, scen') = resolve_channel (print_json w) scen name session channel incoming payload
          in (case r of
                Body v \<Rightarrow> WsMock channel v
              | Forced _ (Some v) \<Rightarrow> WsMock channel v
              | FailedWith f \<Rightarrow> WsError [issue ''/'' ''#'' ''scenario'' (failure_detail f)]
              | _ \<Rightarrow> outcome,
              rt\<lparr>run_scenarios := Some scen'\<rparr>)
      | _ \<Rightarrow> (outcome, rt))"

text \<open>The generated answer: a pinned channel gets the message wrapped in an envelope for it.\<close>

definition ws_answer :: "web \<Rightarrow> http_runtime \<Rightarrow> string option \<Rightarrow> string \<Rightarrow> ws_outcome" where
  "ws_answer w rt pinned msg =
     (case run_asyncapi rt of
        None \<Rightarrow> WsError [issue ''/'' ''#'' ''runtime'' ''asyncapi runtime is not configured'']
      | Some api \<Rightarrow>
          let handle = (\<lambda>t. handle_message (validate_value w) (generate_value w) (read_json w) api t (run_seed rt)) in
          case pinned of
            None \<Rightarrow> handle msg
          | Some channel \<Rightarrow>
              (case read_json w msg of
                 Inl _ \<Rightarrow> handle msg
               | Inr payload \<Rightarrow>
                   handle (print_json w (Object [(''channel'', Str channel), (''payload'', payload)]))))"

definition rate_limit_error :: "web \<Rightarrow> string" where
  "rate_limit_error w =
     print_json w (Object
       [(''errors'', Array [Object
          [(''instance_pointer'', Str ''/''), (''keyword'', Str ''rate_limit''),
           (''message'', Str (''rate limit exceeded: '' @ nat_to_string (unat MAX_WS_MESSAGES_PER_SECOND)
              @ '' messages per second'')),
           (''schema_pointer'', Str ''#'')]]),
        (''type'', Str ''error'')])"

definition encode_outcome :: "web \<Rightarrow> (ws_outcome \<Rightarrow> string + string) \<Rightarrow> ws_outcome \<Rightarrow> string" where
  "encode_outcome w print_outcome outcome =
     (case print_outcome outcome of
        Inr t \<Rightarrow> t
      | Inl e \<Rightarrow>
          print_json w (Object
            [(''errors'', Array [Object
               [(''instance_pointer'', Str ''/''), (''keyword'', Str ''json''),
                (''message'', Str (''failed to encode ws response: '' @ e)), (''schema_pointer'', Str ''#'')]]),
             (''type'', Str ''error'')]))"

text \<open>What a socket delivers, when it arrives, and whether an answer to it can still be sent.\<close>

datatype ws_item = TextItem string | OtherItem | BrokenItem

record ws_event =
  arrival :: nat
  ws_item :: ws_item
  deliverable :: bool

text \<open>
  The loop of a connection: the texts it tries to send and the runtime when it ends, which is
  \<open>None\<close> beside the texts if the task unwinds in a panic and so never releases its instance.
\<close>

fun ws_loop ::
  "web \<Rightarrow> (ws_outcome \<Rightarrow> string + string) \<Rightarrow> ws_connection \<Rightarrow> string option \<Rightarrow> rate_limiter \<Rightarrow> http_runtime
     \<Rightarrow> ws_event list \<Rightarrow> string list \<times> bool \<times> http_runtime" where
  "ws_loop w po c scen_name rl rt [] = ([], True, rt)"
| "ws_loop w po c scen_name rl rt (e # es) =
     (case ws_item e of
        BrokenItem \<Rightarrow> ([], True, rt)
      | OtherItem \<Rightarrow> ws_loop w po c scen_name rl rt es
      | TextItem msg \<Rightarrow>
          let (ok, rl) = check_and_update (arrival e) rl in
          if \<not> ok then
            if \<not> deliverable e then ([rate_limit_error w], True, rt)
            else map_prod (Cons (rate_limit_error w)) id (ws_loop w po c scen_name rl rt es)
          else
            (case ws_answer w rt (pinned_channel c) msg of
               WsPanic \<Rightarrow> ([], False, rt)
             | outcome \<Rightarrow>
                 let (outcome, rt) = apply_scenario w rt outcome scen_name (ws_session c) (pinned_channel c)
                       (case read_json w msg of Inr v \<Rightarrow> Some v | Inl _ \<Rightarrow> None);
                     encoded = encode_outcome w po outcome
                 in if \<not> deliverable e then ([encoded], True, rt)
                    else map_prod (Cons encoded) id (ws_loop w po c scen_name rl rt es)))"

definition ws_socket_loop ::
  "web \<Rightarrow> (ws_outcome \<Rightarrow> string + string) \<Rightarrow> ws_connection \<Rightarrow> nat \<Rightarrow> http_runtime \<Rightarrow> ws_event list
     \<Rightarrow> string list \<times> http_runtime" where
  "ws_socket_loop w po c opened rt es =
     (let scen_name = (case requested_scenario c of
                         Some n \<Rightarrow> Some n
                       | None \<Rightarrow> Option.bind (run_scenarios rt) default_scenario_name);
          (sent, finished, rt) = ws_loop w po c scen_name (rate_limiter_new opened) rt es
      in (sent,
          if \<not> finished then rt
          else case run_scenarios rt of
                 None \<Rightarrow> rt
               | Some scen \<Rightarrow>
                   (case (case scen_name of Some n \<Rightarrow> Some n | None \<Rightarrow> default_scenario_name scen) of
                      None \<Rightarrow> rt
                    | Some n \<Rightarrow> rt\<lparr>run_scenarios := Some (snd (release scen n (ws_session c)))\<rparr>)))"

section \<open>How many messages pass the limiter\<close>

fun passed :: "rate_limiter \<Rightarrow> nat list \<Rightarrow> nat list" where
  "passed rl [] = []"
| "passed rl (t # ts) =
     (let (ok, rl) = check_and_update t rl in if ok then t # passed rl ts else passed rl ts)"

definition passed_between :: "nat \<Rightarrow> rate_limiter \<Rightarrow> nat list \<Rightarrow> nat" where
  "passed_between a rl ts = length (filter (\<lambda>t. a \<le> t \<and> t < a + second) (passed rl ts))"

lemma passed_mem: "t \<in> set (passed rl ts) \<Longrightarrow> t \<in> set ts"
  by (induction ts arbitrary: rl) (auto simp: Let_def split_def split: if_splits)

lemma passed_late: "\<forall>t\<in>set ts. a + second \<le> t \<Longrightarrow> passed_between a rl ts = 0"
  using passed_mem [of _ rl ts] by (fastforce simp: passed_between_def filter_empty_conv)

lemma full_iff: "MAX_WS_MESSAGES_PER_SECOND \<le> message_count rl \<longleftrightarrow> 100 \<le> unat (message_count rl)"
  by (simp add: MAX_WS_MESSAGES_PER_SECOND_def word_le_nat_alt)

lemma count_step: "unat (message_count rl) < 100 \<Longrightarrow> unat (message_count rl + 1) = Suc (unat (message_count rl))"
  by (simp add: unat_word_ariths)

lemma passed_between_Cons:
  "passed_between a rl (t # ts) =
     (let (ok, rl') = check_and_update t rl
      in (if ok \<and> a \<le> t \<and> t < a + second then 1 else 0) + passed_between a rl' ts)"
  by (simp add: passed_between_def Let_def split_def)

text \<open>Within a window that opened at or after \<open>a\<close>, no further window opens before \<open>a\<close> plus one second.\<close>

lemma passed_in_window:
  "sorted ts \<Longrightarrow> a \<le> window_start rl \<Longrightarrow> unat (message_count rl) \<le> 100 \<Longrightarrow>
     passed_between a rl ts \<le> 100 - unat (message_count rl)"
proof (induction ts arbitrary: rl)
  case (Cons t ts)
  show ?case
  proof (cases "t < a + second")
    case True
    then have same: "\<not> second \<le> t - window_start rl" using Cons.prems(2) by simp
    show ?thesis
    proof (cases "unat (message_count rl) < 100")
      case True
      then have "passed_between a (rl\<lparr>message_count := message_count rl + 1\<rparr>) ts \<le> 100 - Suc (unat (message_count rl))"
        using Cons.IH [of "rl\<lparr>message_count := message_count rl + 1\<rparr>"] Cons.prems count_step [OF True] by simp
      with True same show ?thesis by (auto simp: passed_between_Cons check_and_update_def full_iff)
    next
      case False
      with same Cons.prems Cons.IH [of rl] show ?thesis by (simp add: passed_between_Cons check_and_update_def full_iff)
    qed
  next
    case False
    with Cons.prems(1) have "passed_between a rl (t # ts) = 0" by (intro passed_late) auto
    then show ?thesis by simp
  qed
qed (simp add: passed_between_def)

text \<open>An older window may still have room, and then one more window opens.\<close>

lemma passed_old_window:
  "sorted ts \<Longrightarrow> \<forall>t\<in>set ts. a \<le> t \<Longrightarrow> unat (message_count rl) \<le> 100 \<Longrightarrow>
     passed_between a rl ts \<le> 200 - unat (message_count rl)"
proof (induction ts arbitrary: rl)
  case (Cons t ts)
  consider (fresh) "second \<le> t - window_start rl" | (count) "\<not> second \<le> t - window_start rl" "unat (message_count rl) < 100"
    | (full) "\<not> second \<le> t - window_start rl" "\<not> unat (message_count rl) < 100" by blast
  then show ?case
  proof cases
    case fresh
    have "passed_between a \<lparr>message_count = 1, window_start = t\<rparr> ts \<le> 99"
      using passed_in_window [of ts a "\<lparr>message_count = 1, window_start = t\<rparr>"] Cons.prems by simp
    with fresh Cons.prems(3) show ?thesis by (auto simp: passed_between_Cons check_and_update_def)
  next
    case count
    have "passed_between a (rl\<lparr>message_count := message_count rl + 1\<rparr>) ts \<le> 200 - Suc (unat (message_count rl))"
      using Cons.IH [of "rl\<lparr>message_count := message_count rl + 1\<rparr>"] Cons.prems count_step [OF count(2)] count(2) by simp
    with count show ?thesis by (auto simp: passed_between_Cons check_and_update_def full_iff)
  next
    case full
    with Cons.prems Cons.IH [of rl] show ?thesis by (simp add: passed_between_Cons check_and_update_def full_iff)
  qed
qed (simp add: passed_between_def)

lemma check_count: "unat (message_count rl) \<le> 100 \<Longrightarrow> unat (message_count (snd (check_and_update t rl))) \<le> 100"
  using count_step [of rl] by (auto simp: check_and_update_def full_iff)

text \<open>
  C26. The rate limiter passes at most 200 messages of a connection in any second: twice the
  documented 100, because a window that is almost over and its successor can both be used up. Two
  bursts of a hundred messages one nanosecond apart meet the bound.
\<close>

theorem rate_limit_bound:
  assumes "sorted ts" and "unat (message_count rl) \<le> 100"
  shows "passed_between a rl ts \<le> 200"
  using assms
proof (induction ts arbitrary: rl)
  case (Cons t ts)
  show ?case
  proof (cases "a \<le> t")
    case True
    then show ?thesis using passed_old_window [of "t # ts" a rl] Cons.prems by force
  next
    case False
    then show ?thesis using Cons.IH [OF _ check_count, of rl t] Cons.prems
      by (simp add: passed_between_Cons split_def)
  qed
qed (simp add: passed_between_def)

lemma passed_burst:
  "t - window_start rl < second \<Longrightarrow> unat (message_count rl) + k \<le> 100 \<Longrightarrow>
     passed rl (replicate k t @ ts) = replicate k t @ passed (rl\<lparr>message_count := message_count rl + of_nat k\<rparr>) ts"
proof (induction k arbitrary: rl)
  case (Suc k)
  then show ?case
    using Suc.IH [of "rl\<lparr>message_count := message_count rl + 1\<rparr>"] count_step [of rl]
    by (simp add: check_and_update_def full_iff add.commute add.left_commute)
qed simp

lemma two_bursts:
  "passed (rate_limiter_new 0) (replicate 100 (second - 1) @ replicate 100 second) =
     replicate 100 (second - 1) @ replicate 100 second"
proof -
  have "replicate 100 second = second # replicate 99 second @ []"
    by (simp flip: replicate_Suc)
  moreover have "passed \<lparr>message_count = 100, window_start = 0\<rparr> (second # replicate 99 second @ []) = second # replicate 99 second"
    using passed_burst [of second "\<lparr>message_count = 1, window_start = second\<rparr>" 99 "[]"]
    by (simp add: check_and_update_def)
  ultimately show ?thesis
    using passed_burst [of "second - 1" "rate_limiter_new 0" 100 "replicate 100 second"]
    by (simp add: rate_limiter_new_def)
qed

theorem rate_limit_bound_witness:
  "passed_between (second - 1) (rate_limiter_new 0) (replicate 100 (second - 1) @ replicate 100 second) = 200
   \<and> passed_between (second - 1) (rate_limiter_new 0) (replicate 100 (second - 1) @ replicate 100 second) \<le> 200"
proof -
  have "sorted (replicate 100 (second - 1) @ replicate 100 second)" by (auto simp: sorted_append)
  from rate_limit_bound [OF this, of "rate_limiter_new 0" "second - 1"]
  have "passed_between (second - 1) (rate_limiter_new 0) (replicate 100 (second - 1) @ replicate 100 second) \<le> 200"
    by (simp add: rate_limiter_new_def)
  then show ?thesis unfolding passed_between_def two_bursts by simp
qed

end
