(* ===== verification/Instance_Concurrent.thy ===== *)
theory Instance_Concurrent
  imports Scenario_Props
begin

text \<open>
  Several requests for one session at a time, and resets among them: \<open>resolve_with\<close> and
  \<open>Instance::reset\<close> of \<open>http/scenarios.rs\<close> as programs over a shared instance. A request takes a
  snapshot of the state under one short lock, acts on the store, and writes the successor of its
  snapshot under another; a reset writes the initial state, clears the store and files the seed item
  by item. Between any two of these steps every other thread may run. An action on the store is one
  step here; \<open>Store_Concurrent\<close> takes it apart.
\<close>

section \<open>Threads and steps\<close>

datatype session_pc =
    Free
  | Snapshot resolved_operation governed_request state
  | Acted resolved_operation governed_request state resolution
  | Replied resolved_operation governed_request state resolution
  | Wiping
  | Seeding "(store_key \<times> value) list"

record shared_instance =
  inst :: scenario_instance
  session_pcs :: "nat \<Rightarrow> session_pc"

abbreviation session_at :: "shared_instance \<Rightarrow> nat \<Rightarrow> session_pc \<Rightarrow> shared_instance" where
  "session_at c t p \<equiv> c\<lparr>session_pcs := (session_pcs c)(t := p)\<rparr>"

abbreviation with_inst :: "shared_instance \<Rightarrow> scenario_instance \<Rightarrow> shared_instance" where
  "with_inst c i \<equiv> c\<lparr>inst := i\<rparr>"

text \<open>The creations of \<open>apply_seed\<close>, in order.\<close>

definition seed_creations :: "(value \<Rightarrow> string) \<Rightarrow> seed_entry list \<Rightarrow> (store_key \<times> value) list" where
  "seed_creations tj entries =
     concat (map (\<lambda>e. map (\<lambda>(n, item). (StoreKey (seed_resource e) (seed_identifier tj item n), item))
       (List.enumerate 0 (seed_items e))) entries)"

text \<open>A request after the store was consulted: the outcome it will report, and the store.\<close>

definition act ::
  "(value \<Rightarrow> string) \<Rightarrow> scenario \<Rightarrow> resolved_operation \<Rightarrow> governed_request \<Rightarrow> state \<Rightarrow> scenario_instance
     \<Rightarrow> resolution \<times> scenario_instance" where
  "act tj m operation q st i =
     (let (result, s) = (case resolved_store operation of
                           None \<Rightarrow> (Inr Ungoverned, inst_store i)
                         | Some spec \<Rightarrow> apply_store tj (inst_store i) spec q)
      in (apply_override (step_overrides m st (resolved_name operation)) (resolved_responses operation)
            (case result of Inl f \<Rightarrow> FailedWith f | Inr r \<Rightarrow> r),
          i\<lparr>inst_store := s\<rparr>))"

inductive session_step ::
  "(value \<Rightarrow> string) \<Rightarrow> scenario \<Rightarrow> string \<Rightarrow> (resolved_operation \<times> governed_request) set \<Rightarrow> nat
     \<Rightarrow> shared_instance \<Rightarrow> shared_instance \<Rightarrow> bool" for tj m session Q where
  looks: "session_pcs c t = Free \<Longrightarrow> (operation, q) \<in> Q \<Longrightarrow>
    session_step tj m session Q t c (session_at c t (Snapshot operation q (inst_state (inst c))))"
| illegal: "session_pcs c t = Snapshot operation q st \<Longrightarrow> \<not> allows m st (resolved_name operation) \<Longrightarrow>
    session_step tj m session Q t c (session_at c t (Replied operation q st
      (FailedWith (IllegalOperation (scenario_name m) session (state_name st) (resolved_name operation)))))"
| unvalidated: "session_pcs c t = Snapshot operation q st \<Longrightarrow> allows m st (resolved_name operation) \<Longrightarrow>
    \<not> validated q \<Longrightarrow> session_step tj m session Q t c (session_at c t (Replied operation q st Ungoverned))"
| acts: "session_pcs c t = Snapshot operation q st \<Longrightarrow> allows m st (resolved_name operation) \<Longrightarrow> validated q \<Longrightarrow>
    act tj m operation q st (inst c) = (r, i) \<Longrightarrow>
    session_step tj m session Q t c (session_at (with_inst c i) t (Acted operation q st r))"
| advances: "session_pcs c t = Acted operation q st r \<Longrightarrow> next_state m st (resolved_name operation) = Some st' \<Longrightarrow>
    session_step tj m session Q t c (session_at (with_inst c (move_to (inst c) st')) t (Replied operation q st r))"
| stays: "session_pcs c t = Acted operation q st r \<Longrightarrow> next_state m st (resolved_name operation) = None \<Longrightarrow>
    session_step tj m session Q t c (session_at c t (Replied operation q st r))"
| answers: "session_pcs c t = Replied operation q st r \<Longrightarrow>
    session_step tj m session Q t c (session_at c t Free)"
| restarts: "session_pcs c t = Free \<Longrightarrow>
    session_step tj m session Q t c (session_at (with_inst c (move_to (inst c) (inst_initial (inst c)))) t Wiping)"
| wipes: "session_pcs c t = Wiping \<Longrightarrow>
    session_step tj m session Q t c
      (session_at (with_inst c ((inst c)\<lparr>inst_store := snd (store_clear (inst_store (inst c)))\<rparr>)) t
        (Seeding (seed_creations tj (inst_seed (inst c)))))"
| seeds: "session_pcs c t = Seeding ((k, item) # rest) \<Longrightarrow>
    session_step tj m session Q t c
      (session_at (with_inst c ((inst c)\<lparr>inst_store := snd (store_create (inst_store (inst c)) k item)\<rparr>)) t (Seeding rest))"
| reseeded: "session_pcs c t = Seeding [] \<Longrightarrow> session_step tj m session Q t c (session_at c t Free)"

definition session_start :: "scenario_instance \<Rightarrow> shared_instance \<Rightarrow> bool" where
  "session_start i c \<longleftrightarrow> c = \<lparr>inst = i, session_pcs = (\<lambda>_. Free)\<rparr>"

definition session_steps ::
  "(value \<Rightarrow> string) \<Rightarrow> scenario \<Rightarrow> string \<Rightarrow> (resolved_operation \<times> governed_request) set
     \<Rightarrow> shared_instance \<Rightarrow> shared_instance \<Rightarrow> bool" where
  "session_steps tj m session Q c d \<longleftrightarrow> (\<exists>t. session_step tj m session Q t c d)"

section \<open>A thread that runs alone\<close>

text \<open>Undisturbed, the steps of a request are \<open>serve_instance\<close>, and those of a reset \<open>instance_reset\<close>.\<close>

lemma serve_instance_act:
  "serve_instance tj m session operation q i =
     (if \<not> allows m (inst_state i) (resolved_name operation)
      then (FailedWith (IllegalOperation (scenario_name m) session (state_name (inst_state i)) (resolved_name operation)), i)
      else if \<not> validated q then (Ungoverned, i)
      else let (r, j) = act tj m operation q (inst_state i) i
           in (r, case next_state m (inst_state i) (resolved_name operation) of Some t \<Rightarrow> move_to j t | None \<Rightarrow> j))"
  by (auto simp: serve_instance_def act_def Let_def split_def split: option.split)

abbreviation runs ::
  "(value \<Rightarrow> string) \<Rightarrow> scenario \<Rightarrow> string \<Rightarrow> (resolved_operation \<times> governed_request) set \<Rightarrow> nat
     \<Rightarrow> shared_instance \<Rightarrow> shared_instance \<Rightarrow> bool" where
  "runs tj m session Q t \<equiv> (session_step tj m session Q t)\<^sup>*\<^sup>*"

lemma request_alone:
  assumes "session_pcs c t = Free" and "(operation, q) \<in> Q"
    and "serve_instance tj m session operation q (inst c) = (r, i)"
  shows "runs tj m session Q t c (session_at (with_inst c i) t (Replied operation q (inst_state (inst c)) r))"
proof -
  let ?st = "inst_state (inst c)" and ?c = "session_at c t (Snapshot operation q (inst_state (inst c)))"
  have look: "session_step tj m session Q t c ?c" by (rule looks [OF assms(1,2)])
  have same: "c\<lparr>inst := inst c\<rparr> = c" by simp
  consider (illegal) "\<not> allows m ?st (resolved_name operation)"
    | (invalid) "allows m ?st (resolved_name operation)" "\<not> validated q"
    | (legal) "allows m ?st (resolved_name operation)" "validated q" by blast
  then show ?thesis
  proof cases
    case illegal
    with assms(3) same look session_step.illegal [of ?c t operation q ?st m tj session Q] show ?thesis
      by (auto simp: serve_instance_act intro: rtranclp.rtrancl_into_rtrancl)
  next
    case invalid
    with assms(3) same look session_step.unvalidated [of ?c t operation q ?st m tj session Q] show ?thesis
      by (auto simp: serve_instance_act intro: rtranclp.rtrancl_into_rtrancl)
  next
    case legal
    obtain j where act: "act tj m operation q ?st (inst c) = (r, j)"
      and i: "i = (case next_state m ?st (resolved_name operation) of Some t \<Rightarrow> move_to j t | None \<Rightarrow> j)"
      using assms(3) legal by (auto simp: serve_instance_act split_def Let_def prod_eq_iff)
    let ?d = "session_at (with_inst c j) t (Acted operation q ?st r)"
    have "session_step tj m session Q t ?c ?d"
      using acts [where c = ?c and t = t and operation = operation and q = q and st = ?st and m = m and i = j] act legal by simp
    with look have "runs tj m session Q t c ?d" by (meson converse_rtranclp_into_rtranclp rtranclp.rtrancl_refl)
    moreover have "session_step tj m session Q t ?d
        (session_at (with_inst c i) t (Replied operation q ?st r))"
      using advances [of ?d t operation q ?st r m _ tj session Q] stays [of ?d t operation q ?st r m tj session Q]
      by (cases "next_state m ?st (resolved_name operation)") (simp_all add: i)
    ultimately show ?thesis by (rule rtranclp.rtrancl_into_rtrancl)
  qed
qed

lemma apply_seed_creations:
  "apply_seed tj entries s = foldl (\<lambda>s (k, item). snd (store_create s k item)) s (seed_creations tj entries)"
proof -
  have inner: "foldl (\<lambda>s (n, item). snd (store_create s (StoreKey ns (seed_identifier tj item n)) item)) s xs =
      foldl (\<lambda>s (k, item). snd (store_create s k item)) s
        (map (\<lambda>(n, item). (StoreKey ns (seed_identifier tj item n), item)) xs)" for ns s xs
    by (induction xs arbitrary: s) auto
  show ?thesis
    by (induction entries arbitrary: s) (simp_all add: apply_seed_def seed_creations_def inner)
qed

lemma seeding_alone:
  "session_pcs c t = Seeding xs \<Longrightarrow>
     runs tj m session Q t c (session_at (with_inst c ((inst c)\<lparr>inst_store :=
       foldl (\<lambda>s (k, item). snd (store_create s k item)) (inst_store (inst c)) xs\<rparr>)) t Free)"
proof (induction xs arbitrary: c)
  case Nil
  have "c\<lparr>inst := (inst c)\<lparr>inst_store := inst_store (inst c)\<rparr>\<rparr> = c" by simp
  with reseeded [OF Nil, of tj m session Q] show ?case by (simp only: foldl_Nil r_into_rtranclp)
next
  case (Cons x xs)
  obtain k item where x: "x = (k, item)" by force
  let ?d = "session_at (with_inst c ((inst c)\<lparr>inst_store := snd (store_create (inst_store (inst c)) k item)\<rparr>)) t (Seeding xs)"
  have "session_step tj m session Q t c ?d" using seeds [of c t k item xs tj m session Q] Cons.prems x by simp
  moreover have "runs tj m session Q t ?d (session_at (with_inst c ((inst c)\<lparr>inst_store :=
       foldl (\<lambda>s (k, item). snd (store_create s k item)) (inst_store (inst c)) (x # xs)\<rparr>)) t Free)"
    using Cons.IH [of ?d] by (simp add: x fun_upd_def cong: if_cong)
  ultimately show ?case by (rule converse_rtranclp_into_rtranclp)
qed

lemma reset_alone:
  assumes "session_pcs c t = Free"
  shows "runs tj m session Q t c (session_at (with_inst c (instance_reset tj (inst c))) t Free)"
proof -
  let ?i = "move_to (inst c) (inst_initial (inst c))"
  let ?c = "session_at (with_inst c ?i) t Wiping"
  let ?d = "session_at (with_inst ?c (?i\<lparr>inst_store := snd (store_clear (inst_store ?i))\<rparr>)) t
    (Seeding (seed_creations tj (inst_seed ?i)))"
  have "session_step tj m session Q t c ?c" by (rule restarts [OF assms])
  moreover have "session_step tj m session Q t ?c ?d"
    using wipes [of ?c t tj m session Q] by simp
  moreover have "runs tj m session Q t ?d (session_at (with_inst c (instance_reset tj (inst c))) t Free)"
    using seeding_alone [of ?d t "seed_creations tj (inst_seed ?i)" tj m session Q]
    by (simp add: instance_reset_def move_to_def apply_seed_creations)
  ultimately show ?thesis by (meson converse_rtranclp_into_rtranclp)
qed

section \<open>What every interleaving keeps\<close>

fun session_pc_ok :: "scenario \<Rightarrow> string \<Rightarrow> session_pc \<Rightarrow> bool" where
  "session_pc_ok m session (Snapshot operation q st) = (moves m)\<^sup>*\<^sup>* (initial m) st"
| "session_pc_ok m session (Acted operation q st r) \<longleftrightarrow> (moves m)\<^sup>*\<^sup>* (initial m) st \<and>
     allows m st (resolved_name operation) \<and> (\<forall>f. r = FailedWith f \<longrightarrow> store_failure f)"
| "session_pc_ok m session (Replied operation q st r) \<longleftrightarrow> (moves m)\<^sup>*\<^sup>* (initial m) st \<and>
     (if allows m st (resolved_name operation) then \<forall>f. r = FailedWith f \<longrightarrow> store_failure f
      else r = FailedWith (IllegalOperation (scenario_name m) session (state_name st) (resolved_name operation)))"
| "session_pc_ok m session _ = True"

definition session_inv :: "scenario_entry \<Rightarrow> usize \<Rightarrow> string \<Rightarrow> shared_instance \<Rightarrow> bool" where
  "session_inv e cap session c \<longleftrightarrow>
     instance_ok e cap (inst c) \<and> (\<forall>t. session_pc_ok (machine_of e) session (session_pcs c t))"

lemma store_ok_clear: "store_ok cap s \<Longrightarrow> store_ok cap (snd (store_clear s))"
  by (simp add: store_ok_def store_clear_inv)

lemma act_failure: "act tj m operation q st i = (FailedWith f, j) \<Longrightarrow> store_failure f"
  using apply_store_failure [of tj "inst_store i" _ q f]
  by (auto simp: act_def Let_def split_def apply_override_failure split: option.splits sum.splits)

lemma act_ok: "act tj m operation q st i = (r, j) \<Longrightarrow> instance_ok e cap i \<Longrightarrow> instance_ok e cap j"
  using apply_store_ok [of cap "inst_store i" tj _ q]
  by (auto simp: act_def instance_ok_def Let_def split_def split: option.split)

lemma session_inv_parts:
  assumes "session_inv e cap session c"
  shows "instance_ok e cap (inst c)" "session_pc_ok (machine_of e) session (session_pcs c t)"
    "(moves (machine_of e))\<^sup>*\<^sup>* (State (initial_state e)) (inst_state (inst c))"
  using assms by (simp_all add: session_inv_def instance_ok_def)

lemma session_keep:
  "session_inv e cap session c \<Longrightarrow> instance_ok e cap i \<Longrightarrow> session_pc_ok (machine_of e) session p \<Longrightarrow>
     session_inv e cap session (c\<lparr>inst := i, session_pcs := (session_pcs c)(t := p)\<rparr>)"
  "session_inv e cap session c \<Longrightarrow> session_pc_ok (machine_of e) session p \<Longrightarrow>
     session_inv e cap session (session_at c t p)"
  by (auto simp: session_inv_def)

lemma session_step_inv:
  assumes "session_step tj (machine_of e) session Q t c d" and inv: "session_inv e cap session c"
  shows "session_inv e cap session d"
  using assms(1)
proof cases
  case (acts operation q st r i)
  then show ?thesis
    using session_inv_parts(1) [OF inv] session_inv_parts(2) [OF inv, of t] act_ok act_failure
    by (auto intro!: session_keep [OF inv])
next
  case (advances operation q st r st')
  then have st: "(moves (machine_of e))\<^sup>*\<^sup>* (State (initial_state e)) st"
    using session_inv_parts(2) [OF inv, of t] by simp
  from advances(3) have "moves (machine_of e) st st'" by (rule moveI)
  with st have "(moves (machine_of e))\<^sup>*\<^sup>* (State (initial_state e)) st'" by (rule rtranclp.rtrancl_into_rtrancl)
  then show ?thesis
    using advances session_inv_parts(1) [OF inv] session_inv_parts(2) [OF inv, of t]
    by (auto intro!: session_keep [OF inv] simp: instance_ok_def move_to_def)
next
  case restarts
  then show ?thesis
    using session_inv_parts(1) [OF inv]
    by (auto intro!: session_keep [OF inv] simp: instance_ok_def move_to_def)
next
  case wipes
  then show ?thesis
    using session_inv_parts(1) [OF inv]
    by (auto intro!: session_keep [OF inv] simp: instance_ok_def store_ok_clear)
next
  case (seeds k item rest)
  then show ?thesis
    using session_inv_parts(1) [OF inv]
    by (auto intro!: session_keep [OF inv] simp: instance_ok_def)
qed (use session_inv_parts(2) [OF inv, of t] session_inv_parts(3) [OF inv] in
      \<open>auto intro!: session_keep [OF inv]\<close>)

interpretation si: invariant_system "session_start (fresh_instance tj cap e)"
  "session_steps tj (machine_of e) session Q" "session_inv e cap session" for tj cap e session Q
proof
  show "session_inv e cap session c" if "session_start (fresh_instance tj cap e) c" for c
    using that by (simp add: session_start_def session_inv_def fresh_instance_ok)
  show "session_inv e cap session d"
    if "session_inv e cap session c" "session_steps tj (machine_of e) session Q c d" for c d
    using that session_step_inv by (auto simp: session_steps_def)
qed

section \<open>Properties\<close>


section \<open>Races\<close>

lemma session_more:
  "reachable_from init (session_steps tj m session Q) c \<Longrightarrow> session_step tj m session Q t c d \<Longrightarrow>
     reachable_from init (session_steps tj m session Q) d"
  by (rule reachable_from.more) (auto simp: session_steps_def)

definition flow_entry :: scenario_entry where
  "flow_entry = hd (scenarios widget_sidecar)"

definition close_operation :: resolved_operation where
  "close_operation = \<lparr>resolved_name = ''close'', resolved_store = None, resolved_responses = []\<rparr>"

lemma flow_simps [simp]:
  "State (initial_state flow_entry) = State ''open''" "entry_name flow_entry = ''flow''"
  "allows (machine_of flow_entry) (State ''open'') ''close''" "\<not> allows (machine_of flow_entry) (State ''done'') ''close''"
  "next_state (machine_of flow_entry) (State ''open'') ''close'' = Some (State ''done'')"
  "step_overrides (machine_of flow_entry) (State ''open'') ''close'' = []"
  by code_simp+

lemma act_close [simp]: "act tj (machine_of flow_entry) close_operation q (State ''open'') i = (Ungoverned, i)"
  by (simp add: act_def close_operation_def apply_override_def)


text \<open>Requests and resets one at a time, for comparison.\<close>

inductive one_at_a_time ::
  "(value \<Rightarrow> string) \<Rightarrow> scenario \<Rightarrow> string \<Rightarrow> (resolved_operation \<times> governed_request) set
     \<Rightarrow> scenario_instance \<Rightarrow> scenario_instance \<Rightarrow> bool" for tj m session Q where
  served: "(operation, q) \<in> Q \<Longrightarrow> one_at_a_time tj m session Q i (snd (serve_instance tj m session operation q i))"
| restarted: "one_at_a_time tj m session Q i (instance_reset tj i)"

text \<open>A box that one item fills.\<close>

definition box_entry :: scenario_entry where
  "box_entry = \<lparr>entry_name = ''box'', initial_state = ''open'', seed = [],
     entry_states = [(''full'', []), (''open'', [(''add'', \<lparr>step_target = Some ''full'', step_responses = []\<rparr>)])]\<rparr>"

definition box_add :: resolved_operation where
  "box_add = \<lparr>resolved_name = ''add'', resolved_store = Some (widget_spec WCreate), resolved_responses = []\<rparr>"

definition box_item :: governed_request where
  "box_item = widget_request ''x'' ''POST'' ''/widgets'' [] (Some (Object [(''id'', Str ''a'')]))"

abbreviation box_empty :: scenario_instance where
  "box_empty \<equiv> fresh_instance no_json 1 box_entry"

definition box_full :: scenario_instance where
  "box_full = snd (serve_instance no_json (machine_of box_entry) ''x'' box_add box_item box_empty)"

abbreviation box_alone :: "scenario_instance \<Rightarrow> scenario_instance \<Rightarrow> bool" where
  "box_alone \<equiv> one_at_a_time no_json (machine_of box_entry) ''x'' {(box_add, box_item)}"

lemma box_instances [simp]:
  "inst_state box_empty = State ''open''" "inst_state box_full = State ''full''" "\<not> store_is_empty (inst_store box_full)"
  "snd (serve_instance no_json (machine_of box_entry) ''x'' box_add box_item box_full) = box_full"
  "instance_reset no_json box_empty = box_empty" "instance_reset no_json box_full = box_empty"
  by code_simp+

lemma box_sequential: "reachable_from (\<lambda>i. i = box_empty) box_alone i \<Longrightarrow> i = box_empty \<or> i = box_full"
  by (induction rule: reachable_from.induct) (auto elim!: one_at_a_time.cases simp flip: box_full_def)

lemma box_steps [simp]:
  "allows (machine_of box_entry) (State ''open'') (resolved_name box_add)" "validated box_item"
  "next_state (machine_of box_entry) (State ''open'') (resolved_name box_add) = Some (State ''full'')"
  "box_empty\<lparr>inst_state := State ''open''\<rparr> = box_empty" "inst_initial box_empty = State ''open''"
  "inst_initial (snd (act no_json (machine_of box_entry) box_add box_item (State ''open'') box_empty)) = State ''open''"
  "instance_reset no_json (snd (act no_json (machine_of box_entry) box_add box_item (State ''open'') box_empty)) = box_empty"
  by code_simp+

text \<open>
  C16. A reset can lose to a request that is under way: the request has acted on the store, the reset
  restarts machine and store, and then the request moves the machine from the state it saw. The
  machine is in the state after the request and the store does not hold its effect, a combination no
  sequence of requests and resets one at a time leads to. A client sees a full box with nothing in it.
\<close>

theorem reset_race_desynchronises:
  "(\<exists>c. reachable_from (session_start box_empty)
       (session_steps no_json (machine_of box_entry) ''x'' {(box_add, box_item)}) c \<and>
     (\<forall>t. session_pcs c t = Free) \<and> inst_state (inst c) = State ''full'' \<and> store_is_empty (inst_store (inst c))) \<and>
   \<not> (\<exists>i. reachable_from (\<lambda>i. i = box_empty) box_alone i \<and>
     inst_state i = State ''full'' \<and> store_is_empty (inst_store i))"
proof (intro conjI notI)
  let ?m = "machine_of box_entry" and ?Q = "{(box_add, box_item)}" and ?open = "State ''open''"
  let ?reach = "reachable_from (session_start box_empty) (session_steps no_json ?m ''x'' ?Q)"
  obtain r i where act: "act no_json ?m box_add box_item ?open box_empty = (r, i)" by force
  define c0 where "c0 = \<lparr>inst = box_empty, session_pcs = (\<lambda>_. Free)\<rparr>"
  define c1 where "c1 = session_at (with_inst c0 i) 0 (Acted box_add box_item ?open r)"
  define c2 where "c2 = session_at (with_inst c1 box_empty) 1 Free"
  define c3 where "c3 = with_inst c0 (move_to box_empty (State ''full''))"
  have "?reach c0" by (rule reachable_from.start) (simp add: session_start_def c0_def)
  from session_more [OF this looks [of _ 0 box_add box_item]]
  have "?reach (session_at c0 0 (Snapshot box_add box_item ?open))" by (simp add: c0_def)
  from session_more [OF this acts [of _ 0 box_add box_item ?open]] act have "?reach c1"
    by (simp add: c1_def c0_def)
  moreover have "instance_reset no_json i = box_empty" using box_steps(7) act by simp
  then have "runs no_json ?m ''x'' ?Q 1 c1 c2"
    using reset_alone [of c1 1 no_json ?m "''x''" ?Q] by (simp add: c1_def c0_def c2_def)
  then have "(session_steps no_json ?m ''x'' ?Q)\<^sup>*\<^sup>* c1 c2"
    by (rule rtranclp_mono [THEN predicate2D, rotated]) (auto simp: session_steps_def)
  ultimately have "?reach c2"
    by (rule reachable_steps)
  from session_more [OF this advances [of _ 0 box_add box_item ?open]]
  have "?reach (session_at (with_inst c2 (move_to box_empty (State ''full''))) 0 (Replied box_add box_item ?open r))"
    by (simp add: c2_def c1_def)
  from session_more [OF this answers [of _ 0 box_add box_item ?open]] have "?reach c3"
    by (simp add: c3_def c2_def c1_def c0_def fun_upd_def if_distrib cong: if_cong)
  moreover have "store_is_empty (inst_store box_empty)" by code_simp
  ultimately show "\<exists>c. ?reach c \<and> (\<forall>t. session_pcs c t = Free) \<and> inst_state (inst c) = State ''full'' \<and>
      store_is_empty (inst_store (inst c))"
    by (intro exI [of _ c3]) (simp add: c3_def c0_def move_to_def)
next
  assume "\<exists>i. reachable_from (\<lambda>i. i = box_empty) box_alone i \<and> inst_state i = State ''full'' \<and> store_is_empty (inst_store i)"
  then show False by (auto dest!: box_sequential)
qed

end
