(* ===== verification/Grpc.thy ===== *)
theory Grpc
  imports Http
begin

text \<open>
  The gRPC runtime of \<open>specmock-runtime/src/grpc/protobuf.rs\<close>: framing, status codes and error details,
  the response body as a sequence of frames, mock message generation from descriptors, and the
  service that answers a call. Descriptors are what the code reads of \<open>prost_reflect\<close>'s; encoding,
  decoding and JSON conversion of messages, Base64 and the random choice of an enum value are
  parameters, gathered in the record \<open>proto_lib\<close>.
\<close>

section \<open>Descriptors and messages\<close>

datatype kind =
    KBool | KInt32 | KSint32 | KSfixed32 | KInt64 | KSint64 | KSfixed64 | KUint32 | KFixed32
  | KUint64 | KFixed64 | KFloat | KDouble | KString | KBytes | KEnum "int list" | KMessage string

datatype cardinality = Optional | Required | Repeated

record field =
  field_number :: u32
  field_kind :: kind
  containing_oneof :: "string option"
  is_map :: bool
  is_list :: bool
  field_cardinality :: cardinality
  supports_presence :: bool

text \<open>The messages of a descriptor pool by full name.\<close>

type_synonym pool = "string \<Rightarrow> field list"

record method_descriptor =
  method_input :: string
  method_output :: string
  client_streaming :: bool
  server_streaming :: bool

datatype proto_value =
    PBool bool | PI32 "32 word" | PI64 "64 word" | PU32 u32 | PU64 u64 | PF32 flt | PF64 flt
  | PString string | PBytes string | PEnumNumber int | PMessage "(u32 \<times> proto_value) list"
  | PList "proto_value list" | PEmptyMap

type_synonym message = "(u32 \<times> proto_value) list"

record google_rpc_field_violation =
  violation_field :: string
  violation_description :: string

record any_message =
  type_url :: string
  any_value :: string

record google_rpc_status =
  rpc_code :: nat
  rpc_message :: string
  rpc_details :: "any_message list"

record proto_lib =
  set_field :: "field \<Rightarrow> proto_value \<Rightarrow> message \<Rightarrow> string + message"
  encode_message :: "message \<Rightarrow> string"
  decode_message :: "string \<Rightarrow> string \<Rightarrow> string + message"
  message_to_json :: "string \<Rightarrow> message \<Rightarrow> value option"
  message_from_json :: "string \<Rightarrow> string \<Rightarrow> string + message"
  encode_status :: "google_rpc_status \<Rightarrow> string"
  encode_bad_request :: "google_rpc_field_violation list \<Rightarrow> string"
  base64 :: "string \<Rightarrow> string"
  enum_index :: "u64 \<Rightarrow> nat \<Rightarrow> nat"
  overflow_checks :: bool

section \<open>Framing\<close>

definition be_bytes :: "u32 \<Rightarrow> string" where
  "be_bytes n =
     [char_of (unat n div 16777216 mod 256), char_of (unat n div 65536 mod 256),
      char_of (unat n div 256 mod 256), char_of (unat n mod 256)]"

definition from_be_bytes :: "string \<Rightarrow> nat" where
  "from_be_bytes bs = foldl (\<lambda>acc c. acc * 256 + char_code c) 0 bs"

definition decode_grpc_unary_frame :: "string \<Rightarrow> string + string" where
  "decode_grpc_unary_frame bytes =
     (if length bytes < 5 then Inl ''grpc frame too short''
      else if char_code (bytes ! 0) \<noteq> 0 then Inl ''compressed grpc payload is not supported''
      else let n = from_be_bytes (take 4 (drop 1 bytes)) in
           if length bytes < n + 5 then Inl ''grpc frame length mismatch''
           else Inr (take n (drop 5 bytes)))"

definition encode_grpc_unary_frame :: "string \<Rightarrow> string" where
  "encode_grpc_unary_frame payload = char_of (0::nat) # be_bytes (of_nat (length payload)) @ payload"

definition is_grpc_content_type :: "header_map \<Rightarrow> bool" where
  "is_grpc_content_type hm =
     (case header_str hm ''content-type'' of
        None \<Rightarrow> False
      | Some v \<Rightarrow> starts_with (to_ascii_lowercase v) ''application/grpc'')"

section \<open>Status codes and details\<close>

definition grpc_code_for :: "nat \<Rightarrow> nat" where
  "grpc_code_for st =
     (if st \<le> 16 then st
      else if st = 400 \<or> st = 422 then 3
      else if st = 401 then 16
      else if st = 403 then 7
      else if st = 404 then 5
      else if st = 409 then 6
      else if st = 429 then 8
      else if st = 501 then 12
      else if st = 503 then 14
      else if st = 504 then 4
      else 13)"

definition sanitize_grpc_message :: "string \<Rightarrow> string" where
  "sanitize_grpc_message m =
     concat (map (\<lambda>c. if is_ascii_alphanumeric c \<or> c = CHR ''-'' \<or> c = CHR ''_'' then [c]
                      else if c = CHR '' '' then ''%20'' else []) m)"

definition pointer_to_field_path :: "string \<Rightarrow> string" where
  "pointer_to_field_path ptr =
     (if ptr = [] \<or> ptr = ''/'' then ''body''
      else join ''.'' (map (\<lambda>seg. replace ''~0'' ''~'' (replace ''~1'' ''/'' seg)) (pointer_segments ptr)))"

definition extract_field_violations :: "value \<Rightarrow> google_rpc_field_violation list" where
  "extract_field_violations details =
     (case Option.bind (get details ''errors'') as_array of
        None \<Rightarrow> []
      | Some items \<Rightarrow>
          map (\<lambda>item. \<lparr>violation_field =
               pointer_to_field_path (opt_default ''/'' (Option.bind (get item ''instance_pointer'') as_str)),
             violation_description =
               opt_default ''request validation failed'' (Option.bind (get item ''message'') as_str)\<rparr>) items)"

definition build_grpc_status_details_bin ::
  "web \<Rightarrow> proto_lib \<Rightarrow> nat \<Rightarrow> string \<Rightarrow> value option \<Rightarrow> string" where
  "build_grpc_status_details_bin w L code m details =
     base64 L (encode_status L \<lparr>rpc_code = code, rpc_message = m,
       rpc_details =
         (case details of
            None \<Rightarrow> []
          | Some d \<Rightarrow>
              let vs = extract_field_violations d in
              if vs = [] then [\<lparr>type_url = ''type.googleapis.com/specmock.ValidationErrors'', any_value = print_json w d\<rparr>]
              else [\<lparr>type_url = ''type.googleapis.com/google.rpc.BadRequest'', any_value = encode_bad_request L vs\<rparr>])\<rparr>)"

definition failure_json :: "stateful_failure \<Rightarrow> value" where
  "failure_json f =
     Object (foldl (\<lambda>m (k, v). bt_insert k v m)
       [(''errors'', Array [Object
          [(''instance_pointer'', Str ''/''), (''keyword'', Str ''scenario''),
           (''message'', Str (failure_detail f)), (''schema_pointer'', Str ''#'')]])]
       (failure_extensions f))"

definition error_detail :: "string \<Rightarrow> string \<Rightarrow> string \<Rightarrow> value" where
  "error_detail ptr kw m =
     Object [(''errors'', Array [Object
       [(''instance_pointer'', Str ptr), (''keyword'', Str kw), (''message'', Str m), (''schema_pointer'', Str ''#'')]])]"

section \<open>Response bodies\<close>

record grpc_body =
  data_frames :: "string list"
  trailers :: "header_map option"
  frame_index :: nat

datatype frame = DataFrame string | TrailersFrame header_map

definition poll_frame :: "grpc_body \<Rightarrow> frame option \<times> grpc_body" where
  "poll_frame b =
     (if frame_index b < length (data_frames b)
      then (Some (DataFrame (data_frames b ! frame_index b)), b\<lparr>frame_index := Suc (frame_index b)\<rparr>)
      else case trailers b of
             Some t \<Rightarrow> (Some (TrailersFrame t), b\<lparr>trailers := None\<rparr>)
           | None \<Rightarrow> (None, b))"

text \<open>Every response has status 200 and content type \<open>application/grpc\<close>; the outcome is in the trailers.\<close>

definition success_trailers :: header_map where
  "success_trailers = [(''grpc-status'', ''0'')]"

definition build_success_response :: "string list \<Rightarrow> grpc_body" where
  "build_success_response frames = \<lparr>data_frames = frames, trailers = Some success_trailers, frame_index = 0\<rparr>"

definition trailer :: "web \<Rightarrow> string \<Rightarrow> string \<Rightarrow> header_map" where
  "trailer w n v = (if valid_header_value w v then [(n, v)] else [])"

definition grpc_error_response :: "web \<Rightarrow> proto_lib \<Rightarrow> nat \<Rightarrow> string \<Rightarrow> value option \<Rightarrow> grpc_body" where
  "grpc_error_response w L code m details =
     \<lparr>data_frames = [],
      trailers = Some (trailer w ''grpc-status'' (nat_to_string code)
        @ trailer w ''grpc-message'' (sanitize_grpc_message m)
        @ trailer w ''grpc-status-details-bin'' (build_grpc_status_details_bin w L code m details)
        @ (case details of None \<Rightarrow> [] | Some d \<Rightarrow> trailer w ''x-specmock-errors'' (print_json w d))),
      frame_index = 0\<rparr>"

section \<open>Mock messages\<close>

text \<open>
  Generation fails with a message, or panics where the arithmetic of \<open>seed + 1\<close> overflows in a build
  with overflow checks; without them it wraps.
\<close>

datatype gen_failure = GenError string | GenPanic

definition set_or_fail ::
  "proto_lib \<Rightarrow> field \<Rightarrow> gen_failure + proto_value \<Rightarrow> message \<Rightarrow> gen_failure + message" where
  "set_or_fail L f v msg =
     (case v of
        Inl e \<Rightarrow> Inl e
      | Inr x \<Rightarrow> map_sum GenError id (set_field L f x msg))"

definition message_rank :: "nat \<Rightarrow> nat" where
  "message_rank d = (if 32 < d then 0 else 3 * (33 - d) + 3)"

function (sequential)
  generate_dynamic_message :: "proto_lib \<Rightarrow> pool \<Rightarrow> string \<Rightarrow> u64 \<Rightarrow> nat \<Rightarrow> gen_failure + message"
and generate_fields :: "proto_lib \<Rightarrow> pool \<Rightarrow> field list \<Rightarrow> string list \<Rightarrow> message \<Rightarrow> u64 \<Rightarrow> nat \<Rightarrow> gen_failure + message"
and scalar_value_for_field :: "proto_lib \<Rightarrow> pool \<Rightarrow> kind \<Rightarrow> u64 \<Rightarrow> nat \<Rightarrow> gen_failure + proto_value" where
  "generate_dynamic_message L pool name s d =
     (if 32 < d then Inl (GenError ''maximum protobuf message recursion depth reached'')
      else generate_fields L pool (pool name) [] [] s d)"
| "generate_fields L pool [] taken msg s d = Inr msg"
| "generate_fields L pool (f # fs) taken msg s d =
     (if (case containing_oneof f of Some n \<Rightarrow> n \<in> set taken | None \<Rightarrow> False)
      then generate_fields L pool fs taken msg s d
      else case (if is_map f then set_or_fail L f (Inr PEmptyMap) msg
                 else if is_list f then
                   set_or_fail L f (map_sum id (\<lambda>x. PList [x])
                     (scalar_value_for_field L pool (field_kind f) (xor s (ucast (field_number f))) d)) msg
                 else if field_cardinality f = Optional \<or> field_cardinality f = Required \<or> supports_presence f then
                   set_or_fail L f
                     (scalar_value_for_field L pool (field_kind f) (xor s (ucast (field_number f))) d) msg
                 else Inr msg) of
             Inl e \<Rightarrow> Inl e
           | Inr msg \<Rightarrow>
               generate_fields L pool fs (case containing_oneof f of Some n \<Rightarrow> n # taken | None \<Rightarrow> taken) msg s d)"
| "scalar_value_for_field L pool k s d =
     (case k of
        KBool \<Rightarrow> Inr (PBool (odd (unat s)))
      | KInt32 \<Rightarrow> Inr (PI32 (ucast (s mod 2048)))
      | KSint32 \<Rightarrow> Inr (PI32 (ucast (s mod 2048)))
      | KSfixed32 \<Rightarrow> Inr (PI32 (ucast (s mod 2048)))
      | KInt64 \<Rightarrow> Inr (PI64 (s mod 1000000))
      | KSint64 \<Rightarrow> Inr (PI64 (s mod 1000000))
      | KSfixed64 \<Rightarrow> Inr (PI64 (s mod 1000000))
      | KUint32 \<Rightarrow> Inr (PU32 (ucast (s mod 2048)))
      | KFixed32 \<Rightarrow> Inr (PU32 (ucast (s mod 2048)))
      | KUint64 \<Rightarrow> Inr (PU64 (s mod 1000000))
      | KFixed64 \<Rightarrow> Inr (PU64 (s mod 1000000))
      | KFloat \<Rightarrow> Inr (PF32 (round_float binary32 False (of_nat (unat (s mod 10000)) / 100)))
      | KDouble \<Rightarrow> Inr (PF64 (round_float binary64 False (of_nat (unat (s mod 10000)) / 100)))
      | KString \<Rightarrow> Inr (PString (''mock-'' @ nat_to_string (unat s)))
      | KBytes \<Rightarrow> Inr (PBytes (''mock-'' @ nat_to_string (unat s)))
      | KEnum numbers \<Rightarrow>
          if numbers = [] then Inl (GenError ''enum has no values'')
          else Inr (PEnumNumber (numbers ! enum_index L s (length numbers)))
      | KMessage name \<Rightarrow>
          if overflow_checks L \<and> s = - 1 then Inl GenPanic
          else map_sum id PMessage (generate_dynamic_message L pool name (s + 1) (d + 1)))"
  by pat_completeness auto

termination
proof (relation "inv_image (less_than <*lex*> less_than) (\<lambda>x. case x of
    Inl (L, pool, name, s, d) \<Rightarrow> (message_rank d, 0)
  | Inr (Inl (L, pool, fs, taken, msg, s, d)) \<Rightarrow> (message_rank (d + 1) + 2, length fs)
  | Inr (Inr (L, pool, k, s, d)) \<Rightarrow> (message_rank (d + 1) + 1, 0))", goal_cases)
  case (2 L pool name s d)
  then show ?case by (auto simp: message_rank_def)
qed auto

section \<open>The service\<close>

record grpc_runtime =
  grpc_methods :: "(string \<times> method_descriptor) list"
  grpc_pool :: pool
  grpc_seed :: u64
  grpc_scenarios :: "scenario_runtime option"

record grpc_directives =
  directive_scenario :: "string option"
  directive_session :: "string option"

definition grpc_directives_of :: "header_map \<Rightarrow> grpc_directives" where
  "grpc_directives_of hm =
     foldl (\<lambda>d (n, v).
       case header_to_str v of
         None \<Rightarrow> d
       | Some t \<Rightarrow>
           let t = trim t in
           if t = [] then d
           else if n = ''scenario'' then d\<lparr>directive_scenario := Some t\<rparr>
           else if n = ''session'' then d\<lparr>directive_session := Some t\<rparr>
           else d)
       \<lparr>directive_scenario = None, directive_session = None\<rparr> hm"

definition STREAMING_COUNT :: nat where
  "STREAMING_COUNT = 3"

definition generation_error :: "web \<Rightarrow> proto_lib \<Rightarrow> string \<Rightarrow> grpc_body" where
  "generation_error w L e =
     grpc_error_response w L 13 ''failed to generate protobuf response'' (Some (error_detail ''/response'' ''faker'' e))"

text \<open>\<open>None\<close> is a panic of the call's task.\<close>

fun stream_frames ::
  "web \<Rightarrow> proto_lib \<Rightarrow> pool \<Rightarrow> string \<Rightarrow> u64 \<Rightarrow> nat list \<Rightarrow> string list \<Rightarrow> grpc_body option" where
  "stream_frames w L pool output s [] frames = Some (build_success_response frames)"
| "stream_frames w L pool output s (i # is) frames =
     (case generate_dynamic_message L pool output (s + of_nat i) 0 of
        Inr msg \<Rightarrow> stream_frames w L pool output s is (frames @ [encode_grpc_unary_frame (encode_message L msg)])
      | Inl (GenError e) \<Rightarrow> Some (generation_error w L e)
      | Inl GenPanic \<Rightarrow> None)"

definition build_streaming_response ::
  "web \<Rightarrow> proto_lib \<Rightarrow> pool \<Rightarrow> method_descriptor \<Rightarrow> u64 \<Rightarrow> grpc_body option" where
  "build_streaming_response w L pool m s =
     stream_frames w L pool (method_output m) s [0..<STREAMING_COUNT] []"

definition unary_success :: "proto_lib \<Rightarrow> message \<Rightarrow> grpc_body" where
  "unary_success L msg = build_success_response [encode_grpc_unary_frame (encode_message L msg)]"

text \<open>The unary answer after the scenarios have been asked.\<close>

definition grpc_resolved ::
  "web \<Rightarrow> proto_lib \<Rightarrow> method_descriptor \<Rightarrow> message \<Rightarrow> resolution option \<Rightarrow> grpc_body" where
  "grpc_resolved w L m response r =
     (let stored = (\<lambda>v. case message_from_json L (method_output m) (print_json w v) of
            Inr msg \<Rightarrow> unary_success L msg
          | Inl e \<Rightarrow> grpc_error_response w L 13 (''failed to build stored response message: '' @ e) None)
      in case r of
           Some (FailedWith f) \<Rightarrow>
             grpc_error_response w L (grpc_code_for (failure_status f)) (failure_detail f) (Some (failure_json f))
         | Some (Body v) \<Rightarrow> stored v
         | Some (Forced _ (Some v)) \<Rightarrow> stored v
         | Some (Forced st None) \<Rightarrow>
             grpc_error_response w L (grpc_code_for st) (''scenario declared status '' @ nat_to_string st) None
         | _ \<Rightarrow> unary_success L response)"

record grpc_request =
  call_path :: string
  call_headers :: header_map
  call_body :: "string option"

text \<open>The payload of a call that passed every check, with its method.\<close>

definition check_call ::
  "web \<Rightarrow> proto_lib \<Rightarrow> grpc_runtime \<Rightarrow> grpc_request \<Rightarrow> grpc_body + method_descriptor \<times> message" where
  "check_call w L rt rq =
     (if \<not> is_grpc_content_type (call_headers rq) then
        Inl (grpc_error_response w L 3 ''content-type must be application/grpc'' None)
      else case map_of (grpc_methods rt) (call_path rq) of
        None \<Rightarrow> Inl (grpc_error_response w L 12 ''method not found'' None)
      | Some m \<Rightarrow>
          if client_streaming m then
            Inl (grpc_error_response w L 12 ''client streaming methods are not supported in this runtime'' None)
          else (case call_body rq of
            None \<Rightarrow> Inl (grpc_error_response w L 3 ''failed to read grpc request body''
              (Some (error_detail ''/body'' ''grpc'' ''body read failure'')))
          | Some bytes \<Rightarrow>
              (case decode_grpc_unary_frame bytes of
                 Inl e \<Rightarrow> Inl (grpc_error_response w L 3 e (Some (error_detail ''/body'' ''grpc_frame'' e)))
               | Inr payload \<Rightarrow>
                   (case decode_message L (method_input m) payload of
                      Inl e \<Rightarrow> Inl (grpc_error_response w L 3 ''protobuf request decode failed''
                        (Some (error_detail ''/body'' ''protobuf'' e)))
                    | Inr msg \<Rightarrow> Inr (m, msg)))))"

definition grpc_call ::
  "web \<Rightarrow> proto_lib \<Rightarrow> grpc_runtime \<Rightarrow> grpc_request \<Rightarrow> grpc_body option \<times> grpc_runtime" where
  "grpc_call w L rt rq =
     (case check_call w L rt rq of
        Inl refused \<Rightarrow> (Some refused, rt)
      | Inr (m, request) \<Rightarrow>
          let s = deterministic_hash (grpc_seed rt) (call_path rq) in
          if server_streaming m then (build_streaming_response w L (grpc_pool rt) m s, rt)
          else case generate_dynamic_message L (grpc_pool rt) (method_output m) s 0 of
                 Inl (GenError e) \<Rightarrow> (Some (generation_error w L e), rt)
               | Inl GenPanic \<Rightarrow> (None, rt)
               | Inr response \<Rightarrow>
                   (case grpc_scenarios rt of
                      None \<Rightarrow> (Some (grpc_resolved w L m response None), rt)
                    | Some scen \<Rightarrow>
                        let d = grpc_directives_of (call_headers rq);
                            (r, scen') = resolve_grpc (print_json w) scen (directive_scenario d) (directive_session d)
                              (call_path rq) (opt_default Null (message_to_json L (method_input m) request))
                              (opt_default Null (message_to_json L (method_output m) response))
                        in (Some (grpc_resolved w L m response (Some r)), rt\<lparr>grpc_scenarios := Some scen'\<rparr>)))"

text \<open>The methods of the compiled services, by path; compiling the protobuf file is a parameter.\<close>

definition grpc_from_config ::
  "(path \<Rightarrow> string + (string \<times> (string \<times> method_descriptor) list) list \<times> pool) \<Rightarrow> server_config
     \<Rightarrow> scenario_runtime option \<Rightarrow> runtime_error + grpc_runtime" where
  "grpc_from_config compile cfg shared =
     (case proto_spec cfg of
        None \<Rightarrow> Inl (ConfigError ''proto_spec must be set for gRPC runtime'')
      | Some p \<Rightarrow>
          (case compile p of
             Inl e \<Rightarrow> Inl (ParseError e)
           | Inr (services, pool) \<Rightarrow>
               Inr \<lparr>grpc_methods = rev (concat (map (\<lambda>(service, ms).
                      map (\<lambda>(name, m). (''/'' @ service @ ''/'' @ name, m)) ms) services)),
                    grpc_pool = pool, grpc_seed = config_seed cfg, grpc_scenarios = shared\<rparr>))"

section \<open>Frames read back\<close>

lemma char_code_of [simp]: "char_code (char_of n) = n mod 256"
  by (simp add: char_code_def)

lemma from_be_bytes_be_bytes: "from_be_bytes (be_bytes n) = unat n"
proof -
  have "unat n div 16777216 < 256"
    using unsigned_less [of n, where ?'a = nat] by (simp add: div_less_iff_less_mult)
  then have "unat n div 16777216 mod 256 = unat n div 16777216" by simp
  moreover have "x div (k * 256) * 256 + x div k mod 256 = x div k" for x k :: nat
    by (simp add: div_mult2_eq)
  from this [of "unat n" 65536] this [of "unat n" 256] this [of "unat n" 1]
  have "unat n div 16777216 * 256 + unat n div 65536 mod 256 = unat n div 65536"
    "unat n div 65536 * 256 + unat n div 256 mod 256 = unat n div 256"
    "unat n div 256 * 256 + unat n mod 256 = unat n" by simp_all
  ultimately show ?thesis by (simp add: from_be_bytes_def be_bytes_def)
qed

lemma decode_encode_frame:
  "decode_grpc_unary_frame (encode_grpc_unary_frame p @ rest) = Inr (take (length p mod 2 ^ 32) p)"
proof -
  have "take 4 (drop 1 (encode_grpc_unary_frame p @ rest)) = be_bytes (of_nat (length p))"
    by (simp add: encode_grpc_unary_frame_def be_bytes_def)
  then have n: "from_be_bytes (take 4 (drop 1 (encode_grpc_unary_frame p @ rest))) = length p mod 2 ^ 32"
    by (simp only: from_be_bytes_be_bytes) (simp add: unat_of_nat)
  have "drop 5 (encode_grpc_unary_frame p @ rest) = p @ rest"
    and "length (encode_grpc_unary_frame p @ rest) = 5 + length p + length rest"
    by (simp_all add: encode_grpc_unary_frame_def be_bytes_def)
  moreover have "length p mod 2 ^ 32 \<le> length p" by simp
  ultimately show ?thesis
    using n by (simp add: decode_grpc_unary_frame_def Let_def) (simp add: encode_grpc_unary_frame_def)
qed

definition read_frame :: "string \<Rightarrow> string option" where
  "read_frame bytes = (case decode_grpc_unary_frame bytes of Inr p \<Rightarrow> Some p | Inl _ \<Rightarrow> None)"

interpretation gf: codec "\<lambda>p. length p < 2 ^ 32" encode_grpc_unary_frame read_frame
  by unfold_locales (use decode_encode_frame [where rest = "[]"] in \<open>simp add: read_frame_def\<close>)

text \<open>
  C25. A frame decodes to the payload it was built from, trailing bytes being ignored, and frames of
  different payloads differ; the length prefix has 32 bits, so a payload of 4 GiB or more is cut to
  its length modulo \<open>2^32\<close>.
\<close>

theorem grpc_frame_roundtrip:
  "decode_grpc_unary_frame (encode_grpc_unary_frame p @ rest) = Inr (take (length p mod 2 ^ 32) p)
   \<and> inj_on encode_grpc_unary_frame {p. length p < 2 ^ 32}"
  using decode_encode_frame gf.encode_inj_on by blast

section \<open>Every call is answered\<close>

text \<open>What a client receives: the frames of a body until it reports the end.\<close>

fun drain :: "nat \<Rightarrow> grpc_body \<Rightarrow> frame list option" where
  "drain 0 b = None"
| "drain (Suc n) b =
     (case poll_frame b of
        (None, _) \<Rightarrow> Some []
      | (Some f, b) \<Rightarrow> map_option (Cons f) (drain n b))"

lemma drain_body:
  assumes "trailers b = Some t" and "frame_index b \<le> length (data_frames b)"
  shows "drain (length (data_frames b) - frame_index b + 2) b =
    Some (map DataFrame (drop (frame_index b) (data_frames b)) @ [TrailersFrame t])"
  using assms
proof (induction "length (data_frames b) - frame_index b" arbitrary: b)
  case 0
  then show ?case by (simp add: numeral_2_eq_2 poll_frame_def)
next
  case (Suc n)
  let ?b = "b\<lparr>frame_index := Suc (frame_index b)\<rparr>"
  have i: "frame_index b < length (data_frames b)" using Suc.hyps(2) by simp
  have n: "n = length (data_frames ?b) - frame_index ?b" using Suc.hyps(2) by simp
  have "drain (n + 2) ?b = Some (map DataFrame (drop (Suc (frame_index b)) (data_frames b)) @ [TrailersFrame t])"
    using Suc.hyps(1) [OF n] Suc.prems i n by simp
  moreover have "drain (Suc (n + 2)) b = map_option (Cons (DataFrame (data_frames b ! frame_index b))) (drain (n + 2) ?b)"
    using i by (simp add: poll_frame_def)
  moreover have "length (data_frames b) - frame_index b + 2 = Suc (n + 2)" using Suc.hyps(2) by simp
  ultimately show ?case using Cons_nth_drop_Suc [OF i] by (metis append_Cons list.simps(9) option.simps(9))
qed

declare drain.simps [simp del]

lemma grpc_code_valid: "grpc_code_for st \<le> 16"
  by (simp add: grpc_code_for_def)

definition reports :: "nat \<Rightarrow> grpc_body \<Rightarrow> bool" where
  "reports code b \<longleftrightarrow> code \<le> 16 \<and> frame_index b = 0 \<and> (code \<noteq> 0 \<longrightarrow> data_frames b = []) \<and>
     (\<exists>t. trailers b = Some t \<and> map_of t ''grpc-status'' = Some (nat_to_string code))"

text \<open>The header type accepts decimal numbers, which is documented of \<open>HeaderValue::from_str\<close>.\<close>

definition digits_valid :: "web \<Rightarrow> bool" where
  "digits_valid w \<longleftrightarrow> (\<forall>n. valid_header_value w (nat_to_string n))"

lemma nat_to_string_0: "nat_to_string 0 = ''0''"
  by code_simp

lemma success_reports: "reports 0 (build_success_response frames)"
  by (simp add: reports_def build_success_response_def success_trailers_def nat_to_string_0 del: nat_to_string.simps)

lemma unary_reports: "reports 0 (unary_success L msg)"
  by (simp add: unary_success_def success_reports)

lemma error_reports: "digits_valid w \<Longrightarrow> code \<le> 16 \<Longrightarrow> reports code (grpc_error_response w L code m details)"
  by (simp add: reports_def grpc_error_response_def trailer_def digits_valid_def)

lemma generation_reports: "digits_valid w \<Longrightarrow> reports 13 (generation_error w L e)"
  by (simp add: generation_error_def error_reports)

lemma stream_reports:
  "digits_valid w \<Longrightarrow> stream_frames w L pool output s is frames = Some b \<Longrightarrow> \<exists>code. reports code b"
  by (induction "is" arbitrary: frames)
    (auto simp: success_reports intro: generation_reports success_reports split: sum.splits gen_failure.splits)

lemma resolved_reports: "digits_valid w \<Longrightarrow> \<exists>code. reports code (grpc_resolved w L m response r)"
  unfolding grpc_resolved_def Let_def
  by (auto intro!: exI intro: unary_reports error_reports grpc_code_valid split: option.split resolution.split sum.split)

lemma refused_reports: "digits_valid w \<Longrightarrow> check_call w L rt rq = Inl b \<Longrightarrow> \<exists>code. reports code b"
  unfolding check_call_def
  by (auto intro!: exI intro: error_reports split: if_splits option.splits sum.splits)

text \<open>
  C24. Every call that returns is answered the gRPC way: the client receives the data frames in
  order, then exactly one trailers frame, then the end; the trailers carry a \<open>grpc-status\<close> between 0
  and 16 whatever status a scenario declares; and an error carries no data.
\<close>

theorem grpc_call_reports:
  assumes "digits_valid w" and "grpc_call w L rt rq = (Some b, rt')"
  shows "\<exists>code t. code \<le> 16 \<and> map_of t ''grpc-status'' = Some (nat_to_string code) \<and>
    (code \<noteq> 0 \<longrightarrow> data_frames b = []) \<and>
    drain (length (data_frames b) + 2) b = Some (map DataFrame (data_frames b) @ [TrailersFrame t])"
proof -
  obtain code where code: "reports code b"
    using assms refused_reports [OF assms(1), of L rt rq b] resolved_reports [OF assms(1)]
      stream_reports [OF assms(1)] generation_reports [OF assms(1)]
    by (fastforce simp: grpc_call_def build_streaming_response_def Let_def split_def
        split: sum.splits prod.splits if_splits option.splits gen_failure.splits)
  then obtain t where t: "trailers b = Some t" "map_of t ''grpc-status'' = Some (nat_to_string code)"
    by (auto simp: reports_def)
  have "drain (length (data_frames b) + 2) b = Some (map DataFrame (data_frames b) @ [TrailersFrame t])"
    using drain_body [OF t(1)] code by (simp add: reports_def)
  with code t show ?thesis by (auto simp: reports_def)
qed

definition grpc_web :: web where
  "grpc_web =
     \<lparr>parse_url = (\<lambda>_. Inl []), form_decode = (\<lambda>_. []), read_json = (\<lambda>_. Inr Null), print_json = (\<lambda>_. ''null''),
      print_problem = (\<lambda>_. []), valid_status = (\<lambda>_. True), header_name = Some, valid_header_value = (\<lambda>_. True),
      validate_value = (\<lambda>_ _. Inr []), generate_value = (\<lambda>_ _. Inl Panicked)\<rparr>"

definition grpc_lib :: proto_lib where
  "grpc_lib =
     \<lparr>set_field = (\<lambda>f v msg. Inr ((field_number f, v) # msg)), encode_message = (\<lambda>msg. replicate (length msg) CHR ''x''),
      decode_message = (\<lambda>_ _. Inr []), message_to_json = (\<lambda>_ _. None), message_from_json = (\<lambda>_ _. Inr []),
      encode_status = (\<lambda>_. []), encode_bad_request = (\<lambda>_. []), base64 = id, enum_index = (\<lambda>_ _. 0),
      overflow_checks = True\<rparr>"

definition echo_runtime :: grpc_runtime where
  "echo_runtime =
     \<lparr>grpc_methods = [(''/p.S/Echo'', \<lparr>method_input = ''In'', method_output = ''Out'', client_streaming = False,
        server_streaming = False\<rparr>)],
      grpc_pool = (\<lambda>name. if name = ''Out'' then [\<lparr>field_number = 1, field_kind = KString, containing_oneof = None,
        is_map = False, is_list = False, field_cardinality = Optional, supports_presence = False\<rparr>] else []),
      grpc_seed = 42, grpc_scenarios = None\<rparr>"

definition echo_call :: grpc_request where
  "echo_call = \<lparr>call_path = ''/p.S/Echo'', call_headers = [(''content-type'', ''application/grpc'')],
     call_body = Some (encode_grpc_unary_frame [])\<rparr>"

definition echo_body :: grpc_body where
  "echo_body = unary_success grpc_lib [(1, PBool True)]"

theorem grpc_call_reports_witness:
  "drain (length (data_frames echo_body) + 2) echo_body \<noteq> None \<and> data_frames echo_body = [encode_grpc_unary_frame ''x'']"
proof -
  have "digits_valid grpc_web" by (simp add: digits_valid_def grpc_web_def)
  moreover have "fst (grpc_call grpc_web grpc_lib echo_runtime echo_call) = Some echo_body" by code_simp
  then have "grpc_call grpc_web grpc_lib echo_runtime echo_call =
      (Some echo_body, snd (grpc_call grpc_web grpc_lib echo_runtime echo_call))" by (metis prod.collapse)
  ultimately have "\<exists>t. drain (length (data_frames echo_body) + 2) echo_body =
      Some (map DataFrame (data_frames echo_body) @ [TrailersFrame t])"
    using grpc_call_reports by blast
  moreover have "data_frames echo_body = [encode_grpc_unary_frame ''x'']" by code_simp
  ultimately show ?thesis by auto
qed

end
