(* ===== verification/Lifecycle.thy ===== *)
theory Lifecycle
  imports Http Grpc
begin

text \<open>
  Starting and stopping a server, \<open>specmock-runtime/src/lib.rs\<close>: \<open>start\<close> with every early return and
  the tasks it leaves running, \<open>RunningServer::shutdown\<close> and its destructor, and the task bodies of
  \<open>spawn_http_server\<close>, \<open>spawn_grpc_server\<close> and the relay as a step relation. What the operating system
  and the libraries give to \<open>start\<close> is the record \<open>platform\<close>; the notifier of the asynchronous runtime
  is the record \<open>notifier\<close>.
\<close>

section \<open>Starting\<close>

record platform =
  plat_web :: web
  plat_fs :: filesystem
  plat_exists :: "path \<Rightarrow> bool"
  plat_sidecar :: "value \<Rightarrow> string + sidecar"
  plat_compile :: "path \<Rightarrow> string + (string \<times> (string \<times> method_descriptor) list) list \<times> pool"
  plat_bind :: "socket_addr list \<Rightarrow> socket_addr \<Rightarrow> string + socket_addr"

text \<open>A spawned task with what it serves; a listening task holds its address.\<close>

datatype server_task =
    HttpTask socket_addr http_runtime
  | GrpcTask socket_addr grpc_runtime
  | RelayTask

fun held_addr :: "server_task \<Rightarrow> socket_addr option" where
  "held_addr (HttpTask a _) = Some a"
| "held_addr (GrpcTask a _) = Some a"
| "held_addr RelayTask = None"

record running_server =
  running_http_addr :: socket_addr
  running_grpc_addr :: "socket_addr option"
  shutdown_tx :: bool
  running_tasks :: "server_task list"
  running_scenarios :: "scenario_runtime option"
  running_control_token :: "string option"

definition load_scenario_runtime :: "platform \<Rightarrow> server_config \<Rightarrow> runtime_error + scenario_runtime option" where
  "load_scenario_runtime pf cfg = load_scenarios (plat_fs pf) (plat_sidecar pf) cfg"

definition spawn_http_server ::
  "platform \<Rightarrow> socket_addr list \<Rightarrow> http_runtime \<Rightarrow> socket_addr \<Rightarrow> runtime_error + socket_addr \<times> server_task" where
  "spawn_http_server pf held rt addr =
     (case plat_bind pf held addr of
        Inl e \<Rightarrow> Inl (IoError e)
      | Inr bound \<Rightarrow> Inr (bound, HttpTask bound rt))"

definition spawn_grpc_server ::
  "platform \<Rightarrow> socket_addr list \<Rightarrow> grpc_runtime \<Rightarrow> socket_addr \<Rightarrow> runtime_error + socket_addr \<times> server_task" where
  "spawn_grpc_server pf held rt addr =
     (case plat_bind pf held addr of
        Inl e \<Rightarrow> Inl (IoError e)
      | Inr bound \<Rightarrow> Inr (bound, GrpcTask bound rt))"

text \<open>
  \<open>start\<close> returns its result together with the tasks that run afterwards. An early return drops the
  handles of spawned tasks, which detaches and does not stop them.
\<close>

definition start_grpc ::
  "platform \<Rightarrow> server_config \<Rightarrow> scenario_runtime option \<Rightarrow> server_task list
     \<Rightarrow> runtime_error + socket_addr option \<times> server_task list" where
  "start_grpc pf cfg shared tasks =
     (if proto_spec cfg = None then Inr (None, tasks)
      else case grpc_from_config (plat_compile pf) cfg shared of
        Inl e \<Rightarrow> Inl e
      | Inr rt \<Rightarrow>
          (case spawn_grpc_server pf (List.map_filter held_addr tasks) rt (grpc_addr cfg) of
             Inl e \<Rightarrow> Inl e
           | Inr (bound, task) \<Rightarrow> Inr (Some bound, tasks @ [task])))"

definition start :: "platform \<Rightarrow> server_config \<Rightarrow> (runtime_error + running_server) \<times> server_task list" where
  "start pf cfg =
     (case validate_config (parse_url (plat_web pf)) (plat_exists pf) cfg of
        Inl e \<Rightarrow> (Inl e, [])
      | Inr _ \<Rightarrow>
     (case load_scenario_runtime pf cfg of
        Inl e \<Rightarrow> (Inl e, [])
      | Inr shared \<Rightarrow>
     (case from_config_with (plat_web pf) (plat_fs pf) (plat_sidecar pf) cfg shared of
        Inl e \<Rightarrow> (Inl e, [])
      | Inr http_runtime \<Rightarrow>
     (case spawn_http_server pf [] http_runtime (http_addr cfg) of
        Inl e \<Rightarrow> (Inl e, [])
      | Inr (bound, http_task) \<Rightarrow>
     (case start_grpc pf cfg shared [http_task] of
        Inl e \<Rightarrow> (Inl e, [http_task])
      | Inr (bound_grpc, tasks) \<Rightarrow>
          let tasks = tasks @ [RelayTask]
          in (Inr \<lparr>running_http_addr = bound, running_grpc_addr = bound_grpc, shutdown_tx = True,
                running_tasks = tasks, running_scenarios = shared,
                running_control_token = control_token cfg\<rparr>, tasks))))))"

section \<open>Stopping\<close>

text \<open>
  The notifier of the asynchronous runtime: a fresh one, \<open>notify_one\<close>, a poll of a \<open>notified\<close> future and
  the drop of a pending one. \<open>has_permit\<close> says whether the next poll completes. The documented
  behaviour: a notification is stored until a poll consumes it, whether or not a task is waiting.
\<close>

record 'n notifier =
  notify_new :: 'n
  notify_one :: "'n \<Rightarrow> 'n"
  poll_notified :: "'n \<Rightarrow> bool \<times> 'n"
  drop_notified :: "'n \<Rightarrow> 'n"
  has_permit :: "'n \<Rightarrow> bool"

definition notify_documented :: "'n notifier \<Rightarrow> bool" where
  "notify_documented N \<longleftrightarrow>
     \<not> has_permit N (notify_new N) \<and>
     (\<forall>n. has_permit N (notify_one N n)) \<and>
     (\<forall>n. fst (poll_notified N n) = has_permit N n \<and> \<not> has_permit N (snd (poll_notified N n))) \<and>
     (\<forall>n. has_permit N (drop_notified N n) = has_permit N n)"

datatype relay_pc = AwaitSignal | NotifyHttp | NotifyGrpc | RelayDone

text \<open>The HTTP task counts its open connections: graceful shutdown waits for them.\<close>

datatype http_pc = HttpServing nat | HttpDraining nat | HttpDone

datatype grpc_pc = GrpcLoop | GrpcDone

datatype job = HttpJob | GrpcJob | RelayJob

datatype caller_pc = Sending "job list" | Joining "job list" | Returned

record 'n lifecycle =
  signal :: bool
  http_shutdown :: 'n
  grpc_shutdown :: 'n
  relay :: relay_pc
  http_job :: http_pc
  grpc_job :: grpc_pc
  caller :: caller_pc

fun job_of :: "server_task \<Rightarrow> job" where
  "job_of (HttpTask _ _) = HttpJob"
| "job_of (GrpcTask _ _) = GrpcJob"
| "job_of RelayTask = RelayJob"

text \<open>A running server with \<open>n\<close> open HTTP connections when \<open>shutdown\<close> is called.\<close>

definition begin_shutdown :: "'n notifier \<Rightarrow> running_server \<Rightarrow> nat \<Rightarrow> 'n lifecycle" where
  "begin_shutdown N rs n =
     \<lparr>signal = False, http_shutdown = notify_new N, grpc_shutdown = notify_new N, relay = AwaitSignal,
      http_job = HttpServing n,
      grpc_job = (if GrpcJob \<in> job_of ` set (running_tasks rs) then GrpcLoop else GrpcDone),
      caller = Sending (map job_of (running_tasks rs))\<rparr>"

definition finished :: "'n lifecycle \<Rightarrow> job \<Rightarrow> bool" where
  "finished s j =
     (case j of HttpJob \<Rightarrow> http_job s = HttpDone
      | GrpcJob \<Rightarrow> grpc_job s = GrpcDone
      | RelayJob \<Rightarrow> relay s = RelayDone)"

text \<open>Steps of the server's own tasks and of the call of \<open>shutdown\<close>.\<close>

inductive server_step :: "'n notifier \<Rightarrow> 'n lifecycle \<Rightarrow> 'n lifecycle \<Rightarrow> bool" for N where
  send: "caller s = Sending js \<Longrightarrow> server_step N s (s\<lparr>signal := True, caller := Joining js\<rparr>)"
| join: "caller s = Joining (j # js) \<Longrightarrow> finished s j \<Longrightarrow> server_step N s (s\<lparr>caller := Joining js\<rparr>)"
| return: "caller s = Joining [] \<Longrightarrow> server_step N s (s\<lparr>caller := Returned\<rparr>)"
| relay_wakes: "relay s = AwaitSignal \<Longrightarrow> signal s \<Longrightarrow> server_step N s (s\<lparr>relay := NotifyHttp\<rparr>)"
| relay_http: "relay s = NotifyHttp \<Longrightarrow>
    server_step N s (s\<lparr>http_shutdown := notify_one N (http_shutdown s), relay := NotifyGrpc\<rparr>)"
| relay_grpc: "relay s = NotifyGrpc \<Longrightarrow>
    server_step N s (s\<lparr>grpc_shutdown := notify_one N (grpc_shutdown s), relay := RelayDone\<rparr>)"
| http_stops: "http_job s = HttpServing n \<Longrightarrow> poll_notified N (http_shutdown s) = (True, q) \<Longrightarrow>
    server_step N s (s\<lparr>http_shutdown := q, http_job := HttpDraining n\<rparr>)"
| http_served: "http_job s = HttpServing (Suc n) \<Longrightarrow> server_step N s (s\<lparr>http_job := HttpServing n\<rparr>)"
| http_drained: "http_job s = HttpDraining (Suc n) \<Longrightarrow> server_step N s (s\<lparr>http_job := HttpDraining n\<rparr>)"
| http_exits: "http_job s = HttpDraining 0 \<Longrightarrow> server_step N s (s\<lparr>http_job := HttpDone\<rparr>)"
| grpc_stops: "grpc_job s = GrpcLoop \<Longrightarrow> poll_notified N (grpc_shutdown s) = (True, q) \<Longrightarrow>
    server_step N s (s\<lparr>grpc_shutdown := q, grpc_job := GrpcDone\<rparr>)"

text \<open>Steps that clients cause, with the number of HTTP connections they open; polls that stay pending.\<close>

inductive client_step :: "'n notifier \<Rightarrow> nat \<Rightarrow> 'n lifecycle \<Rightarrow> 'n lifecycle \<Rightarrow> bool" for N where
  http_accept: "http_job s = HttpServing n \<Longrightarrow> client_step N 1 s (s\<lparr>http_job := HttpServing (Suc n)\<rparr>)"
| http_pending: "http_job s = HttpServing n \<Longrightarrow> poll_notified N (http_shutdown s) = (False, q) \<Longrightarrow>
    client_step N 0 s (s\<lparr>http_shutdown := q\<rparr>)"
| grpc_pending: "grpc_job s = GrpcLoop \<Longrightarrow> poll_notified N (grpc_shutdown s) = (False, q) \<Longrightarrow>
    client_step N 0 s (s\<lparr>grpc_shutdown := q\<rparr>)"
| grpc_accept: "grpc_job s = GrpcLoop \<Longrightarrow>
    client_step N 0 s (s\<lparr>grpc_shutdown := drop_notified N (grpc_shutdown s)\<rparr>)"

text \<open>An interleaving with \<open>i\<close> steps of the server and \<open>a\<close> accepted connections.\<close>

inductive shutdown_run :: "'n notifier \<Rightarrow> nat \<Rightarrow> nat \<Rightarrow> 'n lifecycle \<Rightarrow> 'n lifecycle \<Rightarrow> bool" for N where
  run_here: "shutdown_run N 0 0 s s"
| run_server: "shutdown_run N i a s t \<Longrightarrow> server_step N t u \<Longrightarrow> shutdown_run N (Suc i) a s u"
| run_client: "shutdown_run N i a s t \<Longrightarrow> client_step N k t u \<Longrightarrow> shutdown_run N i (a + k) s u"

text \<open>The destructor sends the signal and aborts every task, whatever it is doing.\<close>

definition server_drop :: "'n lifecycle \<Rightarrow> 'n lifecycle" where
  "server_drop s = s\<lparr>signal := True, relay := RelayDone, http_job := HttpDone, grpc_job := GrpcDone\<rparr>"

section \<open>What a start leaves running\<close>

text \<open>The HTTP runtime has the scenario runtime that was loaded for all protocols.\<close>

lemma from_config_with_shares:
  assumes "load_scenarios fs rd cfg = Inr shared" and "from_config_with w fs rd cfg shared = Inr rt"
  shows "run_scenarios rt = shared"
  using assms by (auto simp: from_config_with_def Let_def split: sum.splits option.splits if_splits)

lemma grpc_from_config_shares:
  "grpc_from_config compile cfg shared = Inr rt \<Longrightarrow> grpc_scenarios rt = shared"
  by (auto simp: grpc_from_config_def split: option.splits sum.splits)

lemma start_grpc_Inr:
  assumes "start_grpc pf cfg shared ts = Inr (g, us)"
  shows "proto_spec cfg = None \<and> g = None \<and> us = ts \<or>
    proto_spec cfg \<noteq> None \<and> (\<exists>a rt. g = Some a \<and> us = ts @ [GrpcTask a rt] \<and> grpc_scenarios rt = shared)"
  using assms
  by (auto simp: start_grpc_def spawn_grpc_server_def split: if_splits sum.splits dest: grpc_from_config_shares)

lemma start_grpc_Inl: "start_grpc pf cfg shared ts = Inl e \<Longrightarrow> proto_spec cfg \<noteq> None"
  by (auto simp: start_grpc_def split: if_splits)

lemma start_Inr:
  assumes "start pf cfg = (Inr rs, ts)"
  obtains http tasks where
    "validate_config (parse_url (plat_web pf)) (plat_exists pf) cfg = Inr ()"
    "from_config_with (plat_web pf) (plat_fs pf) (plat_sidecar pf) cfg (running_scenarios rs) = Inr http"
    "load_scenarios (plat_fs pf) (plat_sidecar pf) cfg = Inr (running_scenarios rs)"
    "start_grpc pf cfg (running_scenarios rs) [HttpTask (running_http_addr rs) http] = Inr (running_grpc_addr rs, tasks)"
    "ts = tasks @ [RelayTask]" "running_tasks rs = ts" "running_control_token rs = control_token cfg"
  using assms
  by (auto simp: start_def spawn_http_server_def load_scenario_runtime_def Let_def split: sum.splits prod.splits)

lemma start_Inl:
  assumes "start pf cfg = (Inl e, ts)"
  shows "ts = [] \<or> (\<exists>a http shared. ts = [HttpTask a http] \<and> start_grpc pf cfg shared ts = Inl e)"
  using assms
  by (auto simp: start_def spawn_http_server_def load_scenario_runtime_def Let_def split: sum.splits prod.splits)


section \<open>Shutdown under every schedule\<close>

fun sent :: "caller_pc \<Rightarrow> bool" where
  "sent (Sending _) = False"
| "sent _ = True"

fun awaited :: "caller_pc \<Rightarrow> job set" where
  "awaited (Sending js) = set js"
| "awaited (Joining js) = set js"
| "awaited Returned = {}"

fun serving :: "http_pc \<Rightarrow> bool" where
  "serving (HttpServing _) = True"
| "serving _ = False"

text \<open>
  Every task is finished or will be awaited, the signal is out once \<open>shutdown\<close> awaits, and a task
  that the relay has notified and that still serves finds its permit.
\<close>

definition joined :: "'n lifecycle \<Rightarrow> bool" where
  "joined s \<longleftrightarrow> (\<forall>j. j \<in> awaited (caller s) \<or> finished s j)"

definition signalled :: "'n lifecycle \<Rightarrow> bool" where
  "signalled s \<longleftrightarrow> \<not> sent (caller s) \<or> signal s"

definition notified :: "'n notifier \<Rightarrow> 'n lifecycle \<Rightarrow> bool" where
  "notified N s \<longleftrightarrow>
     (relay s \<in> {NotifyGrpc, RelayDone} \<and> serving (http_job s) \<longrightarrow> has_permit N (http_shutdown s)) \<and>
     (relay s = RelayDone \<and> grpc_job s = GrpcLoop \<longrightarrow> has_permit N (grpc_shutdown s))"

definition stopping :: "'n notifier \<Rightarrow> 'n lifecycle \<Rightarrow> bool" where
  "stopping N s \<longleftrightarrow> notify_documented N \<and> joined s \<and> signalled s \<and> notified N s"

fun caller_rank :: "caller_pc \<Rightarrow> nat" where
  "caller_rank (Sending js) = 2 + length js"
| "caller_rank (Joining js) = 1 + length js"
| "caller_rank Returned = 0"

fun relay_rank :: "relay_pc \<Rightarrow> nat" where
  "relay_rank AwaitSignal = 3"
| "relay_rank NotifyHttp = 2"
| "relay_rank NotifyGrpc = 1"
| "relay_rank RelayDone = 0"

fun http_rank :: "http_pc \<Rightarrow> nat" where
  "http_rank (HttpServing n) = n + 2"
| "http_rank (HttpDraining n) = n + 1"
| "http_rank HttpDone = 0"

fun grpc_rank :: "grpc_pc \<Rightarrow> nat" where
  "grpc_rank GrpcLoop = 1"
| "grpc_rank GrpcDone = 0"

text \<open>How many steps the server still has to take.\<close>

definition steps_left :: "'n lifecycle \<Rightarrow> nat" where
  "steps_left s = caller_rank (caller s) + relay_rank (relay s) + http_rank (http_job s) + grpc_rank (grpc_job s)"

lemma server_step_rank: "server_step N s t \<Longrightarrow> Suc (steps_left t) = steps_left s"
  by (cases rule: server_step.cases) (auto simp: steps_left_def)

lemma client_step_rank: "client_step N k s t \<Longrightarrow> steps_left t = steps_left s + k"
  by (cases rule: client_step.cases) (auto simp: steps_left_def)

lemma run_rank: "shutdown_run N i a s t \<Longrightarrow> i + steps_left t = steps_left s + a"
  by (induction rule: shutdown_run.induct) (auto dest: server_step_rank client_step_rank)

text \<open>The invariant is kept by every step.\<close>

lemma poll_permit:
  assumes "notify_documented N" and "poll_notified N n = (b, q)"
  shows "b = has_permit N n" "\<not> has_permit N q"
  using assms by (metis notify_documented_def fst_conv, metis notify_documented_def snd_conv)

lemma drop_permit: "notify_documented N \<Longrightarrow> has_permit N (drop_notified N n) = has_permit N n"
  by (simp add: notify_documented_def)

lemma finished_server_step: "server_step N s t \<Longrightarrow> finished s j \<Longrightarrow> finished t j"
  by (erule server_step.cases) (auto simp: finished_def split: job.splits)

lemma finished_client_step: "client_step N k s t \<Longrightarrow> finished s j \<Longrightarrow> finished t j"
  by (erule client_step.cases) (auto simp: finished_def split: job.splits)

lemma awaited_server_step: "server_step N s t \<Longrightarrow> j \<in> awaited (caller s) \<Longrightarrow> j \<in> awaited (caller t) \<or> finished s j"
  by (erule server_step.cases) auto

lemma awaited_client_step: "client_step N k s t \<Longrightarrow> caller t = caller s \<and> signal t = signal s"
  by (erule client_step.cases) auto

lemma signalled_server_step: "server_step N s t \<Longrightarrow> signalled s \<Longrightarrow> signalled t"
  by (erule server_step.cases) (auto simp: signalled_def)

lemma notified_server_step: "notify_documented N \<Longrightarrow> server_step N s t \<Longrightarrow> notified N s \<Longrightarrow> notified N t"
  by (erule server_step.cases) (simp_all add: notified_def notify_documented_def)

lemma notified_client_step: "notify_documented N \<Longrightarrow> client_step N k s t \<Longrightarrow> notified N s \<Longrightarrow> notified N t"
  by (erule client_step.cases) (auto simp: notified_def drop_permit dest: poll_permit)

lemma stopping_server_step: "stopping N s \<Longrightarrow> server_step N s t \<Longrightarrow> stopping N t"
  unfolding stopping_def joined_def
  by (blast intro: signalled_server_step notified_server_step dest: awaited_server_step finished_server_step)

lemma stopping_client_step: "stopping N s \<Longrightarrow> client_step N k s t \<Longrightarrow> stopping N t"
  unfolding stopping_def joined_def signalled_def
  using awaited_client_step finished_client_step notified_client_step by metis

lemma run_steps: "shutdown_run N i a s t \<Longrightarrow> (\<lambda>s t. server_step N s t \<or> (\<exists>k. client_step N k s t))\<^sup>*\<^sup>* s t"
  by (induction rule: shutdown_run.induct) (auto intro: rtranclp.rtrancl_into_rtrancl)

text \<open>A task that is not finished can move once the signal is out; the call can return when all have.\<close>

lemma http_moves:
  assumes "stopping N s" and "relay s = RelayDone" and "http_job s \<noteq> HttpDone"
  shows "\<exists>t. server_step N s t"
proof (cases "http_job s")
  case (HttpServing n)
  then have "has_permit N (http_shutdown s)" using assms by (simp add: stopping_def notified_def)
  then have "poll_notified N (http_shutdown s) = (True, snd (poll_notified N (http_shutdown s)))"
    using assms(1) by (metis stopping_def poll_permit(1) prod.collapse)
  from http_stops [where s = s, OF HttpServing this] show ?thesis ..
next
  case (HttpDraining n)
  then show ?thesis by (cases n) (auto intro: http_drained http_exits)
qed (use assms in simp)

lemma grpc_moves:
  assumes "stopping N s" and "relay s = RelayDone" and "grpc_job s \<noteq> GrpcDone"
  shows "\<exists>t. server_step N s t"
proof -
  have loop: "grpc_job s = GrpcLoop" using assms(3) by (cases "grpc_job s") simp_all
  then have "has_permit N (grpc_shutdown s)" using assms by (simp add: stopping_def notified_def)
  then have "poll_notified N (grpc_shutdown s) = (True, snd (poll_notified N (grpc_shutdown s)))"
    using assms(1) by (metis stopping_def poll_permit(1) prod.collapse)
  from grpc_stops [where s = s, OF loop this] show ?thesis ..
qed

lemma relay_moves:
  assumes "signal s" and "relay s \<noteq> RelayDone"
  shows "\<exists>t. server_step N s t"
  using assms by (cases "relay s") (auto intro: relay_wakes relay_http relay_grpc)

lemma job_moves:
  assumes "stopping N s" and "signal s" and "\<not> finished s j"
  shows "\<exists>t. server_step N s t"
  using assms relay_moves http_moves grpc_moves by (cases j) (fastforce simp: finished_def)+

lemma stopping_moves:
  assumes "stopping N s" and "caller s \<noteq> Returned"
  shows "\<exists>t. server_step N s t"
proof (cases "caller s")
  case (Sending js)
  then show ?thesis by (blast intro: send)
next
  case (Joining js)
  then have "signal s" using assms(1) by (simp add: stopping_def signalled_def)
  then show ?thesis using Joining assms(1) by (cases js) (blast intro: return join job_moves)+
qed (use assms in simp)

lemma stopping_begin:
  assumes "notify_documented N" and "HttpJob \<in> job_of ` set (running_tasks rs)" and "RelayJob \<in> job_of ` set (running_tasks rs)"
  shows "stopping N (begin_shutdown N rs n)"
proof -
  have "j \<in> awaited (caller (begin_shutdown N rs n)) \<or> finished (begin_shutdown N rs n) j" for j
    using assms(2,3) by (cases j) (auto simp: begin_shutdown_def finished_def)
  then show ?thesis
    using assms(1) by (simp add: stopping_def joined_def signalled_def notified_def) (simp add: begin_shutdown_def)
qed

lemma started_tasks:
  assumes "start pf cfg = (Inr rs, ts)"
  shows "map job_of (running_tasks rs) \<in> {[HttpJob, RelayJob], [HttpJob, GrpcJob, RelayJob]}"
  using assms by (auto elim!: start_Inr dest!: start_grpc_Inr)

text \<open>The state in which \<open>shutdown\<close> is called on a server that was started.\<close>

definition shutdown_called :: "'n notifier \<Rightarrow> 'n lifecycle \<Rightarrow> bool" where
  "shutdown_called N s \<longleftrightarrow>
     notify_documented N \<and> (\<exists>pf cfg rs ts n. start pf cfg = (Inr rs, ts) \<and> s = begin_shutdown N rs n)"

lemma started_stopping:
  assumes "notify_documented N" and "start pf cfg = (Inr rs, ts)"
  shows "stopping N (begin_shutdown N rs n)" and "length (running_tasks rs) \<le> 3"
proof -
  from started_tasks [OF assms(2)]
  have "{HttpJob, RelayJob} \<subseteq> job_of ` set (running_tasks rs)" and len: "length (running_tasks rs) \<le> 3"
    by (auto simp flip: set_map dest: arg_cong [where f = length] arg_cong [where f = set])
  then show "stopping N (begin_shutdown N rs n)" using assms(1) by (intro stopping_begin) auto
  show "length (running_tasks rs) \<le> 3" by (rule len)
qed

interpretation ls: invariant_system
  "shutdown_called N" "\<lambda>s t. server_step N s t \<or> (\<exists>k. client_step N k s t)" "stopping N" for N
  by unfold_locales
    (auto simp: shutdown_called_def intro: started_stopping stopping_server_step stopping_client_step)


text \<open>A notifier that stores one permit, and a server with a protobuf file only.\<close>

definition permit_notifier :: "bool notifier" where
  "permit_notifier =
     \<lparr>notify_new = False, notify_one = (\<lambda>_. True), poll_notified = (\<lambda>p. (p, False)),
      drop_notified = (\<lambda>p. p), has_permit = (\<lambda>p. p)\<rparr>"

definition demo_platform :: platform where
  "demo_platform =
     \<lparr>plat_web = grpc_web, plat_fs = demo_fs [], plat_exists = (\<lambda>_. True),
      plat_sidecar = (\<lambda>_. Inl []), plat_compile = (\<lambda>_. Inr ([], grpc_pool echo_runtime)),
      plat_bind = (\<lambda>_ a. Inr a)\<rparr>"

definition demo_config :: server_config where
  "demo_config = default_config\<lparr>proto_spec := Some ''greeter.proto''\<rparr>"

definition demo_server :: running_server where
  "demo_server = projr (fst (start demo_platform demo_config))"

lemma demo_start: "start demo_platform demo_config = (Inr demo_server, running_tasks demo_server)"
  by (simp add: demo_server_def start_def demo_platform_def demo_config_def default_config_def validate_config_def
      guard_def upstream_check_def file_check_def DEFAULT_WS_PATH_def DEFAULT_HTTP_ADDR_def DEFAULT_MAX_BODY_SIZE_def
      load_scenario_runtime_def load_scenarios_def from_config_with_def transpose_spec_def spawn_http_server_def
      start_grpc_def grpc_from_config_def spawn_grpc_server_def starts_with_def Let_def)


section \<open>Why the permit is needed\<close>

text \<open>
  A notifier that only wakes tasks already waiting, like \<open>notify_waiters\<close>: with it a relay that runs
  before the HTTP task first polls leaves that task, and the call of \<open>shutdown\<close>, waiting forever.
\<close>

definition waiters_notifier :: "(bool \<times> bool) notifier" where
  "waiters_notifier =
     \<lparr>notify_new = (False, False), notify_one = (\<lambda>(w, p). (False, p \<or> w)),
      poll_notified = (\<lambda>(w, p). (p, (\<not> p, False))),
      drop_notified = (\<lambda>(w, p). (False, p)), has_permit = snd\<rparr>"

lemma waiters_lose_signal:
  fixes rs :: running_server
  defines "s \<equiv> \<lparr>signal = True, http_shutdown = (False, False), grpc_shutdown = (False, False), relay = RelayDone,
    http_job = HttpServing 0, grpc_job = (if GrpcJob \<in> job_of ` set (running_tasks rs) then GrpcLoop else GrpcDone),
    caller = Joining (map job_of (running_tasks rs))\<rparr>"
  assumes "start pf cfg = (Inr rs, ts)"
  shows "shutdown_run waiters_notifier 4 0 (begin_shutdown waiters_notifier rs 0) s"
    and "\<not> server_step waiters_notifier s t"
proof -
  let ?N = waiters_notifier
  let ?s0 = "begin_shutdown ?N rs 0"
  let ?s1 = "?s0\<lparr>signal := True, caller := Joining (map job_of (running_tasks rs))\<rparr>"
  let ?s2 = "?s1\<lparr>relay := NotifyHttp\<rparr>"
  let ?s3 = "?s2\<lparr>http_shutdown := notify_one ?N (http_shutdown ?s2), relay := NotifyGrpc\<rparr>"
  let ?s4 = "?s3\<lparr>grpc_shutdown := notify_one ?N (grpc_shutdown ?s3), relay := RelayDone\<rparr>"
  have "server_step ?N ?s0 ?s1" by (rule send) (simp add: begin_shutdown_def)
  moreover have "server_step ?N ?s1 ?s2" by (rule relay_wakes) (simp_all add: begin_shutdown_def)
  moreover have "server_step ?N ?s2 ?s3" by (rule relay_http) simp
  moreover have "server_step ?N ?s3 ?s4" by (rule relay_grpc) simp
  ultimately have "shutdown_run ?N (Suc (Suc (Suc (Suc 0)))) 0 ?s0 ?s4"
    by (blast intro: run_here run_server)
  moreover have "?s4 = s" by (simp add: s_def begin_shutdown_def waiters_notifier_def)
  ultimately show "shutdown_run ?N 4 0 ?s0 s" by (simp add: eval_nat_numeral)
  show "\<not> server_step ?N s t"
  proof
    assume "server_step ?N s t"
    then show False using started_tasks [OF assms(2)]
      by cases (auto simp: s_def finished_def waiters_notifier_def split: if_splits)
  qed
qed

end
