(* ===== verification/System.thy ===== *)
theory System
  imports Ws_Handler Lifecycle Scenario_Props Http_Props
begin

text \<open>
  The running server as one system: HTTP requests, control requests, gRPC calls, WebSocket
  connections message by message, and resets through the SDK, in any order, over the one scenario
  runtime they share. The theory composes the handlers of the other theories; its definitions add
  only the sharing and the table of open connections.
\<close>

section \<open>A connection event by event\<close>

text \<open>What one delivered item does to a connection: the body of the loop of \<open>ws_socket_loop\<close>.\<close>

datatype ws_fate = Continues rate_limiter | Ends | Unwinds

definition ws_turn ::
  "web \<Rightarrow> (ws_outcome \<Rightarrow> string + string) \<Rightarrow> ws_connection \<Rightarrow> string option \<Rightarrow> rate_limiter \<Rightarrow> http_runtime
     \<Rightarrow> ws_event \<Rightarrow> string list \<times> ws_fate \<times> http_runtime" where
  "ws_turn w po c scen_name rl rt e =
     (case ws_item e of
        BrokenItem \<Rightarrow> ([], Ends, rt)
      | OtherItem \<Rightarrow> ([], Continues rl, rt)
      | TextItem msg \<Rightarrow>
          let (ok, rl) = check_and_update (arrival e) rl;
              next = (if deliverable e then Continues rl else Ends) in
          if \<not> ok then ([rate_limit_error w], next, rt)
          else
            (case ws_answer w rt (pinned_channel c) msg of
               WsPanic \<Rightarrow> ([], Unwinds, rt)
             | outcome \<Rightarrow>
                 let (outcome, rt) = apply_scenario w rt outcome scen_name (ws_session c) (pinned_channel c)
                       (case read_json w msg of Inr v \<Rightarrow> Some v | Inl _ \<Rightarrow> None)
                 in ([encode_outcome w po outcome], next, rt)))"

text \<open>The release when a connection has ended.\<close>

definition ws_finish :: "ws_connection \<Rightarrow> string option \<Rightarrow> http_runtime \<Rightarrow> http_runtime" where
  "ws_finish c scen_name rt =
     (case run_scenarios rt of
        None \<Rightarrow> rt
      | Some scen \<Rightarrow>
          (case (case scen_name of Some n \<Rightarrow> Some n | None \<Rightarrow> default_scenario_name scen) of
             None \<Rightarrow> rt
           | Some n \<Rightarrow> rt\<lparr>run_scenarios := Some (snd (release scen n (ws_session c)))\<rparr>))"

definition ws_scenario :: "ws_connection \<Rightarrow> http_runtime \<Rightarrow> string option" where
  "ws_scenario c rt =
     (case requested_scenario c of
        Some n \<Rightarrow> Some n
      | None \<Rightarrow> Option.bind (run_scenarios rt) default_scenario_name)"

lemma ws_loop_turn:
  "ws_loop w po c sn rl rt (e # es) =
     (case ws_turn w po c sn rl rt e of
        (texts, Continues rl', rt') \<Rightarrow> map_prod ((@) texts) id (ws_loop w po c sn rl' rt' es)
      | (texts, Ends, rt') \<Rightarrow> (texts, True, rt')
      | (texts, Unwinds, rt') \<Rightarrow> (texts, False, rt'))"
  by (auto simp: ws_turn_def Let_def split_def map_prod_def split: ws_item.split ws_outcome.split)

text \<open>The loop of a whole connection is the fold of its turns, followed by the release.\<close>

lemma ws_socket_loop_finish:
  "ws_socket_loop w po c opened rt es =
     (let (texts, ended, rt') = ws_loop w po c (ws_scenario c rt) (rate_limiter_new opened) rt es
      in (texts, if ended then ws_finish c (ws_scenario c rt) rt' else rt'))"
  by (simp add: ws_socket_loop_def ws_finish_def ws_scenario_def Let_def split_def)

section \<open>The server\<close>

record socket =
  sock_connection :: ws_connection
  sock_scenario :: "string option"
  sock_limiter :: rate_limiter

text \<open>
  The shared scenario runtime is the one of the HTTP runtime; a gRPC call runs on it and leaves it.
\<close>

record server =
  srv_http :: http_runtime
  srv_grpc :: "grpc_runtime option"
  srv_sockets :: "(nat \<times> socket) list"

record env =
  env_web :: web
  env_lib :: proto_lib
  env_client :: client
  env_print :: "ws_outcome \<Rightarrow> string + string"

datatype event =
    HttpRequest http_request
  | ControlState header_map
  | ControlReset header_map
  | GrpcCall grpc_request
  | SocketOpen nat string "string option" nat
  | SocketItem nat ws_event
  | SocketClosed nat
  | SdkReset

datatype reply =
    HttpReply "http_response option" "outbound list"
  | GrpcReply "grpc_body option"
  | SocketReply "string list"
  | Quiet

definition serve_grpc :: "env \<Rightarrow> grpc_runtime \<Rightarrow> grpc_request \<Rightarrow> server \<Rightarrow> reply \<times> server" where
  "serve_grpc en g rq s =
     (let (r, g') = grpc_call (env_web en) (env_lib en) (g\<lparr>grpc_scenarios := run_scenarios (srv_http s)\<rparr>) rq
      in (GrpcReply r, s\<lparr>srv_grpc := Some g', srv_http := (srv_http s)\<lparr>run_scenarios := grpc_scenarios g'\<rparr>\<rparr>))"

definition serve_open :: "env \<Rightarrow> nat \<Rightarrow> string \<Rightarrow> string option \<Rightarrow> nat \<Rightarrow> server \<Rightarrow> reply \<times> server" where
  "serve_open en n p query now s =
     (case ws_upgrade_handler (env_web en) (srv_http s) p query of
        (Inl refused, rt) \<Rightarrow> (HttpReply (Some refused) [], s\<lparr>srv_http := rt\<rparr>)
      | (Inr c, rt) \<Rightarrow>
          (Quiet, s\<lparr>srv_http := rt, srv_sockets :=
             (n, \<lparr>sock_connection = c, sock_scenario = ws_scenario c rt, sock_limiter = rate_limiter_new now\<rparr>)
               # AList.delete n (srv_sockets s)\<rparr>))"

definition serve_item :: "env \<Rightarrow> nat \<Rightarrow> socket \<Rightarrow> ws_event \<Rightarrow> server \<Rightarrow> reply \<times> server" where
  "serve_item en n so e s =
     (case ws_turn (env_web en) (env_print en) (sock_connection so) (sock_scenario so) (sock_limiter so) (srv_http s) e of
        (texts, Continues rl, rt) \<Rightarrow>
          (SocketReply texts, s\<lparr>srv_http := rt, srv_sockets := AList.update n (so\<lparr>sock_limiter := rl\<rparr>) (srv_sockets s)\<rparr>)
      | (texts, Ends, rt) \<Rightarrow>
          (SocketReply texts, s\<lparr>srv_http := ws_finish (sock_connection so) (sock_scenario so) rt,
             srv_sockets := AList.delete n (srv_sockets s)\<rparr>)
      | (texts, Unwinds, rt) \<Rightarrow> (SocketReply texts, s\<lparr>srv_http := rt, srv_sockets := AList.delete n (srv_sockets s)\<rparr>))"

definition serve :: "env \<Rightarrow> event \<Rightarrow> server \<Rightarrow> reply \<times> server" where
  "serve en ev s =
     (case ev of
        HttpRequest rq \<Rightarrow>
          let (r, rt, outs) = http_fallback_handler (env_web en) (env_client en) (srv_http s) rq
          in (HttpReply r outs, s\<lparr>srv_http := rt\<rparr>)
      | ControlState hm \<Rightarrow> (HttpReply (Some (control_state_handler (env_web en) (srv_http s) hm)) [], s)
      | ControlReset hm \<Rightarrow>
          let (r, rt) = control_reset_handler (env_web en) (srv_http s) hm
          in (HttpReply (Some r) [], s\<lparr>srv_http := rt\<rparr>)
      | GrpcCall rq \<Rightarrow> (case srv_grpc s of None \<Rightarrow> (Quiet, s) | Some g \<Rightarrow> serve_grpc en g rq s)
      | SocketOpen n p query now \<Rightarrow> serve_open en n p query now s
      | SocketItem n e \<Rightarrow>
          (case map_of (srv_sockets s) n of None \<Rightarrow> (Quiet, s) | Some so \<Rightarrow> serve_item en n so e s)
      | SocketClosed n \<Rightarrow>
          (case map_of (srv_sockets s) n of
             None \<Rightarrow> (Quiet, s)
           | Some so \<Rightarrow> (Quiet, s\<lparr>srv_http := ws_finish (sock_connection so) (sock_scenario so) (srv_http s),
                 srv_sockets := AList.delete n (srv_sockets s)\<rparr>))
      | SdkReset \<Rightarrow>
          (case run_scenarios (srv_http s) of
             None \<Rightarrow> (Quiet, s)
           | Some scen \<Rightarrow> (Quiet, s\<lparr>srv_http := (srv_http s)
                 \<lparr>run_scenarios := Some (snd (reset_all (print_json (env_web en)) scen))\<rparr>\<rparr>)))"

fun http_of :: "server_task \<Rightarrow> http_runtime option" where
  "http_of (HttpTask _ rt) = Some rt"
| "http_of _ = None"

fun grpc_of :: "server_task \<Rightarrow> grpc_runtime option" where
  "grpc_of (GrpcTask _ g) = Some g"
| "grpc_of _ = None"

text \<open>The server that \<open>start\<close> leaves running.\<close>

definition server_started :: "platform \<Rightarrow> server_config \<Rightarrow> server option" where
  "server_started pf cfg =
     (case start pf cfg of
        (Inl _, _) \<Rightarrow> None
      | (Inr rs, ts) \<Rightarrow>
          (case List.map_filter http_of ts of
             [] \<Rightarrow> None
           | rt # _ \<Rightarrow> Some \<lparr>srv_http = rt,
               srv_grpc = (case List.map_filter grpc_of ts of [] \<Rightarrow> None | g # _ \<Rightarrow> Some g), srv_sockets = []\<rparr>))"

section \<open>Every event is steps of the scenario runtime\<close>

text \<open>Between two states of the server only steps of the shared runtime happen, or there is none.\<close>

definition scen_steps :: "(value \<Rightarrow> string) \<Rightarrow> scenario_runtime option \<Rightarrow> scenario_runtime option \<Rightarrow> bool" where
  "scen_steps tj a b \<longleftrightarrow> rel_option (runtime_step tj)\<^sup>*\<^sup>* a b"

lemma scen_steps_refl [simp]: "scen_steps tj a a"
  by (cases a) (simp_all add: scen_steps_def)

lemma scen_steps_trans: "scen_steps tj a b \<Longrightarrow> scen_steps tj b c \<Longrightarrow> scen_steps tj a c"
  by (cases a; cases b; cases c) (auto simp: scen_steps_def)

lemma scen_steps_Some: "runtime_step tj rt rt' \<Longrightarrow> scen_steps tj (Some rt) (Some rt')"
  by (simp add: scen_steps_def)

lemma scen_steps_serve [simp]: "scen_steps tj (Some rt) (Some (snd (resolve_with tj rt q)))"
  by (rule scen_steps_Some) (rule runtime_step.serve)

text \<open>A runtime whose scenario runtime made steps and which is otherwise the same.\<close>

definition runtime_moves :: "(value \<Rightarrow> string) \<Rightarrow> http_runtime \<Rightarrow> http_runtime \<Rightarrow> bool" where
  "runtime_moves tj rt rt' \<longleftrightarrow>
     scen_steps tj (run_scenarios rt) (run_scenarios rt') \<and>
     rt'\<lparr>run_scenarios := None, ws_sessions := 0\<rparr> = rt\<lparr>run_scenarios := None, ws_sessions := 0\<rparr>"

lemma runtime_moves_refl [simp]: "runtime_moves tj rt rt"
  by (simp add: runtime_moves_def)

lemma runtime_moves_trans: "runtime_moves tj a b \<Longrightarrow> runtime_moves tj b c \<Longrightarrow> runtime_moves tj a c"
  by (auto simp: runtime_moves_def intro: scen_steps_trans)

lemma runtime_moves_Some:
  "run_scenarios rt = Some scen \<Longrightarrow> scen_steps tj (Some scen) (Some scen') \<Longrightarrow>
     runtime_moves tj rt (rt\<lparr>run_scenarios := Some scen'\<rparr>)"
  by (simp add: runtime_moves_def)

lemma mock_request_moves: "runtime_moves (print_json w) rt (fst (snd (mock_request w rt rq acc)))"
  by (auto simp: mock_request_def scenario_resolve_def Let_def split_def
      split: sum.split runtime_error.split option.split intro!: runtime_moves_Some)

lemma fallback_moves: "runtime_moves (print_json w) rt (fst (snd (http_fallback_handler w send rt rq)))"
  by (auto simp: http_fallback_handler_def mock_request_moves split: sum.split mock_mode.split option.split)

lemma reset_moves: "runtime_moves (print_json w) rt (snd (control_reset_handler w rt hm))"
  by (auto simp: control_reset_handler_def Let_def split_def split: option.split
      intro!: runtime_moves_Some scen_steps_Some runtime_step.cleared)

lemma apply_scenario_moves: "runtime_moves (print_json w) rt (snd (apply_scenario w rt out sn x pinned incoming))"
  by (auto simp: apply_scenario_def resolve_channel_def scenario_resolve_def Let_def split_def
      split: option.split ws_outcome.split intro!: runtime_moves_Some)

lemma ws_turn_moves: "runtime_moves (print_json w) rt (snd (snd (ws_turn w po c sn rl rt e)))"
  by (auto simp: ws_turn_def Let_def split_def apply_scenario_moves split: ws_item.split ws_outcome.split)

lemma ws_finish_moves: "runtime_moves tj rt (ws_finish c sn rt)"
  by (auto simp: ws_finish_def split: option.split intro!: runtime_moves_Some scen_steps_Some runtime_step.closed)

lemma upgrade_moves: "runtime_moves tj rt (snd (ws_upgrade_handler w rt p query))"
  by (auto simp: ws_upgrade_handler_def fresh_ws_session_def runtime_moves_def Let_def split: option.split)

lemma grpc_call_moves:
  "scen_steps (print_json w) (grpc_scenarios g) (grpc_scenarios (snd (grpc_call w L g rq)))"
  by (auto simp: grpc_call_def resolve_grpc_def Let_def split_def split: sum.split gen_failure.split option.split)

lemma serve_grpc_moves:
  "runtime_moves (print_json (env_web en)) (srv_http s) (srv_http (snd (serve_grpc en g rq s)))"
  using grpc_call_moves [of "env_web en" "g\<lparr>grpc_scenarios := run_scenarios (srv_http s)\<rparr>" "env_lib en" rq]
  by (simp add: serve_grpc_def runtime_moves_def split_def Let_def)

lemma serve_open_moves: "runtime_moves tj (srv_http s) (srv_http (snd (serve_open en n p query now s)))"
  using upgrade_moves [of tj "srv_http s" "env_web en" p query]
  by (auto simp: serve_open_def split: prod.split sum.split)

lemma serve_item_moves:
  "runtime_moves (print_json (env_web en)) (srv_http s) (srv_http (snd (serve_item en n so e s)))"
proof -
  obtain texts fate rt where turn: "ws_turn (env_web en) (env_print en) (sock_connection so) (sock_scenario so)
      (sock_limiter so) (srv_http s) e = (texts, fate, rt)" by (metis prod_cases3)
  then have "runtime_moves (print_json (env_web en)) (srv_http s) rt"
    using ws_turn_moves [of "env_web en" "srv_http s" "env_print en"] by (metis snd_conv)
  then show ?thesis using ws_finish_moves
    by (cases fate) (auto simp: serve_item_def turn intro: runtime_moves_trans)
qed

lemma serve_moves: "runtime_moves (print_json (env_web en)) (srv_http s) (srv_http (snd (serve en ev s)))"
  using fallback_moves [of "env_web en" "srv_http s"] reset_moves [of "env_web en" "srv_http s"]
  by (cases ev) (auto simp: serve_def serve_grpc_moves serve_open_moves serve_item_moves ws_finish_moves Let_def split_def
      split: option.split intro!: runtime_moves_Some scen_steps_Some runtime_step.cleared)

section \<open>Invariant of the running server\<close>

definition server_init :: "env \<Rightarrow> platform \<Rightarrow> server_config \<Rightarrow> server \<Rightarrow> bool" where
  "server_init en pf cfg s \<longleftrightarrow> env_web en = plat_web pf \<and> server_started pf cfg = Some s"

definition server_moves :: "env \<Rightarrow> server \<Rightarrow> server \<Rightarrow> bool" where
  "server_moves en s s' \<longleftrightarrow> (\<exists>ev. s' = snd (serve en ev s))"

lemma server_started_http:
  assumes "server_started pf cfg = Some s"
  obtains shared where "load_scenarios (plat_fs pf) (plat_sidecar pf) cfg = Inr shared"
    "from_config_with (plat_web pf) (plat_fs pf) (plat_sidecar pf) cfg shared = Inr (srv_http s)"
    "run_scenarios (srv_http s) = shared"
proof -
  obtain rs ts where st: "start pf cfg = (Inr rs, ts)"
    using assms by (auto simp: server_started_def split: prod.splits sum.splits)
  then obtain http tasks where h:
    "from_config_with (plat_web pf) (plat_fs pf) (plat_sidecar pf) cfg (running_scenarios rs) = Inr http"
    "load_scenarios (plat_fs pf) (plat_sidecar pf) cfg = Inr (running_scenarios rs)"
    "start_grpc pf cfg (running_scenarios rs) [HttpTask (running_http_addr rs) http] = Inr (running_grpc_addr rs, tasks)"
    "ts = tasks @ [RelayTask]" by (elim start_Inr)
  from start_grpc_Inr [OF h(3)] have "List.map_filter http_of ts = [http]"
    by (auto simp: h(4) List.map_filter_simps)
  then have "srv_http s = http" using assms st by (auto simp: server_started_def)
  with that h(1,2) from_config_with_shares [OF h(2,1)] show ?thesis by simp
qed

text \<open>What a loaded scenario runtime starts as.\<close>

lemma load_scenarios_started:
  assumes "load_scenarios fs fv cfg = Inr (Some rt)"
  shows "started fv rt" "max_sessions rt = config_max_sessions cfg" "max_store_entries rt = config_max_store_entries cfg"
proof -
  obtain doc vs where vs: "sidecar_parse fv doc = Inr vs"
    "rt = runtime_new vs (config_max_sessions cfg) (config_max_store_entries cfg)"
    using assms by (auto simp: load_scenarios_def Let_def split: option.splits sum.splits)
  then have "runtime_from_value fv doc (config_max_sessions cfg) (config_max_store_entries cfg) = Inr rt"
    by (simp add: runtime_from_value_def)
  then show "started fv rt" unfolding started_def by blast
  show "max_sessions rt = config_max_sessions cfg" "max_store_entries rt = config_max_store_entries cfg"
    by (simp_all add: vs(2) runtime_new_def)
qed

lemma load_scenarios_present: "load_scenarios fs fv cfg = Inr shared \<Longrightarrow> shared = None \<longleftrightarrow> scenarios_spec cfg = None"
  by (auto simp: load_scenarios_def Let_def split: option.splits sum.splits)

lemma runtime_steps_config:
  "(runtime_step tj)\<^sup>*\<^sup>* rt rt' \<Longrightarrow>
     max_sessions rt' = max_sessions rt \<and> max_store_entries rt' = max_store_entries rt \<and> rt_sidecar rt' = rt_sidecar rt"
  by (induction rule: rtranclp_induct) (auto elim!: runtime_step.cases simp: release_def reset_all_def)

definition server_inv :: "env \<Rightarrow> platform \<Rightarrow> server_config \<Rightarrow> server \<Rightarrow> bool" where
  "server_inv en pf cfg s \<longleftrightarrow>
     env_web en = plat_web pf \<and>
     (\<exists>s0. server_started pf cfg = Some s0 \<and> runtime_moves (print_json (plat_web pf)) (srv_http s0) (srv_http s))"

interpretation sy: invariant_system "server_init en pf cfg" "server_moves en" "server_inv en pf cfg" for en pf cfg
proof
  fix s assume "server_init en pf cfg s"
  then show "server_inv en pf cfg s" by (auto simp: server_init_def server_inv_def)
next
  fix s t assume "server_inv en pf cfg s" "server_moves en s t"
  then show "server_inv en pf cfg t"
    unfolding server_inv_def server_moves_def using serve_moves runtime_moves_trans by metis
qed

lemma server_shared:
  assumes "reachable_from (server_init en pf cfg) (server_moves en) s"
  shows "case run_scenarios (srv_http s) of
      None \<Rightarrow> scenarios_spec cfg = None
    | Some rt \<Rightarrow> scenarios_spec cfg \<noteq> None \<and>
        reachable_from (started (plat_sidecar pf)) (runtime_step (print_json (plat_web pf))) rt \<and>
        max_sessions rt = config_max_sessions cfg \<and> max_store_entries rt = config_max_store_entries cfg"
proof -
  let ?tj = "print_json (plat_web pf)"
  obtain s0 where s0: "server_started pf cfg = Some s0" and moves: "runtime_moves ?tj (srv_http s0) (srv_http s)"
    using sy.reachable_inv [OF assms] by (auto simp: server_inv_def)
  obtain shared where sh: "load_scenarios (plat_fs pf) (plat_sidecar pf) cfg = Inr shared" "run_scenarios (srv_http s0) = shared"
    using server_started_http [OF s0] by blast
  have rel: "rel_option (runtime_step ?tj)\<^sup>*\<^sup>* shared (run_scenarios (srv_http s))"
    using moves sh(2) by (simp add: runtime_moves_def scen_steps_def)
  show ?thesis
  proof (cases "run_scenarios (srv_http s)")
    case None
    with rel load_scenarios_present [OF sh(1)] show ?thesis by (cases shared) simp_all
  next
    case (Some rt)
    with rel obtain rt0 where rt0: "shared = Some rt0" "(runtime_step ?tj)\<^sup>*\<^sup>* rt0 rt" by (cases shared) auto
    have "started (plat_sidecar pf) rt0" "max_sessions rt0 = config_max_sessions cfg"
      "max_store_entries rt0 = config_max_store_entries cfg"
      using load_scenarios_started [of "plat_fs pf" "plat_sidecar pf" cfg rt0] sh(1) rt0(1) by simp_all
    then show ?thesis
      using Some rt0 load_scenarios_present [OF sh(1)] runtime_steps_config [OF rt0(2)]
        reachable_steps [OF reachable_from.start rt0(2), of "started (plat_sidecar pf)"]
      by simp
  qed
qed

text \<open>The configured fields of the HTTP runtime never change.\<close>

lemma runtime_moves_fields:
  assumes "runtime_moves tj rt rt'"
  shows "run_mode rt' = run_mode rt" "run_control_token rt' = run_control_token rt" "run_upstream rt' = run_upstream rt"
    "run_openapi rt' = run_openapi rt" "run_asyncapi rt' = run_asyncapi rt" "run_max_body_size rt' = run_max_body_size rt"
proof -
  have "rt'\<lparr>run_scenarios := None, ws_sessions := 0\<rparr> = rt\<lparr>run_scenarios := None, ws_sessions := 0\<rparr>"
    using assms by (simp add: runtime_moves_def)
  note eqs = this [THEN arg_cong]
  from eqs [of run_mode] eqs [of run_control_token] eqs [of run_upstream] eqs [of run_openapi]
    eqs [of run_asyncapi] eqs [of run_max_body_size]
  show "run_mode rt' = run_mode rt" "run_control_token rt' = run_control_token rt" "run_upstream rt' = run_upstream rt"
    "run_openapi rt' = run_openapi rt" "run_asyncapi rt' = run_asyncapi rt" "run_max_body_size rt' = run_max_body_size rt"
    by simp_all
qed

lemma from_config_fields:
  "from_config_with w fs fv cfg shared = Inr rt \<Longrightarrow>
     run_mode rt = mode cfg \<and> run_control_token rt = control_token cfg \<and> run_max_body_size rt = max_body_size cfg"
  by (auto simp: from_config_with_def Let_def split: sum.splits option.splits if_splits)

text \<open>
  C7. Whatever arrives in whatever order over HTTP, gRPC, WebSocket connections, the control
  endpoints and the SDK, a started server stays sound: it serves in the configured mode, with the
  configured token and body limit; it has scenarios exactly if a sidecar was configured, and then at
  most \<open>max_sessions\<close> sessions are live over all protocols, each in a state its scenario declares and
  with at most \<open>max_store_entries\<close> resources.
\<close>

theorem server_invariant:
  assumes "reachable_from (server_init en pf cfg) (server_moves en) s"
  shows "run_mode (srv_http s) = mode cfg \<and> run_control_token (srv_http s) = control_token cfg \<and>
    run_max_body_size (srv_http s) = max_body_size cfg \<and>
    (case run_scenarios (srv_http s) of
       None \<Rightarrow> scenarios_spec cfg = None
     | Some rt \<Rightarrow> scenarios_spec cfg \<noteq> None \<and> session_count rt \<le> unat (config_max_sessions cfg) \<and>
         (\<forall>sc session i. map_of (live rt) (sc, session) = Some i \<longrightarrow>
            (\<exists>e. find_scenario (rt_sidecar rt) sc = Some e \<and> inst_scenario i = sc \<and>
               inst_state i \<in> fst ` set (states (machine_of e)) \<and>
               length (store_entries (inst_store i)) \<le> unat (config_max_store_entries cfg))))"
proof -
  obtain s0 where s0: "server_started pf cfg = Some s0"
    and moves: "runtime_moves (print_json (plat_web pf)) (srv_http s0) (srv_http s)"
    using sy.reachable_inv [OF assms] by (auto simp: server_inv_def)
  from server_started_http [OF s0] from_config_fields runtime_moves_fields [OF moves]
  have "run_mode (srv_http s) = mode cfg \<and> run_control_token (srv_http s) = control_token cfg \<and>
    run_max_body_size (srv_http s) = max_body_size cfg" by metis
  moreover have "case run_scenarios (srv_http s) of
       None \<Rightarrow> scenarios_spec cfg = None
     | Some rt \<Rightarrow> scenarios_spec cfg \<noteq> None \<and> session_count rt \<le> unat (config_max_sessions cfg) \<and>
         (\<forall>sc session i. map_of (live rt) (sc, session) = Some i \<longrightarrow>
            (\<exists>e. find_scenario (rt_sidecar rt) sc = Some e \<and> inst_scenario i = sc \<and>
               inst_state i \<in> fst ` set (states (machine_of e)) \<and>
               length (store_entries (inst_store i)) \<le> unat (config_max_store_entries cfg)))"
  proof (cases "run_scenarios (srv_http s)")
    case None
    then show ?thesis using server_shared [OF assms] by simp
  next
    case (Some rt)
    then have "reachable_from (started (plat_sidecar pf)) (runtime_step (print_json (plat_web pf))) rt"
      and rt: "scenarios_spec cfg \<noteq> None" "max_sessions rt = config_max_sessions cfg" "max_store_entries rt = config_max_store_entries cfg"
      using server_shared [OF assms] by simp_all
    from scenario_runtime_invariant [OF this(1)] show ?thesis by (simp add: Some flip: rt(2,3)) (use rt(1) in simp)
  qed
  ultimately show ?thesis by simp
qed

section \<open>Sessions of different clients\<close>

text \<open>The sessions an event may touch, as the protocols name them.\<close>

definition event_sessions :: "env \<Rightarrow> event \<Rightarrow> server \<Rightarrow> string set" where
  "event_sessions en ev s =
     (case ev of
        HttpRequest rq \<Rightarrow> {opt_default DEFAULT_SESSION (prefer_session (from_headers (rq_headers rq)))}
      | ControlState hm \<Rightarrow> {}
      | ControlReset hm \<Rightarrow> if authorize_control (env_web en) (srv_http s) hm = None then UNIV else {}
      | GrpcCall rq \<Rightarrow> {opt_default DEFAULT_SESSION (directive_session (grpc_directives_of (call_headers rq)))}
      | SocketOpen n p query now \<Rightarrow> {}
      | SocketItem n e \<Rightarrow> (case map_of (srv_sockets s) n of None \<Rightarrow> {} | Some so \<Rightarrow> {ws_session (sock_connection so)})
      | SocketClosed n \<Rightarrow> (case map_of (srv_sockets s) n of None \<Rightarrow> {} | Some so \<Rightarrow> {ws_session (sock_connection so)})
      | SdkReset \<Rightarrow> UNIV)"

definition keeps :: "string \<Rightarrow> scenario_runtime option \<Rightarrow> scenario_runtime option \<Rightarrow> bool" where
  "keeps x a b \<longleftrightarrow> rel_option (\<lambda>rt rt'. \<forall>sc. map_of (live rt') (sc, x) = map_of (live rt) (sc, x)) a b"

lemma keeps_refl [simp]: "keeps x a a"
  by (cases a) (simp_all add: keeps_def)

lemma keeps_trans: "keeps x a b \<Longrightarrow> keeps x b c \<Longrightarrow> keeps x a c"
  by (cases a; cases b; cases c) (auto simp: keeps_def)

lemma map_of_map_entry_other: "k \<noteq> k' \<Longrightarrow> map_of (AList.map_entry k f m) k' = map_of m k'"
  by (induction m) auto

lemma governed_session: "governed rt q = Some (e, session, operation) \<Longrightarrow> session = opt_default DEFAULT_SESSION (want_session q)"
  by (auto simp: governed_def bind_eq_Some_conv opt_default_def split: if_splits option.splits)

lemma resolve_keeps:
  assumes "x \<noteq> opt_default DEFAULT_SESSION (want_session q)"
  shows "keeps x (Some rt) (Some (snd (resolve_with tj rt q)))"
proof (cases "governed rt q")
  case (Some g)
  obtain e session operation where g: "governed rt q = Some (e, session, operation)" using Some by (cases g) auto
  with governed_session [OF g] assms have "session \<noteq> x" by simp
  then show ?thesis
    by (auto simp: resolve_governed [OF g] keeps_def Let_def split_def map_of_map_entry_other split: option.split)
qed (simp add: resolve_ungoverned)

lemma release_keeps: "x \<noteq> session \<Longrightarrow> keeps x (Some rt) (Some (snd (release rt sc session)))"
  by (simp add: keeps_def release_def AList.delete_conv')

lemma mock_request_keeps:
  assumes "x \<noteq> opt_default DEFAULT_SESSION (prefer_session (from_headers (rq_headers rq)))"
  shows "keeps x (run_scenarios rt) (run_scenarios (fst (snd (mock_request w rt rq acc))))"
  using assms resolve_keeps [of x]
  by (auto simp: mock_request_def scenario_resolve_def Let_def split_def split: sum.split runtime_error.split option.split)

lemma fallback_keeps:
  assumes "x \<noteq> opt_default DEFAULT_SESSION (prefer_session (from_headers (rq_headers rq)))"
  shows "keeps x (run_scenarios rt) (run_scenarios (fst (snd (http_fallback_handler w send rt rq))))"
  by (auto simp: http_fallback_handler_def mock_request_keeps [OF assms] split: sum.split mock_mode.split option.split)

lemma reset_denied: "authorize_control w rt hm \<noteq> None \<Longrightarrow> snd (control_reset_handler w rt hm) = rt"
  by (auto simp: control_reset_handler_def)

lemma grpc_call_keeps:
  assumes "x \<noteq> opt_default DEFAULT_SESSION (directive_session (grpc_directives_of (call_headers rq)))"
  shows "keeps x (grpc_scenarios g) (grpc_scenarios (snd (grpc_call w L g rq)))"
  using assms resolve_keeps [of x]
  by (auto simp: grpc_call_def resolve_grpc_def Let_def split_def split: sum.split gen_failure.split option.split)

lemma apply_scenario_keeps:
  "x \<noteq> session \<Longrightarrow> keeps x (run_scenarios rt) (run_scenarios (snd (apply_scenario w rt out sn session pinned incoming)))"
  using resolve_keeps [of x]
  by (auto simp: apply_scenario_def resolve_channel_def scenario_resolve_def Let_def split_def opt_default_def
      split: option.split ws_outcome.split)

lemma ws_turn_keeps:
  "x \<noteq> ws_session c \<Longrightarrow> keeps x (run_scenarios rt) (run_scenarios (snd (snd (ws_turn w po c sn rl rt e))))"
  by (auto simp: ws_turn_def Let_def split_def apply_scenario_keeps split: ws_item.split ws_outcome.split)

lemma ws_finish_keeps: "x \<noteq> ws_session c \<Longrightarrow> keeps x (run_scenarios rt) (run_scenarios (ws_finish c sn rt))"
  by (auto simp: ws_finish_def release_keeps split: option.split)

lemma serve_item_keeps:
  assumes "x \<noteq> ws_session (sock_connection so)"
  shows "keeps x (run_scenarios (srv_http s)) (run_scenarios (srv_http (snd (serve_item en n so e s))))"
proof -
  obtain texts fate rt where turn: "ws_turn (env_web en) (env_print en) (sock_connection so) (sock_scenario so)
      (sock_limiter so) (srv_http s) e = (texts, fate, rt)" by (metis prod_cases3)
  then have "keeps x (run_scenarios (srv_http s)) (run_scenarios rt)"
    using ws_turn_keeps [OF assms, of "srv_http s" "env_web en" "env_print en"] by (metis snd_conv)
  then show ?thesis using ws_finish_keeps [OF assms]
    by (cases fate) (auto simp: serve_item_def turn intro: keeps_trans)
qed

lemma serve_open_keeps: "keeps x (run_scenarios (srv_http s)) (run_scenarios (srv_http (snd (serve_open en n p query now s))))"
  by (auto simp: serve_open_def ws_upgrade_handler_def fresh_ws_session_def Let_def split: option.split)

lemma serve_grpc_keeps:
  assumes "x \<noteq> opt_default DEFAULT_SESSION (directive_session (grpc_directives_of (call_headers rq)))"
  shows "keeps x (run_scenarios (srv_http s)) (run_scenarios (srv_http (snd (serve_grpc en g rq s))))"
  using grpc_call_keeps [OF assms, of "g\<lparr>grpc_scenarios := run_scenarios (srv_http s)\<rparr>"]
  by (simp add: serve_grpc_def split_def Let_def)

lemma serve_keeps:
  assumes "x \<notin> event_sessions en ev s"
  shows "keeps x (run_scenarios (srv_http s)) (run_scenarios (srv_http (snd (serve en ev s))))"
proof (cases ev)
  case (ControlReset hm)
  with assms reset_denied [of "env_web en" "srv_http s" hm] show ?thesis
    by (auto simp: serve_def event_sessions_def Let_def split_def split: if_splits)
qed (use assms in \<open>auto simp: serve_def event_sessions_def Let_def split_def fallback_keeps serve_grpc_keeps serve_open_keeps
    serve_item_keeps ws_finish_keeps split: option.splits\<close>)

text \<open>
  C8. An event touches only the sessions its own protocol names: an HTTP request that of its
  \<open>Prefer\<close> header, a gRPC call that of its metadata, a WebSocket message or disconnect that of its
  connection, and only an authorised reset all of them. Every instance of another session, of any
  scenario, keeps its state and its store, and neither appears nor disappears.
\<close>

theorem events_keep_other_sessions:
  assumes "run_scenarios (srv_http s) = Some rt" and "x \<notin> event_sessions en ev s"
  shows "\<exists>rt'. run_scenarios (srv_http (snd (serve en ev s))) = Some rt' \<and>
    map_of (live rt') (sc, x) = map_of (live rt) (sc, x)"
  using serve_keeps [OF assms(2)] assms(1)
  by (cases "run_scenarios (srv_http (snd (serve en ev s)))") (auto simp: keeps_def)

section \<open>A running server\<close>

text \<open>A server with a protobuf file and a sidecar.\<close>

definition widget_platform :: platform where
  "widget_platform = demo_platform\<lparr>plat_sidecar := (\<lambda>_. Inr widget_sidecar)\<rparr>"

definition widget_config :: server_config where
  "widget_config = demo_config\<lparr>scenarios_spec := Some ''/s/a.json'', config_max_sessions := 2\<rparr>"

definition widget_env :: env where
  "widget_env = \<lparr>env_web = grpc_web, env_lib = grpc_lib, env_client = demo_send, env_print = (\<lambda>_. Inr [])\<rparr>"

definition widget_server :: server where
  "widget_server = the (server_started widget_platform widget_config)"

lemma widget_server_started: "server_started widget_platform widget_config = Some widget_server"
proof -
  have "server_started widget_platform widget_config \<noteq> None" by code_simp
  then show ?thesis by (auto simp: widget_server_def)
qed

lemma widget_server_reachable:
  "reachable_from (server_init widget_env widget_platform widget_config) (server_moves widget_env) widget_server"
proof -
  have "env_web widget_env = plat_web widget_platform"
    by (simp add: widget_env_def widget_platform_def demo_platform_def)
  then show ?thesis
    by (intro reachable_from.start) (simp add: server_init_def widget_server_started)
qed

theorem server_invariant_witness:
  "run_mode (srv_http widget_server) = Mock \<and>
   (\<exists>rt. run_scenarios (srv_http widget_server) = Some rt \<and> session_count rt \<le> 2)"
  using server_invariant [OF widget_server_reachable]
  by (auto simp: widget_config_def demo_config_def default_config_def split: option.splits)

theorem events_keep_other_sessions_witness:
  "\<exists>rt'. run_scenarios (srv_http (snd (serve widget_env (GrpcCall echo_call)
      (widget_server\<lparr>srv_http := (srv_http widget_server)\<lparr>run_scenarios := Some widget_closed\<rparr>\<rparr>)))) = Some rt' \<and>
    map_of (live rt') (''flow'', ''x'') \<noteq> None"
proof -
  let ?s = "widget_server\<lparr>srv_http := (srv_http widget_server)\<lparr>run_scenarios := Some widget_closed\<rparr>\<rparr>"
  have "event_sessions widget_env (GrpcCall echo_call) ?s = {DEFAULT_SESSION}"
    by (simp add: event_sessions_def echo_call_def grpc_directives_of_def opt_default_def Let_def split: option.split)
  then have "''x'' \<notin> event_sessions widget_env (GrpcCall echo_call) ?s" by (simp add: DEFAULT_SESSION_def)
  from events_keep_other_sessions [OF _ this, of widget_closed "''flow''"]
  have "\<exists>rt'. run_scenarios (srv_http (snd (serve widget_env (GrpcCall echo_call) ?s))) = Some rt' \<and>
      map_of (live rt') (''flow'', ''x'') = map_of (live widget_closed) (''flow'', ''x'')" by simp
  moreover have "map_of (live widget_closed) (''flow'', ''x'') \<noteq> None" by code_simp
  ultimately show ?thesis by auto
qed

end
