(* ===== verification/Address_Text.thy ===== *)
theory Address_Text
  imports Config_Props
begin

text \<open>
  Socket addresses as text, as \<open>std::net\<close> prints and reads them: the SDK passes addresses to the
  command line as text and builds URLs from them.
\<close>

section \<open>Printing\<close>

definition hex_char :: "nat \<Rightarrow> char" where
  "hex_char d = (if d < 10 then digit_char d else char_of (87 + d))"

fun nat_to_hex :: "nat \<Rightarrow> string" where
  "nat_to_hex n = (if n < 16 then [hex_char n] else nat_to_hex (n div 16) @ [hex_char (n mod 16)])"

declare nat_to_hex.simps [simp del]

text \<open>The longest run of zero groups, the first of equal ones, as its start and length.\<close>

fun longest_zeroes :: "nat \<Rightarrow> nat \<times> nat \<Rightarrow> nat \<times> nat \<Rightarrow> u16 list \<Rightarrow> nat \<times> nat" where
  "longest_zeroes i longest current [] = longest"
| "longest_zeroes i longest current (g # gs) =
     (if g = 0 then
        let current = (if snd current = 0 then i else fst current, snd current + 1)
        in longest_zeroes (Suc i) (if snd longest < snd current then current else longest) current gs
      else longest_zeroes (Suc i) longest (0, 0) gs)"

definition print_groups :: "u16 list \<Rightarrow> string" where
  "print_groups gs = join '':'' (map (\<lambda>g. nat_to_hex (unat g)) gs)"

definition group_octets :: "u16 \<Rightarrow> u8 list" where
  "group_octets g = [ucast (drop_bit 8 g), ucast g]"

definition print_ipv6 :: "u16 list \<Rightarrow> string" where
  "print_ipv6 gs =
     (if take 6 gs = [0, 0, 0, 0, 0, 65535]
      then ''::ffff:'' @ print_ipv4 (concat (map group_octets (drop 6 gs)))
      else let (i, n) = longest_zeroes 0 (0, 0) (0, 0) gs in
        if 1 < n then print_groups (take i gs) @ ''::'' @ print_groups (drop (i + n) gs)
        else print_groups gs)"

fun print_socket_addr :: "socket_addr \<Rightarrow> string" where
  "print_socket_addr (SocketAddr (V4 octets) p) = print_ipv4 octets @ '':'' @ nat_to_string (unat p)"
| "print_socket_addr (SocketAddr (V6 gs) p) = ''['' @ print_ipv6 gs @ '']:'' @ nat_to_string (unat p)"

section \<open>Reading\<close>

definition read_port :: "u16 reader" where
  "read_port s =
     Option.bind (strip_prefix '':'' s) (\<lambda>s. map_option (map_prod of_nat id) (read_number 10 (length s) True u16_max s))"

definition read_socket_addr_v4 :: "socket_addr reader" where
  "read_socket_addr_v4 s =
     Option.bind (read_ipv4_addr s) (\<lambda>(os, s). map_option (map_prod (SocketAddr (V4 os)) id) (read_port s))"

text \<open>The scope identifier of an address is read and, as nothing here uses it, not kept.\<close>

definition read_scope_id :: "string \<Rightarrow> string" where
  "read_scope_id s =
     (case Option.bind (strip_prefix ''%'' s) (\<lambda>s. read_number 10 (length s) True (2 ^ 32 - 1) s) of
        Some (_, s) \<Rightarrow> s
      | None \<Rightarrow> s)"

definition read_socket_addr_v6 :: "socket_addr reader" where
  "read_socket_addr_v6 s =
     Option.bind (strip_prefix ''['' s) (\<lambda>s.
     Option.bind (read_ipv6_addr s) (\<lambda>(gs, s).
     Option.bind (strip_prefix '']'' (read_scope_id s)) (\<lambda>s.
     map_option (map_prod (SocketAddr (V6 gs)) id) (read_port s))))"

definition parse_socket_addr :: "string \<Rightarrow> socket_addr option" where
  "parse_socket_addr s =
     (case (case read_socket_addr_v4 s of Some r \<Rightarrow> Some r | None \<Rightarrow> read_socket_addr_v6 s) of
        Some (a, []) \<Rightarrow> Some a
      | _ \<Rightarrow> None)"

fun well_formed_addr :: "socket_addr \<Rightarrow> bool" where
  "well_formed_addr (SocketAddr (V4 os) _) = (length os = 4)"
| "well_formed_addr (SocketAddr (V6 gs) _) = (length gs = 8)"

section \<open>Printed addresses read back\<close>

text \<open>Hexadecimal groups.\<close>

lemma hex_char_digit: "d < 16 \<Longrightarrow> to_digit 16 (hex_char d) = Some d"
proof -
  have "\<forall>d\<in>set [0..<16]. to_digit 16 (hex_char d) = Some d" by code_simp
  then show "d < 16 \<Longrightarrow> to_digit 16 (hex_char d) = Some d" by simp
qed

lemma nat_to_hex_not_Nil [simp]: "nat_to_hex n \<noteq> []"
  by (subst nat_to_hex.simps) simp

lemma nat_to_hex_digits: "list_all (\<lambda>c. to_digit 16 c \<noteq> None) (nat_to_hex n)"
proof (induction n rule: nat_to_hex.induct)
  case (1 n)
  then show ?case by (subst nat_to_hex.simps) (auto simp: hex_char_digit)
qed

lemma nat_to_hex_value: "foldl (\<lambda>acc c. acc * 16 + the (to_digit 16 c)) 0 (nat_to_hex n) = n"
proof (induction n rule: nat_to_hex.induct)
  case (1 n)
  then show ?case by (subst nat_to_hex.simps) (auto simp: hex_char_digit)
qed

lemma nat_to_hex_length: "n < 16 ^ Suc k \<Longrightarrow> length (nat_to_hex n) \<le> Suc k"
proof (induction k arbitrary: n)
  case (Suc k)
  from Suc.IH [of "n div 16"] Suc.prems show ?case
    by (subst nat_to_hex.simps) (auto simp: div_less_iff_less_mult mult.commute)
qed (simp add: nat_to_hex.simps)

lemma read_number_hex:
  fixes g :: u16
  assumes "rest = [] \<or> to_digit 16 (hd rest) = None"
  shows "read_number 16 4 True 65535 (nat_to_hex (unat g) @ rest) = Some (unat g, rest)"
proof -
  have "takeWhile (\<lambda>c. to_digit 16 c \<noteq> None) (nat_to_hex (unat g) @ rest) = nat_to_hex (unat g)"
    using assms by (intro takeWhile_stop nat_to_hex_digits) auto
  moreover have "unat g < 65536" using unsigned_less [of g, where ?'a = nat] by simp
  moreover from this have "length (nat_to_hex (unat g)) \<le> 4" using nat_to_hex_length [of "unat g" 3] by simp
  ultimately show ?thesis by (auto simp: read_number_def nat_to_hex_value Let_def)
qed

text \<open>A group is not the start of an embedded IPv4 address: no full stop follows.\<close>

lemma to_digit_le: "to_digit 16 c = None \<Longrightarrow> to_digit 10 c = None"
  by (auto simp: to_digit_def hex_digit_def split: if_splits)

lemma read_ipv4_first: "read_ipv4_addr s = Some r \<Longrightarrow> \<exists>rest. dropWhile (\<lambda>c. to_digit 10 c \<noteq> None) s = CHR ''.'' # rest"
  by (auto simp: read_ipv4_addr_def numeral_eq_Suc read_separator_def read_number_def strip_prefix_def
      Let_def dropWhile_eq_drop prefix_def split: option.splits if_splits bind_splits)

lemma dropWhile_hd: "dropWhile P (xs @ ys) = c # zs \<Longrightarrow> c \<in> set xs \<or> ys \<noteq> [] \<and> (c = hd ys \<or> P (hd ys))"
  by (induction xs) (cases ys, auto split: if_splits)+

lemma dot_not_hex: "to_digit 16 CHR ''.'' = None" "to_digit 16 CHR '':'' = None"
  by code_simp+

text \<open>What may follow a group: no digit, no full stop, and no single colon.\<close>

definition stops :: "string \<Rightarrow> bool" where
  "stops rest \<longleftrightarrow> rest = [] \<or> to_digit 16 (hd rest) = None \<and> hd rest \<noteq> CHR ''.''"

lemma read_ipv4_hex:
  assumes "stops rest"
  shows "read_ipv4_addr (nat_to_hex n @ rest) = None"
proof (rule ccontr)
  assume "read_ipv4_addr (nat_to_hex n @ rest) \<noteq> None"
  then obtain zs where "dropWhile (\<lambda>c. to_digit 10 c \<noteq> None) (nat_to_hex n @ rest) = CHR ''.'' # zs"
    using read_ipv4_first by blast
  from dropWhile_hd [OF this] show False
    using nat_to_hex_digits [of n] assms to_digit_le dot_not_hex
    by (auto simp: list_all_iff stops_def)
qed

lemma read_ipv4_none: "stops rest \<Longrightarrow> read_ipv4_addr rest = None"
proof (rule ccontr)
  assume stop: "stops rest" and "read_ipv4_addr rest \<noteq> None"
  then obtain zs where "dropWhile (\<lambda>c. to_digit 10 c \<noteq> None) rest = CHR ''.'' # zs"
    using read_ipv4_first by blast
  with stop show False by (cases rest) (auto simp: stops_def to_digit_le split: if_splits)
qed

lemma read_number_none: "stops rest \<Longrightarrow> read_number 16 k z hi rest = None"
  by (cases rest) (auto simp: read_number_def stops_def Let_def)

abbreviation coloned :: "u16 list \<Rightarrow> string" where
  "coloned gs \<equiv> concat (map (\<lambda>g. CHR '':'' # nat_to_hex (unat g)) gs)"

definition ends :: "string \<Rightarrow> bool" where
  "ends rest \<longleftrightarrow> stops rest \<and> (case strip_prefix '':'' rest of None \<Rightarrow> True | Some s \<Rightarrow> stops s)"

lemma stops_coloned: "ends rest \<Longrightarrow> stops (coloned gs @ rest)"
  by (cases gs) (auto simp: stops_def ends_def dot_not_hex)

lemma read_separator_none:
  assumes "ends rest" and "\<And>s. stops s \<Longrightarrow> f s = None"
  shows "read_separator CHR '':'' i f rest = None"
  using assms by (auto simp: read_separator_def ends_def bind_eq_None_conv split: option.splits)

lemma read_groups_end:
  assumes "ends rest"
  shows "read_groups i n rest = ([], False, rest)"
proof (cases n)
  case (Suc k)
  then show ?thesis
    by (simp add: read_separator_none [OF assms read_ipv4_none] read_separator_none [OF assms read_number_none])
qed simp

lemma read_groups_coloned:
  assumes "ends rest"
  shows "length gs \<le> n \<Longrightarrow> read_groups (Suc i) n (coloned gs @ rest) = (gs, False, rest)"
proof (induction gs arbitrary: i n)
  case (Cons g gs)
  then obtain k where n: "n = Suc k" "length gs \<le> k" by (cases n) auto
  have stop: "stops (coloned gs @ rest)" by (rule stops_coloned [OF assms])
  then have num: "read_number 16 4 True 65535 (nat_to_hex (unat g) @ coloned gs @ rest) = Some (unat g, coloned gs @ rest)"
    by (intro read_number_hex) (auto simp: stops_def)
  show ?case
    using Cons.IH [OF n(2)] n(2) num read_ipv4_hex [OF stop, of "unat g"]
    by (auto simp: n(1) read_separator_def strip_prefix_def)
qed (simp add: read_groups_end [OF assms])

lemma print_groups_Cons: "print_groups (g # gs) = nat_to_hex (unat g) @ coloned gs"
  by (induction gs arbitrary: g) (simp_all add: print_groups_def)

lemma read_groups_print:
  assumes "ends rest" and "length gs \<le> n"
  shows "read_groups 0 n (print_groups gs @ rest) = (gs, False, rest)"
proof (cases gs)
  case Nil
  then show ?thesis using read_groups_end [OF assms(1)] by (simp add: print_groups_def)
next
  case (Cons g gs')
  then obtain k where n: "n = Suc k" "length gs' \<le> k" using assms(2) by (cases n) auto
  have stop: "stops (coloned gs' @ rest)" by (rule stops_coloned [OF assms(1)])
  then have num: "read_number 16 4 True 65535 (nat_to_hex (unat g) @ coloned gs' @ rest) = Some (unat g, coloned gs' @ rest)"
    by (intro read_number_hex) (auto simp: stops_def)
  show ?thesis
    using read_groups_coloned [OF assms(1) n(2), of 0] n(2) num read_ipv4_hex [OF stop, of "unat g"]
    by (auto simp: n(1) Cons print_groups_Cons read_separator_def)
qed

text \<open>The compressed run is a run of zeroes.\<close>

definition zero_run :: "u16 list \<Rightarrow> nat \<times> nat \<Rightarrow> bool" where
  "zero_run gs r \<longleftrightarrow> (\<exists>xs ys. gs = xs @ replicate (snd r) 0 @ ys \<and> (snd r \<noteq> 0 \<longrightarrow> length xs = fst r))"

lemma longest_zeroes_run:
  assumes "zero_run (before @ gs) longest"
    and "\<exists>xs. before = xs @ replicate (snd current) 0 \<and> (snd current \<noteq> 0 \<longrightarrow> length xs = fst current)"
  shows "zero_run (before @ gs) (longest_zeroes (length before) longest current gs)"
  using assms
proof (induction gs arbitrary: before longest current)
  case (Cons g gs)
  obtain xs where xs: "before = xs @ replicate (snd current) 0" "snd current \<noteq> 0 \<longrightarrow> length xs = fst current"
    using Cons.prems(2) by blast
  show ?case
  proof (cases "g = 0")
    case True
    let ?cur = "(if snd current = 0 then length before else fst current, snd current + 1)"
    have b: "before @ [g] = xs @ replicate (snd ?cur) 0 \<and> length xs = fst ?cur"
      using xs True by (auto simp: replicate_append_same)
    then have "zero_run ((before @ [g]) @ gs) ?cur"
      unfolding zero_run_def by (intro exI [of _ xs] exI [of _ gs]) simp
    then show ?thesis
      using Cons.IH [of "before @ [g]" "if snd longest < snd ?cur then ?cur else longest" ?cur] Cons.prems(1) b True
      by (auto simp: Let_def)
  next
    case False
    then show ?thesis using Cons.IH [of "before @ [g]" longest "(0, 0)"] Cons.prems(1) by simp
  qed
qed simp

lemma longest_zeroes_split:
  assumes "longest_zeroes 0 (0, 0) (0, 0) gs = (i, n)" and "n \<noteq> 0"
  shows "gs = take i gs @ replicate n 0 @ drop (i + n) gs" "i + n \<le> length gs"
proof -
  have "zero_run gs (i, n)"
    using longest_zeroes_run [of "[]" gs "(0, 0)" "(0, 0)"] assms(1) by (auto simp: zero_run_def)
  then obtain xs ys where "gs = xs @ replicate n 0 @ ys" "length xs = i"
    using assms(2) by (auto simp: zero_run_def)
  then show "gs = take i gs @ replicate n 0 @ drop (i + n) gs" "i + n \<le> length gs" by auto
qed

text \<open>An address in brackets.\<close>

lemma ends_bracket: "ends (CHR '']'' # rest)" "ends (CHR '':'' # CHR '':'' # s)" "stops (CHR '']'' # rest)"
proof -
  have "to_digit 16 CHR '']'' = None" by code_simp
  then show "ends (CHR '']'' # rest)" "ends (CHR '':'' # CHR '':'' # s)" "stops (CHR '']'' # rest)"
    by (simp_all add: ends_def stops_def strip_prefix_def dot_not_hex)
qed

lemma read_ipv6_compressed:
  assumes "length gs = 8" and "longest_zeroes 0 (0, 0) (0, 0) gs = (i, n)" and "1 < n"
  shows "read_ipv6_addr (print_groups (take i gs) @ ''::'' @ print_groups (drop (i + n) gs) @ CHR '']'' # rest)
    = Some (gs, CHR '']'' # rest)"
proof -
  note split = longest_zeroes_split [OF assms(2)]
  have i: "i + n \<le> 8" "length (take i gs) = i" using split(2) assms by auto
  have head: "read_groups 0 8 (print_groups (take i gs) @ CHR '':'' # CHR '':'' # s) = (take i gs, False, CHR '':'' # CHR '':'' # s)" for s
    using i by (intro read_groups_print ends_bracket) simp
  have tail: "read_groups 0 (8 - (i + 1)) (print_groups (drop (i + n) gs) @ CHR '']'' # rest) = (drop (i + n) gs, False, CHR '']'' # rest)"
    using i assms by (intro read_groups_print ends_bracket) simp
  have "8 - i - length (drop (i + n) gs) = n" using i assms by simp
  then show ?thesis
    using head tail i assms(3) split(1)
    by (simp add: read_ipv6_addr_def strip_prefix_def)
qed

lemma group_pairs_octets: "group_pairs (concat (map group_octets [a, b])) = [a, b]"
proof -
  have "ucast (ucast (drop_bit 8 x) :: u8) * 256 + ucast (ucast x :: u8) = (x::u16)" for x
  proof -
    have "unat x < 65536" using unsigned_less [of x, where ?'a = nat] by simp
    then have "unat x div 256 mod 256 = unat x div 256" by (simp add: div_less_iff_less_mult)
    then have "(unat x div 256 mod 256 * 256 + unat x mod 256) mod 65536 = unat x"
      using \<open>unat x < 65536\<close> by simp
    then show ?thesis
      by (simp add: word_unat_eq_iff unat_word_ariths unsigned_ucast_eq take_bit_eq_mod unsigned_drop_bit_eq
          drop_bit_eq_div mod_simps)
  qed
  then show ?thesis by (simp add: group_octets_def)
qed

lemma read_ipv6_mapped:
  assumes "length os = 4"
  shows "read_ipv6_addr (''::ffff:'' @ print_ipv4 os @ CHR '']'' # rest)
    = Some ([0, 0, 0, 0, 0, 65535] @ group_pairs os, CHR '']'' # rest)"
proof -
  let ?s = "CHR '':'' # print_ipv4 os @ CHR '']'' # rest"
  have bracket: "to_digit 10 CHR '']'' = None" by code_simp
  have hex: "nat_to_hex 65535 = ''ffff''" by code_simp
  have stop: "stops ?s" by (simp add: stops_def dot_not_hex)
  have ffff: "read_number 16 4 True 65535 (''ffff'' @ ?s) = Some (65535, ?s)" "read_ipv4_addr (''ffff'' @ ?s) = None"
    using read_number_hex [of ?s 65535] read_ipv4_hex [OF stop, of 65535] hex dot_not_hex by simp_all
  have "read_groups (Suc 0) (Suc (Suc k)) ?s = (group_pairs os, True, CHR '']'' # rest)" for k
    using read_print_ipv4 [OF assms, of "CHR '']'' # rest"] bracket
    by (simp add: read_separator_def strip_prefix_def)
  then have tail: "read_groups 0 (Suc (Suc (Suc k))) (''ffff'' @ ?s) = (65535 # group_pairs os, True, CHR '']'' # rest)" for k
    using ffff by (simp add: read_separator_def)
  have head: "read_groups 0 8 (''::ffff'' @ ?s) = ([], False, ''::ffff'' @ ?s)"
    using read_groups_end [OF ends_bracket(2)] by simp
  obtain a b c d where "os = [a, b, c, d]" using assms by (auto simp: numeral_eq_Suc length_Suc_conv)
  then show ?thesis
    using head tail by (simp add: read_ipv6_addr_def strip_prefix_def numeral_eq_Suc)
qed

lemma read_print_ipv6:
  assumes "length gs = 8"
  shows "read_ipv6_addr (print_ipv6 gs @ CHR '']'' # rest) = Some (gs, CHR '']'' # rest)"
proof (cases "take 6 gs = [0, 0, 0, 0, 0, 65535]")
  case True
  obtain a b where ab: "drop 6 gs = [a, b]"
    using assms by (cases "drop 6 gs"; cases "tl (drop 6 gs)") (auto dest: arg_cong [where f = length])
  have "gs = [0, 0, 0, 0, 0, 65535] @ [a, b]" using True ab append_take_drop_id [of 6 gs] by simp
  then show ?thesis
    using read_ipv6_mapped [of "concat (map group_octets [a, b])" rest] True ab group_pairs_octets [of a b]
    by (simp add: print_ipv6_def group_octets_def)
next
  case False
  obtain i n where run: "longest_zeroes 0 (0, 0) (0, 0) gs = (i, n)" by fastforce
  show ?thesis
  proof (cases "1 < n")
    case True
    then show ?thesis using read_ipv6_compressed [OF assms run True, of rest] False run by (simp add: print_ipv6_def)
  next
    case no: False
    have "read_groups 0 8 (print_groups gs @ CHR '']'' # rest) = (gs, False, CHR '']'' # rest)"
      using assms by (intro read_groups_print ends_bracket) simp
    then show ?thesis using False no run assms by (simp add: print_ipv6_def read_ipv6_addr_def)
  qed
qed

text \<open>Ports and whole socket addresses.\<close>

lemma read_number_port: "read_number 10 (length (nat_to_string n)) True u16_max (nat_to_string n) = (if n \<le> u16_max then Some (n, []) else None)"
proof -
  have "list_all (\<lambda>c. to_digit 10 c \<noteq> None) (nat_to_string n)"
    using nat_to_string_digits [of n] by (simp add: list_all_iff to_digit_decimal)
  from takeWhile_stop [OF this, of "[]"]
  have all: "takeWhile (\<lambda>c. to_digit 10 c \<noteq> None) (nat_to_string n) = nat_to_string n" by simp
  show ?thesis by (simp only: read_number_def Let_def all) (auto simp: nat_to_string_value)
qed

lemma read_port_print: "read_port (CHR '':'' # nat_to_string (unat p)) = Some (p, [])"
proof -
  have "unat p < 65536" using unsigned_less [of p, where ?'a = nat] by simp
  then show ?thesis by (simp add: read_port_def strip_prefix_def read_number_port)
qed

lemma parse_print_socket_addr:
  assumes "well_formed_addr a"
  shows "parse_socket_addr (print_socket_addr a) = Some a"
proof (cases a)
  case (SocketAddr ip p)
  show ?thesis
  proof (cases ip)
    case (V4 os)
    have "to_digit 10 CHR '':'' = None" by code_simp
    then have "read_ipv4_addr (print_ipv4 os @ CHR '':'' # nat_to_string (unat p)) = Some (os, CHR '':'' # nat_to_string (unat p))"
      using assms SocketAddr V4 by (intro read_print_ipv4) simp_all
    then show ?thesis using SocketAddr V4
      by (simp add: parse_socket_addr_def read_socket_addr_v4_def read_port_print)
  next
    case (V6 gs)
    have bracket: "stops (CHR ''['' # s)" for s
    proof -
      have "to_digit 16 CHR ''['' = None" by code_simp
      then show ?thesis by (simp add: stops_def)
    qed
    have "read_socket_addr_v4 (print_socket_addr a) = None"
      using SocketAddr V6 read_ipv4_none [OF bracket] by (simp add: read_socket_addr_v4_def)
    moreover have "read_socket_addr_v6 (print_socket_addr a) = Some (a, [])"
      using assms SocketAddr V6 read_print_ipv6 [of gs "CHR '':'' # nat_to_string (unat p)"]
      by (simp add: read_socket_addr_v6_def strip_prefix_def read_scope_id_def read_port_print)
    ultimately show ?thesis by (simp add: parse_socket_addr_def)
  qed
qed

end
