(* ===== verification/Sdk.thy ===== *)
theory Sdk
  imports Lifecycle Address_Text
begin

text \<open>
  The SDK of \<open>specmock-sdk/src/server.rs\<close>: the builder, the handle of an embedded server, and the
  process mode with the command line it builds and the wait for the listeners. Child processes,
  the clock and the random hasher are parameters.
\<close>

datatype sdk_error = SdkRuntime runtime_error | SdkIo string

definition sdk_error_display :: "sdk_error \<Rightarrow> string" where
  "sdk_error_display e =
     (case e of
        SdkRuntime r \<Rightarrow> ''runtime start failed: '' @ runtime_error_display r
      | SdkIo m \<Rightarrow> ''io error: '' @ m)"

section \<open>The builder\<close>

text \<open>\<open>MockServerBuilder\<close> is a configuration; every setter replaces one field.\<close>

definition sdk_builder :: server_config where
  "sdk_builder = default_config"

definition build_openapi :: "path \<Rightarrow> server_config \<Rightarrow> server_config" where
  "build_openapi p b = b\<lparr>openapi_spec := Some p\<rparr>"

definition build_asyncapi :: "path \<Rightarrow> server_config \<Rightarrow> server_config" where
  "build_asyncapi p b = b\<lparr>asyncapi_spec := Some p\<rparr>"

definition build_proto :: "path \<Rightarrow> server_config \<Rightarrow> server_config" where
  "build_proto p b = b\<lparr>proto_spec := Some p\<rparr>"

definition build_seed :: "u64 \<Rightarrow> server_config \<Rightarrow> server_config" where
  "build_seed s b = b\<lparr>config_seed := s\<rparr>"

definition build_mode :: "mock_mode \<Rightarrow> server_config \<Rightarrow> server_config" where
  "build_mode m b = b\<lparr>mode := m\<rparr>"

definition build_upstream :: "string \<Rightarrow> server_config \<Rightarrow> server_config" where
  "build_upstream u b = b\<lparr>upstream := Some u\<rparr>"

definition build_http_addr :: "socket_addr \<Rightarrow> server_config \<Rightarrow> server_config" where
  "build_http_addr a b = b\<lparr>http_addr := a\<rparr>"

definition build_grpc_addr :: "socket_addr \<Rightarrow> server_config \<Rightarrow> server_config" where
  "build_grpc_addr a b = b\<lparr>grpc_addr := a\<rparr>"

definition build_ws_path :: "string \<Rightarrow> server_config \<Rightarrow> server_config" where
  "build_ws_path p b = b\<lparr>ws_path := p\<rparr>"

definition build_max_body_size :: "usize \<Rightarrow> server_config \<Rightarrow> server_config" where
  "build_max_body_size n b = b\<lparr>max_body_size := n\<rparr>"

definition build_allow_private_upstream :: "bool \<Rightarrow> server_config \<Rightarrow> server_config" where
  "build_allow_private_upstream x b = b\<lparr>allow_private_upstream := x\<rparr>"

definition build_scenarios :: "path \<Rightarrow> server_config \<Rightarrow> server_config" where
  "build_scenarios p b = b\<lparr>scenarios_spec := Some p\<rparr>"

definition build_max_sessions :: "usize \<Rightarrow> server_config \<Rightarrow> server_config" where
  "build_max_sessions n b = b\<lparr>config_max_sessions := n\<rparr>"

definition build_max_store_entries :: "usize \<Rightarrow> server_config \<Rightarrow> server_config" where
  "build_max_store_entries n b = b\<lparr>config_max_store_entries := n\<rparr>"

text \<open>The minted token is the hash of the clock as sixteen hexadecimal digits.\<close>

definition mint_control_token :: "u64 \<Rightarrow> string" where
  "mint_control_token hash = (let ds = nat_to_hex (unat hash) in replicate (16 - length ds) CHR ''0'' @ ds)"

lemma mint_seven: "mint_control_token 7 = ''0000000000000007''"
  by code_simp

definition build_control_endpoints :: "u64 \<Rightarrow> server_config \<Rightarrow> server_config" where
  "build_control_endpoints hash b = b\<lparr>control_token := Some (mint_control_token hash)\<rparr>"

lemmas build_defs = build_openapi_def build_asyncapi_def build_proto_def build_seed_def build_mode_def
  build_upstream_def build_http_addr_def build_grpc_addr_def build_ws_path_def build_max_body_size_def
  build_allow_private_upstream_def build_scenarios_def build_max_sessions_def build_max_store_entries_def
  build_control_endpoints_def

section \<open>Embedded servers\<close>

record mock_server =
  mock_running :: running_server
  mock_ws_path :: string

definition sdk_start :: "platform \<Rightarrow> server_config \<Rightarrow> sdk_error + mock_server" where
  "sdk_start pf b =
     (case fst (start pf b) of
        Inl e \<Rightarrow> Inl (SdkRuntime e)
      | Inr running \<Rightarrow> Inr \<lparr>mock_running = running, mock_ws_path = ws_path b\<rparr>)"

definition http_base_url :: "mock_server \<Rightarrow> string" where
  "http_base_url s = ''http://'' @ print_socket_addr (running_http_addr (mock_running s))"

definition ws_url :: "mock_server \<Rightarrow> string" where
  "ws_url s = ''ws://'' @ print_socket_addr (running_http_addr (mock_running s)) @ mock_ws_path s"

definition mock_grpc_addr :: "mock_server \<Rightarrow> socket_addr option" where
  "mock_grpc_addr s = running_grpc_addr (mock_running s)"

definition reset_scenarios :: "(value \<Rightarrow> string) \<Rightarrow> mock_server \<Rightarrow> nat option \<times> mock_server" where
  "reset_scenarios to_json s =
     (case running_scenarios (mock_running s) of
        None \<Rightarrow> (None, s)
      | Some rt \<Rightarrow>
          let (n, rt') = reset_all to_json rt
          in (Some n, s\<lparr>mock_running := (mock_running s)\<lparr>running_scenarios := Some rt'\<rparr>\<rparr>))"

definition scenario_state :: "mock_server \<Rightarrow> string \<Rightarrow> (string \<times> string) option" where
  "scenario_state s session =
     Option.bind (running_scenarios (mock_running s)) (\<lambda>rt. session_state rt session)"

definition scenario_state_for :: "mock_server \<Rightarrow> string \<Rightarrow> string \<Rightarrow> (string \<times> string) option" where
  "scenario_state_for s sc session =
     Option.bind (running_scenarios (mock_running s)) (\<lambda>rt. session_state_for rt sc session)"

definition mock_control_token :: "mock_server \<Rightarrow> string option" where
  "mock_control_token s = running_control_token (mock_running s)"

section \<open>Process mode\<close>

text \<open>An unset port is replaced by one the system hands out for a listener that is closed at once.\<close>

definition resolve_process_bind_addr ::
  "(socket_addr \<Rightarrow> string + socket_addr) \<Rightarrow> socket_addr \<Rightarrow> sdk_error + socket_addr" where
  "resolve_process_bind_addr bind addr =
     (if sock_port addr \<noteq> 0 then Inr addr
      else map_sum SdkIo id (bind (SocketAddr (sock_ip addr) 0)))"

definition with_arg :: "string \<Rightarrow> string option \<Rightarrow> string list" where
  "with_arg name v = (case v of Some v \<Rightarrow> [name, v] | None \<Rightarrow> [])"

definition mode_text :: "mock_mode \<Rightarrow> string" where
  "mode_text m = (case m of Mock \<Rightarrow> ''mock'' | Proxy \<Rightarrow> ''proxy'')"

definition process_arguments :: "server_config \<Rightarrow> string list" where
  "process_arguments cfg =
     [''serve'',
      ''--http-addr'', print_socket_addr (http_addr cfg),
      ''--grpc-addr'', print_socket_addr (grpc_addr cfg),
      ''--seed'', nat_to_string (unat (config_seed cfg)),
      ''--ws-path'', ws_path cfg,
      ''--mode'', mode_text (mode cfg)]
     @ with_arg ''--openapi'' (openapi_spec cfg)
     @ with_arg ''--asyncapi'' (asyncapi_spec cfg)
     @ with_arg ''--proto'' (proto_spec cfg)
     @ with_arg ''--upstream'' (upstream cfg)
     @ (if allow_private_upstream cfg then [''--allow-private-upstream''] else [])
     @ [''--max-body-size'', nat_to_string (unat (max_body_size cfg)),
        ''--max-sessions'', nat_to_string (unat (config_max_sessions cfg)),
        ''--max-store-entries'', nat_to_string (unat (config_max_store_entries cfg))]
     @ with_arg ''--scenarios'' (scenarios_spec cfg)
     @ (if control_token cfg = None then [''--no-control-endpoints''] else [])
     @ [''--log-level'', ''info'']"

text \<open>
  One round of the wait: the status of the child with what it wrote to its error stream, the result
  of connecting, and the clock in milliseconds when the connection failed.
\<close>

record probe =
  try_wait :: "string + string option"
  child_stderr :: string
  connect :: "string + unit"
  probe_clock :: nat

definition PROCESS_READY_TIMEOUT :: nat where
  "PROCESS_READY_TIMEOUT = 5000"

definition PROCESS_READY_POLL_INTERVAL :: nat where
  "PROCESS_READY_POLL_INTERVAL = 40"

definition process_start_error :: "string \<Rightarrow> string \<Rightarrow> socket_addr \<Rightarrow> string \<Rightarrow> sdk_error" where
  "process_start_error stderr listener addr code =
     (let detail = (if trim stderr = [] then ''process exited with status '' @ code
                    else ''process exited with status '' @ code @ '': '' @ trim stderr)
      in SdkIo (''spec-mock process failed before '' @ listener @ '' listener became ready on ''
           @ print_socket_addr addr @ '': '' @ detail))"

text \<open>The rounds from number \<open>i\<close> on, at most as many as the fuel; no result if the fuel runs out.\<close>

fun wait_rounds :: "nat \<Rightarrow> (nat \<Rightarrow> probe) \<Rightarrow> nat \<Rightarrow> nat \<Rightarrow> socket_addr \<Rightarrow> string \<Rightarrow> (sdk_error + unit) option" where
  "wait_rounds 0 rounds i deadline addr listener = None"
| "wait_rounds (Suc fuel) rounds i deadline addr listener =
     (case try_wait (rounds i) of
        Inl e \<Rightarrow> Some (Inl (SdkIo e))
      | Inr (Some code) \<Rightarrow> Some (Inl (process_start_error (child_stderr (rounds i)) listener addr code))
      | Inr None \<Rightarrow>
          (case connect (rounds i) of
             Inr _ \<Rightarrow> Some (Inr ())
           | Inl e \<Rightarrow>
               if deadline \<le> probe_clock (rounds i)
               then Some (Inl (SdkIo (''timed out waiting for '' @ listener @ '' listener on ''
                      @ print_socket_addr addr @ '': '' @ e)))
               else wait_rounds fuel rounds (Suc i) deadline addr listener))"

definition wait_for_tcp_ready ::
  "nat \<Rightarrow> nat \<Rightarrow> (nat \<Rightarrow> probe) \<Rightarrow> socket_addr \<Rightarrow> string \<Rightarrow> (sdk_error + unit) option" where
  "wait_for_tcp_ready fuel now rounds addr listener =
     wait_rounds fuel rounds 0 (now + PROCESS_READY_TIMEOUT) addr listener"

record process_mock_server =
  process_http_addr :: socket_addr
  process_grpc_addr :: "socket_addr option"
  process_ws_path :: string

text \<open>
  What the operating system gives to process mode: a bind of an ephemeral port, the spawn of the
  executable, and for each listener the clock at the start of the wait and its rounds.
\<close>

record process_host =
  host_bind :: "socket_addr \<Rightarrow> string + socket_addr"
  host_spawn :: "path \<Rightarrow> string list \<Rightarrow> string + unit"
  host_rounds :: "string \<Rightarrow> nat \<times> (nat \<Rightarrow> probe)"

text \<open>The result, and what became of the child: a failed wait sends it a kill.\<close>

datatype child_fate = NoChild | KillSent | ChildRunning

definition start_process_with_bin ::
  "nat \<Rightarrow> process_host \<Rightarrow> server_config \<Rightarrow> path \<Rightarrow> ((sdk_error + process_mock_server) \<times> child_fate) option" where
  "start_process_with_bin fuel ph b bin =
     (case resolve_process_bind_addr (host_bind ph) (http_addr b) of
        Inl e \<Rightarrow> Some (Inl e, NoChild)
      | Inr http \<Rightarrow>
     (case resolve_process_bind_addr (host_bind ph) (grpc_addr b) of
        Inl e \<Rightarrow> Some (Inl e, NoChild)
      | Inr grpc \<Rightarrow>
          let cfg = b\<lparr>http_addr := http, grpc_addr := grpc\<rparr>;
              wait = (\<lambda>listener addr.
                wait_for_tcp_ready fuel (fst (host_rounds ph listener)) (snd (host_rounds ph listener)) addr listener);
              ready = \<lparr>process_http_addr = http,
                process_grpc_addr = map_option (\<lambda>_. grpc) (proto_spec cfg), process_ws_path = ws_path cfg\<rparr>
          in case host_spawn ph bin (process_arguments cfg) of
               Inl e \<Rightarrow> Some (Inl (SdkIo e), NoChild)
             | Inr _ \<Rightarrow>
                 (case wait ''http'' http of
                    None \<Rightarrow> None
                  | Some (Inl e) \<Rightarrow> Some (Inl e, KillSent)
                  | Some (Inr _) \<Rightarrow>
                      if proto_spec cfg = None then Some (Inr ready, ChildRunning)
                      else (case wait ''grpc'' grpc of
                              None \<Rightarrow> None
                            | Some (Inl e) \<Rightarrow> Some (Inl e, KillSent)
                            | Some (Inr _) \<Rightarrow> Some (Inr ready, ChildRunning)))))"

definition process_http_base_url :: "process_mock_server \<Rightarrow> string" where
  "process_http_base_url s = ''http://'' @ print_socket_addr (process_http_addr s)"

definition process_ws_url :: "process_mock_server \<Rightarrow> string" where
  "process_ws_url s = ''ws://'' @ print_socket_addr (process_http_addr s) @ process_ws_path s"

text \<open>Shutting the child down: what \<open>try_wait\<close>, \<open>kill\<close> and \<open>wait\<close> report, and whether it was killed.\<close>

definition process_shutdown ::
  "string + string option \<Rightarrow> string + unit \<Rightarrow> string + string \<Rightarrow> (sdk_error + unit) \<times> bool" where
  "process_shutdown polled kill reap =
     (case polled of
        Inl e \<Rightarrow> (Inl (SdkIo e), False)
      | Inr (Some _) \<Rightarrow> (Inr (), False)
      | Inr None \<Rightarrow>
          (case kill of
             Inl e \<Rightarrow> (Inl (SdkIo e), False)
           | Inr _ \<Rightarrow> (case reap of Inl e \<Rightarrow> (Inl (SdkIo e), True) | Inr _ \<Rightarrow> (Inr (), True))))"

section \<open>The wait ends\<close>

text \<open>A round whose clock has reached the deadline is the last one.\<close>

lemma wait_rounds_ends:
  assumes "deadline \<le> probe_clock (rounds (i + k))" and "k < fuel"
  shows "\<exists>r. wait_rounds fuel rounds i deadline addr listener = Some r"
  using assms
proof (induction fuel arbitrary: i k)
  case (Suc fuel)
  show ?case
  proof (cases k)
    case 0
    then show ?thesis using Suc.prems by (auto split: sum.splits option.splits)
  next
    case (Suc m)
    then show ?thesis
      using Suc.IH [of "Suc i" m] Suc.prems by (auto split: sum.splits option.splits)
  qed
qed simp

lemma wait_rounds_fuel:
  "wait_rounds fuel rounds i deadline addr listener = Some r \<Longrightarrow> fuel \<le> more_fuel \<Longrightarrow>
     wait_rounds more_fuel rounds i deadline addr listener = Some r"
proof (induction fuel arbitrary: i more_fuel)
  case (Suc fuel)
  then obtain m where "more_fuel = Suc m" "fuel \<le> m" by (cases more_fuel) auto
  with Suc show ?case by (auto split: sum.splits option.splits if_splits)
qed simp

lemma wait_rounds_ready:
  "wait_rounds fuel rounds i deadline addr listener = Some (Inr ()) \<Longrightarrow>
     \<exists>j. i \<le> j \<and> j < i + fuel \<and> try_wait (rounds j) = Inr None \<and> connect (rounds j) = Inr ()"
proof (induction fuel arbitrary: i)
  case (Suc fuel)
  show ?case
  proof (cases "try_wait (rounds i) = Inr None \<and> connect (rounds i) = Inr ()")
    case True
    then show ?thesis by (intro exI [of _ i]) simp
  next
    case False
    with Suc.prems have "wait_rounds fuel rounds (Suc i) deadline addr listener = Some (Inr ())"
      by (auto split: sum.splits option.splits if_splits)
    from Suc.IH [OF this] show ?thesis by (metis Suc_leD add_Suc add_Suc_right)
  qed
qed simp

text \<open>
  C22. The wait for a listener always ends: as every round sleeps at least the poll interval, at most
  126 rounds pass before the timeout, whatever the child and the network do. It reports success only
  if a connection succeeded in a round in which the child was alive, and more fuel never changes
  the result.
\<close>

theorem wait_for_tcp_ready_returns:
  assumes "\<forall>i. now + i * PROCESS_READY_POLL_INTERVAL \<le> probe_clock (rounds i)"
  shows "\<exists>r. (\<forall>fuel\<ge>126. wait_for_tcp_ready fuel now rounds addr listener = Some r) \<and>
    (r = Inr () \<longrightarrow> (\<exists>i<126. try_wait (rounds i) = Inr None \<and> connect (rounds i) = Inr ()))"
proof -
  have "now + PROCESS_READY_TIMEOUT \<le> probe_clock (rounds (0 + 125))"
    using assms [rule_format, of 125] by (simp add: PROCESS_READY_TIMEOUT_def PROCESS_READY_POLL_INTERVAL_def)
  from wait_rounds_ends [where rounds = rounds and i = 0 and k = 125 and fuel = 126, OF this] obtain r
    where r: "wait_rounds 126 rounds 0 (now + PROCESS_READY_TIMEOUT) addr listener = Some r" by auto
  then have "\<forall>fuel\<ge>126. wait_for_tcp_ready fuel now rounds addr listener = Some r"
    by (auto simp: wait_for_tcp_ready_def intro: wait_rounds_fuel)
  moreover have "r = Inr () \<longrightarrow> (\<exists>i<126. try_wait (rounds i) = Inr None \<and> connect (rounds i) = Inr ())"
    using r wait_rounds_ready [of 126 rounds 0] by fastforce
  ultimately show ?thesis by blast
qed

text \<open>A child that never opens its listener.\<close>

definition silent_rounds :: "nat \<Rightarrow> probe" where
  "silent_rounds i = \<lparr>try_wait = Inr None, child_stderr = [], connect = Inl ''refused'', probe_clock = 40 * i\<rparr>"

theorem wait_for_tcp_ready_returns_witness:
  "\<exists>e. wait_for_tcp_ready 126 0 silent_rounds DEFAULT_HTTP_ADDR ''http'' = Some (Inl e)"
proof -
  have "\<forall>i. 0 + i * PROCESS_READY_POLL_INTERVAL \<le> probe_clock (silent_rounds i)"
    by (simp add: silent_rounds_def PROCESS_READY_POLL_INTERVAL_def)
  from wait_for_tcp_ready_returns [OF this, of DEFAULT_HTTP_ADDR "''http''"]
  obtain r where "wait_for_tcp_ready 126 0 silent_rounds DEFAULT_HTTP_ADDR ''http'' = Some r"
    "r = Inr () \<longrightarrow> (\<exists>i<126. connect (silent_rounds i) = Inr ())" by blast
  then show ?thesis by (cases r) (auto simp: silent_rounds_def)
qed

end
