(* ===== verification/Cli.thy ===== *)
theory Cli
  imports Sdk
begin

text \<open>
  The command line of \<open>bin/spec-mock/src/main.rs\<close>: the arguments of \<open>serve\<close> with their defaults and
  value parsers, and the configuration \<open>serve_command\<close> builds from them. The argument parser of
  the \<open>clap\<close> crate is a parameter; \<open>clap_documented\<close> says what is relied on. The last section shows
  that process mode and the command line agree.
\<close>

section \<open>Arguments\<close>

datatype log_level_arg = LogError | LogWarn | LogInfo | LogDebug | LogTrace

datatype mode_arg = ModeMock | ModeProxy

datatype level = ERROR | WARN | INFO | DEBUG | TRACE

fun into_level :: "log_level_arg \<Rightarrow> level" where
  "into_level LogError = ERROR"
| "into_level LogWarn = WARN"
| "into_level LogInfo = INFO"
| "into_level LogDebug = DEBUG"
| "into_level LogTrace = TRACE"

fun into_runtime_mode :: "mode_arg \<Rightarrow> mock_mode" where
  "into_runtime_mode ModeMock = Mock"
| "into_runtime_mode ModeProxy = Proxy"

record serve_args =
  arg_openapi :: "path option"
  arg_asyncapi :: "path option"
  arg_proto :: "path option"
  arg_mode :: mode_arg
  arg_upstream :: "string option"
  arg_seed :: u64
  arg_http_addr :: socket_addr
  arg_grpc_addr :: socket_addr
  arg_ws_path :: string
  arg_max_body_size :: usize
  arg_allow_private_upstream :: bool
  arg_scenarios :: "path option"
  arg_max_sessions :: usize
  arg_max_store_entries :: usize
  arg_log_level :: log_level_arg
  arg_no_control_endpoints :: bool

definition serve_defaults :: serve_args where
  "serve_defaults =
     \<lparr>arg_openapi = None, arg_asyncapi = None, arg_proto = None, arg_mode = ModeMock, arg_upstream = None,
      arg_seed = 42, arg_http_addr = SocketAddr (V4 [127, 0, 0, 1]) 4010,
      arg_grpc_addr = SocketAddr (V4 [127, 0, 0, 1]) 5010, arg_ws_path = ''/ws'',
      arg_max_body_size = 10485760, arg_allow_private_upstream = False, arg_scenarios = None,
      arg_max_sessions = DEFAULT_MAX_SESSIONS, arg_max_store_entries = DEFAULT_MAX_STORE_ENTRIES,
      arg_log_level = LogInfo, arg_no_control_endpoints = False\<rparr>"

section \<open>Serving\<close>

text \<open>\<open>serve_command\<close> up to the start of the server; the hash mints the control token.\<close>

definition serve_config :: "u64 \<Rightarrow> serve_args \<Rightarrow> server_config" where
  "serve_config hash args =
     (let b = build_max_store_entries (arg_max_store_entries args)
                (build_max_sessions (arg_max_sessions args)
                (build_allow_private_upstream (arg_allow_private_upstream args)
                (build_max_body_size (arg_max_body_size args)
                (build_ws_path (arg_ws_path args)
                (build_grpc_addr (arg_grpc_addr args)
                (build_http_addr (arg_http_addr args)
                (build_mode (into_runtime_mode (arg_mode args))
                (build_seed (arg_seed args) sdk_builder))))))));
          b = (case arg_openapi args of Some p \<Rightarrow> build_openapi p b | None \<Rightarrow> b);
          b = (case arg_asyncapi args of Some p \<Rightarrow> build_asyncapi p b | None \<Rightarrow> b);
          b = (case arg_proto args of Some p \<Rightarrow> build_proto p b | None \<Rightarrow> b);
          b = (case arg_upstream args of Some u \<Rightarrow> build_upstream u b | None \<Rightarrow> b);
          b = (case arg_scenarios args of Some p \<Rightarrow> build_scenarios p b | None \<Rightarrow> b)
      in if \<not> arg_no_control_endpoints args then build_control_endpoints hash b else b)"

definition serve_command :: "platform \<Rightarrow> u64 \<Rightarrow> serve_args \<Rightarrow> sdk_error + mock_server" where
  "serve_command pf hash args = sdk_start pf (serve_config hash args)"

section \<open>Options as declared\<close>

text \<open>
  The long options the struct \<open>ServeArgs\<close> declares: a flag, or an option whose value is read into a
  field. Paths must not be empty; numbers, addresses and choices are read by their own parsers.
\<close>

datatype arg_action =
    SetTrue "serve_args \<Rightarrow> serve_args"
  | SetValue "string \<Rightarrow> serve_args \<Rightarrow> serve_args option"

definition read_path :: "string \<Rightarrow> path option" where
  "read_path v = (if v = [] then None else Some v)"

definition read_u64 :: "string \<Rightarrow> u64 option" where
  "read_u64 v = map_option of_nat (parse_unsigned u64_max v)"

definition read_mode :: "string \<Rightarrow> mode_arg option" where
  "read_mode v = map_of [(''mock'', ModeMock), (''proxy'', ModeProxy)] v"

definition read_log_level :: "string \<Rightarrow> log_level_arg option" where
  "read_log_level v = map_of [(''error'', LogError), (''warn'', LogWarn), (''info'', LogInfo),
     (''debug'', LogDebug), (''trace'', LogTrace)] v"

definition serve_options :: "(string \<times> arg_action) list" where
  "serve_options =
     [(''openapi'', SetValue (\<lambda>v a. map_option (\<lambda>x. a\<lparr>arg_openapi := Some x\<rparr>) (read_path v))),
      (''asyncapi'', SetValue (\<lambda>v a. map_option (\<lambda>x. a\<lparr>arg_asyncapi := Some x\<rparr>) (read_path v))),
      (''proto'', SetValue (\<lambda>v a. map_option (\<lambda>x. a\<lparr>arg_proto := Some x\<rparr>) (read_path v))),
      (''mode'', SetValue (\<lambda>v a. map_option (\<lambda>x. a\<lparr>arg_mode := x\<rparr>) (read_mode v))),
      (''upstream'', SetValue (\<lambda>v a. Some (a\<lparr>arg_upstream := Some v\<rparr>))),
      (''seed'', SetValue (\<lambda>v a. map_option (\<lambda>x. a\<lparr>arg_seed := x\<rparr>) (read_u64 v))),
      (''http-addr'', SetValue (\<lambda>v a. map_option (\<lambda>x. a\<lparr>arg_http_addr := x\<rparr>) (parse_socket_addr v))),
      (''grpc-addr'', SetValue (\<lambda>v a. map_option (\<lambda>x. a\<lparr>arg_grpc_addr := x\<rparr>) (parse_socket_addr v))),
      (''ws-path'', SetValue (\<lambda>v a. Some (a\<lparr>arg_ws_path := v\<rparr>))),
      (''max-body-size'', SetValue (\<lambda>v a. map_option (\<lambda>x. a\<lparr>arg_max_body_size := x\<rparr>) (read_u64 v))),
      (''allow-private-upstream'', SetTrue (\<lambda>a. a\<lparr>arg_allow_private_upstream := True\<rparr>)),
      (''scenarios'', SetValue (\<lambda>v a. map_option (\<lambda>x. a\<lparr>arg_scenarios := Some x\<rparr>) (read_path v))),
      (''max-sessions'', SetValue (\<lambda>v a. map_option (\<lambda>x. a\<lparr>arg_max_sessions := x\<rparr>) (read_u64 v))),
      (''max-store-entries'', SetValue (\<lambda>v a. map_option (\<lambda>x. a\<lparr>arg_max_store_entries := x\<rparr>) (read_u64 v))),
      (''log-level'', SetValue (\<lambda>v a. map_option (\<lambda>x. a\<lparr>arg_log_level := x\<rparr>) (read_log_level v))),
      (''no-control-endpoints'', SetTrue (\<lambda>a. a\<lparr>arg_no_control_endpoints := True\<rparr>))]"

text \<open>The condition of \<open>required_if_eq\<close> on the upstream.\<close>

definition required_given :: "serve_args \<Rightarrow> bool" where
  "required_given a \<longleftrightarrow> arg_mode a = ModeProxy \<longrightarrow> arg_upstream a \<noteq> None"

section \<open>The argument parser\<close>

text \<open>Occurrences of options on a command line, and what they set.\<close>

datatype occurrence = Given (occ_name: string) string | Switch (occ_name: string)

fun render :: "occurrence \<Rightarrow> string list" where
  "render (Given n v) = [''--'' @ n, v]"
| "render (Switch n) = [''--'' @ n]"

text \<open>A separate value must not look like an option.\<close>

fun acceptable :: "occurrence \<Rightarrow> bool" where
  "acceptable (Given n v) \<longleftrightarrow> (\<exists>f. map_of serve_options n = Some (SetValue f)) \<and> \<not> starts_with v ''-''"
| "acceptable (Switch n) \<longleftrightarrow> (\<exists>f. map_of serve_options n = Some (SetTrue f))"

fun occur :: "occurrence \<Rightarrow> serve_args \<Rightarrow> serve_args option" where
  "occur (Given n v) a = (case map_of serve_options n of Some (SetValue f) \<Rightarrow> f v a | _ \<Rightarrow> None)"
| "occur (Switch n) a = (case map_of serve_options n of Some (SetTrue f) \<Rightarrow> Some (f a) | _ \<Rightarrow> None)"

fun occur_all :: "occurrence list \<Rightarrow> serve_args \<Rightarrow> serve_args option" where
  "occur_all [] a = Some a"
| "occur_all (x # xs) a = Option.bind (occur x a) (occur_all xs)"

text \<open>
  What is relied on: a command line of acceptable options, each at most once, with values their
  parsers accept and with the required ones, is parsed to the defaults changed by the options.
\<close>

definition clap_documented :: "(string list \<Rightarrow> serve_args option) \<Rightarrow> bool" where
  "clap_documented clap \<longleftrightarrow>
     (\<forall>occs a. list_all acceptable occs \<longrightarrow> distinct (map occ_name occs) \<longrightarrow>
        occur_all occs serve_defaults = Some a \<longrightarrow> required_given a \<longrightarrow>
        clap (''serve'' # concat (map render occs)) = Some a)"

section \<open>Process mode and the command line agree\<close>

definition given :: "string \<Rightarrow> string option \<Rightarrow> occurrence list" where
  "given n v = (case v of Some v \<Rightarrow> [Given n v] | None \<Rightarrow> [])"

definition switch :: "string \<Rightarrow> bool \<Rightarrow> occurrence list" where
  "switch n b = (if b then [Switch n] else [])"

text \<open>The options of a spawned process.\<close>

definition process_occurrences :: "server_config \<Rightarrow> occurrence list" where
  "process_occurrences cfg =
     [Given ''http-addr'' (print_socket_addr (http_addr cfg)), Given ''grpc-addr'' (print_socket_addr (grpc_addr cfg)),
      Given ''seed'' (nat_to_string (unat (config_seed cfg))), Given ''ws-path'' (ws_path cfg),
      Given ''mode'' (mode_text (mode cfg))]
     @ given ''openapi'' (openapi_spec cfg) @ given ''asyncapi'' (asyncapi_spec cfg) @ given ''proto'' (proto_spec cfg)
     @ given ''upstream'' (upstream cfg) @ switch ''allow-private-upstream'' (allow_private_upstream cfg)
     @ [Given ''max-body-size'' (nat_to_string (unat (max_body_size cfg))),
        Given ''max-sessions'' (nat_to_string (unat (config_max_sessions cfg))),
        Given ''max-store-entries'' (nat_to_string (unat (config_max_store_entries cfg)))]
     @ given ''scenarios'' (scenarios_spec cfg) @ switch ''no-control-endpoints'' (control_token cfg = None)
     @ [Given ''log-level'' ''info'']"

lemma render_given [simp]: "concat (map render (given n v)) = with_arg (''--'' @ n) v"
  by (simp add: given_def with_arg_def split: option.split)

lemma render_switch [simp]: "concat (map render (switch n b)) = (if b then [''--'' @ n] else [])"
  by (simp add: switch_def)

lemma process_arguments_render: "process_arguments cfg = ''serve'' # concat (map render (process_occurrences cfg))"
  by (simp add: process_arguments_def process_occurrences_def)

lemma occur_all_append: "occur_all (xs @ ys) a = Option.bind (occur_all xs a) (occur_all ys)"
  by (induction xs arbitrary: a) (auto split: bind_splits)

text \<open>Values of a spawned process read back.\<close>

lemma read_u64_print: "read_u64 (nat_to_string (unat x)) = Some x"
proof -
  have "unat x \<le> u64_max" using unsigned_less [of x, where ?'a = nat] by simp
  then show ?thesis by (simp add: read_u64_def parse_unsigned_nat_to_string)
qed

lemma read_mode_text: "read_mode (mode_text m) = Some (case m of Mock \<Rightarrow> ModeMock | Proxy \<Rightarrow> ModeProxy)"
  by (cases m) (simp_all add: read_mode_def mode_text_def)

definition plain_text :: "string \<Rightarrow> bool" where
  "plain_text v \<longleftrightarrow> \<not> starts_with v ''-''"

definition plain_path :: "string \<Rightarrow> bool" where
  "plain_path v \<longleftrightarrow> v \<noteq> [] \<and> plain_text v"

text \<open>A configuration that can be written on a command line.\<close>

definition command_line_safe :: "server_config \<Rightarrow> bool" where
  "command_line_safe cfg \<longleftrightarrow>
     well_formed_addr (http_addr cfg) \<and> well_formed_addr (grpc_addr cfg) \<and>
     pred_option plain_path (openapi_spec cfg) \<and> pred_option plain_path (asyncapi_spec cfg) \<and>
     pred_option plain_path (proto_spec cfg) \<and> pred_option plain_path (scenarios_spec cfg) \<and>
     pred_option plain_text (upstream cfg) \<and> plain_text (ws_path cfg) \<and>
     (mode cfg = Proxy \<longrightarrow> upstream cfg \<noteq> None)"

definition or_else :: "'a option \<Rightarrow> 'a option \<Rightarrow> 'a option" where
  "or_else p q = (case p of None \<Rightarrow> q | Some x \<Rightarrow> Some x)"

lemma or_else_None [simp]: "or_else p None = p"
  by (cases p) (simp_all add: or_else_def)

lemma occur_given_path:
  assumes "pred_option plain_path p"
  shows "occur_all (given ''openapi'' p) a = Some (a\<lparr>arg_openapi := or_else p (arg_openapi a)\<rparr>)"
    and "occur_all (given ''asyncapi'' p) a = Some (a\<lparr>arg_asyncapi := or_else p (arg_asyncapi a)\<rparr>)"
    and "occur_all (given ''proto'' p) a = Some (a\<lparr>arg_proto := or_else p (arg_proto a)\<rparr>)"
    and "occur_all (given ''scenarios'' p) a = Some (a\<lparr>arg_scenarios := or_else p (arg_scenarios a)\<rparr>)"
  using assms by (cases p; simp add: given_def or_else_def serve_options_def read_path_def plain_path_def)+

lemma occur_given_upstream:
  "occur_all (given ''upstream'' u) a = Some (a\<lparr>arg_upstream := or_else u (arg_upstream a)\<rparr>)"
  by (cases u) (simp_all add: given_def or_else_def serve_options_def)

lemma occur_switch:
  "occur_all (switch ''allow-private-upstream'' b) a =
     Some (a\<lparr>arg_allow_private_upstream := arg_allow_private_upstream a \<or> b\<rparr>)"
  "occur_all (switch ''no-control-endpoints'' b) a =
     Some (a\<lparr>arg_no_control_endpoints := arg_no_control_endpoints a \<or> b\<rparr>)"
  by (simp_all add: switch_def serve_options_def)

lemma occur_value:
  "occur (Given ''http-addr'' v) a = map_option (\<lambda>x. a\<lparr>arg_http_addr := x\<rparr>) (parse_socket_addr v)"
  "occur (Given ''grpc-addr'' v) a = map_option (\<lambda>x. a\<lparr>arg_grpc_addr := x\<rparr>) (parse_socket_addr v)"
  "occur (Given ''seed'' v) a = map_option (\<lambda>x. a\<lparr>arg_seed := x\<rparr>) (read_u64 v)"
  "occur (Given ''ws-path'' v) a = Some (a\<lparr>arg_ws_path := v\<rparr>)"
  "occur (Given ''mode'' v) a = map_option (\<lambda>x. a\<lparr>arg_mode := x\<rparr>) (read_mode v)"
  "occur (Given ''max-body-size'' v) a = map_option (\<lambda>x. a\<lparr>arg_max_body_size := x\<rparr>) (read_u64 v)"
  "occur (Given ''max-sessions'' v) a = map_option (\<lambda>x. a\<lparr>arg_max_sessions := x\<rparr>) (read_u64 v)"
  "occur (Given ''max-store-entries'' v) a = map_option (\<lambda>x. a\<lparr>arg_max_store_entries := x\<rparr>) (read_u64 v)"
  "occur (Given ''log-level'' v) a = map_option (\<lambda>x. a\<lparr>arg_log_level := x\<rparr>) (read_log_level v)"
  by (simp_all add: serve_options_def)

text \<open>The arguments a child process sees.\<close>

definition process_args :: "server_config \<Rightarrow> serve_args" where
  "process_args cfg =
     \<lparr>arg_openapi = openapi_spec cfg, arg_asyncapi = asyncapi_spec cfg, arg_proto = proto_spec cfg,
      arg_mode = (case mode cfg of Mock \<Rightarrow> ModeMock | Proxy \<Rightarrow> ModeProxy), arg_upstream = upstream cfg,
      arg_seed = config_seed cfg, arg_http_addr = http_addr cfg, arg_grpc_addr = grpc_addr cfg,
      arg_ws_path = ws_path cfg, arg_max_body_size = max_body_size cfg,
      arg_allow_private_upstream = allow_private_upstream cfg, arg_scenarios = scenarios_spec cfg,
      arg_max_sessions = config_max_sessions cfg, arg_max_store_entries = config_max_store_entries cfg,
      arg_log_level = LogInfo, arg_no_control_endpoints = (control_token cfg = None)\<rparr>"

lemma occur_process:
  assumes "command_line_safe cfg"
  shows "occur_all (process_occurrences cfg) serve_defaults = Some (process_args cfg)"
  using assms
  by (simp add: process_occurrences_def occur_all_append occur_value occur_given_path occur_given_upstream occur_switch
      command_line_safe_def parse_print_socket_addr read_u64_print read_mode_text read_log_level_def
      serve_defaults_def process_args_def del: occur.simps)

lemma serve_config_process:
  "serve_config hash (process_args cfg) =
     cfg\<lparr>control_token := map_option (\<lambda>_. mint_control_token hash) (control_token cfg)\<rparr>"
proof -
  have mode: "into_runtime_mode (case m of Mock \<Rightarrow> ModeMock | Proxy \<Rightarrow> ModeProxy) = m" for m
    by (cases m) simp_all
  show ?thesis
    by (cases cfg) (auto simp: serve_config_def process_args_def build_defs sdk_builder_def default_config_def mode Let_def
        split: option.split)
qed

text \<open>Every option of a child process is acceptable and occurs once.\<close>

lemma digits_plain: "\<not> starts_with (nat_to_string n) ''-''" "\<not> starts_with (nat_to_string n @ s) ''-''"
proof -
  have "hd (nat_to_string n) \<noteq> CHR ''-''"
    using nat_to_string_digits [of n] by (cases "nat_to_string n") (auto simp: ascii_defs)
  then show "\<not> starts_with (nat_to_string n) ''-''" "\<not> starts_with (nat_to_string n @ s) ''-''"
    by (cases "nat_to_string n"; auto simp: starts_with_def)+
qed

lemma socket_addr_plain: "well_formed_addr a \<Longrightarrow> \<not> starts_with (print_socket_addr a) ''-''"
proof (induction a rule: print_socket_addr.induct)
  case (1 octets p)
  then obtain x xs where "octets = x # xs" by (cases octets) auto
  then show ?case by (simp add: print_ipv4_Cons digits_plain)
qed (simp add: starts_with_def)

lemma acceptable_given:
  "pred_option plain_path p \<Longrightarrow> n \<in> {''openapi'', ''asyncapi'', ''proto'', ''scenarios''} \<Longrightarrow> list_all acceptable (given n p)"
  "pred_option plain_text p \<Longrightarrow> list_all acceptable (given ''upstream'' p)"
  by (cases p; auto simp: given_def plain_path_def plain_text_def serve_options_def)+

lemma acceptable_process:
  assumes "command_line_safe cfg"
  shows "list_all acceptable (process_occurrences cfg)"
proof -
  have "list_all acceptable (switch ''allow-private-upstream'' b)" "list_all acceptable (switch ''no-control-endpoints'' b)" for b
    by (simp_all add: switch_def serve_options_def)
  moreover have "\<not> starts_with (mode_text m) ''-''" for m by (cases m) (simp_all add: mode_text_def starts_with_def)
  moreover have "\<not> starts_with ''info'' ''-''" by (simp add: starts_with_def)
  ultimately show ?thesis
    using assms
    by (simp add: process_occurrences_def command_line_safe_def acceptable_given socket_addr_plain digits_plain plain_text_def)
      (simp add: serve_options_def)
qed

text \<open>The names that are present among distinct ones are distinct.\<close>

definition present :: "(string \<times> bool) list \<Rightarrow> string list" where
  "present ps = map fst (filter snd ps)"

lemma present_simps [simp]:
  "present [] = []" "present ((n, b) # ps) = (if b then n # present ps else present ps)"
  by (simp_all add: present_def)

lemma distinct_present: "distinct (map fst ps) \<Longrightarrow> distinct (present ps)"
  by (simp add: present_def distinct_map_filter)

lemma names_given:
  "map occ_name (given n v) = (if v \<noteq> None then [n] else [])" "map occ_name (switch n b) = (if b then [n] else [])"
  by (auto simp: given_def switch_def split: option.split)

lemma names_process:
  "map occ_name (process_occurrences cfg) =
     present ([(''http-addr'', True), (''grpc-addr'', True), (''seed'', True), (''ws-path'', True), (''mode'', True),
       (''openapi'', openapi_spec cfg \<noteq> None), (''asyncapi'', asyncapi_spec cfg \<noteq> None), (''proto'', proto_spec cfg \<noteq> None),
       (''upstream'', upstream cfg \<noteq> None), (''allow-private-upstream'', allow_private_upstream cfg),
       (''max-body-size'', True), (''max-sessions'', True), (''max-store-entries'', True),
       (''scenarios'', scenarios_spec cfg \<noteq> None), (''no-control-endpoints'', control_token cfg = None), (''log-level'', True)])"
  by (simp add: process_occurrences_def names_given del: not_None_eq)

lemma distinct_process: "distinct (map occ_name (process_occurrences cfg))"
  unfolding names_process by (rule distinct_present) simp

text \<open>
  C21. A server spawned as a process serves what the builder describes: the command line the SDK
  builds is accepted by the CLI and leads to the same configuration, apart from the control token,
  which the child mints itself. Among values, only texts that look like options and empty paths
  are excluded; IPv6 addresses are included.
\<close>

theorem process_configuration_roundtrip:
  assumes "clap_documented clap" and "command_line_safe cfg"
  shows "\<exists>args. clap (process_arguments cfg) = Some args \<and>
    serve_config hash args = cfg\<lparr>control_token := map_option (\<lambda>_. mint_control_token hash) (control_token cfg)\<rparr>"
proof (intro exI conjI)
  have "required_given (process_args cfg)"
    using assms(2) by (auto simp: required_given_def process_args_def command_line_safe_def split: mock_mode.splits)
  then show "clap (process_arguments cfg) = Some (process_args cfg)"
    using assms acceptable_process [OF assms(2)] distinct_process occur_process [OF assms(2)]
    by (simp add: clap_documented_def process_arguments_render)
  show "serve_config hash (process_args cfg) =
      cfg\<lparr>control_token := map_option (\<lambda>_. mint_control_token hash) (control_token cfg)\<rparr>"
    by (rule serve_config_process)
qed

text \<open>A parser with the documented behaviour.\<close>

fun read_options :: "string list \<Rightarrow> occurrence list option" where
  "read_options [] = Some []"
| "read_options (t # ts) =
     (case strip_prefix ''--'' t of
        None \<Rightarrow> None
      | Some n \<Rightarrow>
          (case (map_of serve_options n, ts) of
             (Some (SetTrue _), _) \<Rightarrow> map_option ((#) (Switch n)) (read_options ts)
           | (Some (SetValue _), v # ts') \<Rightarrow>
               if starts_with v ''-'' then None else map_option ((#) (Given n v)) (read_options ts')
           | _ \<Rightarrow> None))"

definition small_clap :: "string list \<Rightarrow> serve_args option" where
  "small_clap argv =
     (case argv of
        [] \<Rightarrow> None
      | command # rest \<Rightarrow>
          if command \<noteq> ''serve'' then None
          else Option.bind (read_options rest) (\<lambda>occs.
            if \<not> distinct (map occ_name occs) then None
            else Option.bind (occur_all occs serve_defaults) (\<lambda>a. if required_given a then Some a else None)))"

lemma read_options_render: "list_all acceptable occs \<Longrightarrow> read_options (concat (map render occs)) = Some occs"
proof (induction occs)
  case (Cons x occs)
  have strip: "strip_prefix ''--'' (CHR ''-'' # CHR ''-'' # n) = Some n" for n by (simp add: strip_prefix_def)
  from Cons show ?case by (cases x) (auto simp: strip)
qed simp

lemma small_clap_documented: "clap_documented small_clap"
  by (auto simp: clap_documented_def small_clap_def read_options_render)

definition demo_process :: server_config where
  "demo_process = default_config\<lparr>openapi_spec := Some ''pets.yaml'', http_addr := SocketAddr (V6 [0, 0, 0, 0, 0, 0, 0, 1]) 4010,
     control_token := Some ''secret''\<rparr>"

theorem process_configuration_roundtrip_witness:
  "\<exists>args. small_clap (process_arguments demo_process) = Some args \<and>
    serve_config 7 args = demo_process\<lparr>control_token := Some ''0000000000000007''\<rparr>"
proof -
  have "command_line_safe demo_process"
    by (simp add: command_line_safe_def demo_process_def default_config_def DEFAULT_GRPC_ADDR_def DEFAULT_WS_PATH_def
        plain_path_def plain_text_def starts_with_def)
  from process_configuration_roundtrip [OF small_clap_documented this, of 7]
  show ?thesis by (simp add: demo_process_def mint_seven)
qed

end
