(* ===== verification/Spec2Isabelle.thy ===== *)
theory Spec2Isabelle
  imports Store_Spec Store_Concurrent Scenario_Props Scenario_Concurrent Validate_Concurrent Faker_Spec Http_Props
    Config_Props Ws_Handler Instance_Concurrent System_Props Cli
begin

text \<open>
  A verification development for \<open>specmock\<close>, a contract-driven mock server: it reads an OpenAPI, an
  AsyncAPI or a protobuf contract and answers HTTP requests, WebSocket messages and gRPC calls with
  data generated from the contract's schemas. A scenario sidecar adds state: machines whose states
  decide which operations are legal, and a resource store per session.

  \<^bold>\<open>Parts and how they interact.\<close> A request reaches the HTTP handler, which matches its path, validates
  it, generates a response, and lets the scenario runtime overrule the response; in proxy mode it
  forwards the request and checks what comes back. WebSocket messages and gRPC calls take the same
  way with their own matching. All protocols share one scenario runtime, which keeps one instance
  (a machine state and a store) for every pair of scenario and session. The configuration is
  validated before anything starts; the SDK starts a server in the process or as a child process
  of the command line.

  \<^bold>\<open>Theories, bottom up.\<close> Sources are below \<open>src/crates/\<close>.
  \<^item> \<open>Prelude\<close>: machine integers, Rust strings as bytes, the used operations of the standard library,
    and the interfaces \<open>invariant_system\<close> (start states satisfy an invariant which steps keep) and
    \<open>codec\<close>. \<open>Floats\<close>: \<open>f32\<close> and \<open>f64\<close> as far as used. \<open>Json\<close>: \<open>serde_json::Value\<close>.
  \<^item> \<open>Store\<close>, \<open>Store_Spec\<close>, \<open>Store_Concurrent\<close>: \<open>specmock-core/src/store.rs\<close>. The record \<open>store\<close> has the
    fields of \<open>Store\<close>; \<open>store_create\<close> and its siblings are the methods run one at a time. The
    interface \<open>resource_store\<close> states their contract over an abstract view; \<open>Store_Spec\<close> shows the
    store observationally equal to a list of resources. \<open>Store_Concurrent\<close> has \<open>create\<close> and \<open>delete\<close>
    as programs over the concurrent maps and the atomic counter, interleaved without restriction.
  \<^item> \<open>Scenario\<close>: \<open>scenario.rs\<close>, machines and the search for unreachable states, exact with respect to
    the reachability relation. \<open>Sidecar\<close>: \<open>sidecar.rs\<close>, the wire types and their validation, exact
    with respect to a declarative rule set.
  \<^item> \<open>Errors\<close>: \<open>error.rs\<close>. \<open>Ref_Resolver\<close>: \<open>ref_resolver.rs\<close>, resolution with the cache threaded as
    state, and a resolver without a cache it is equal to. \<open>Validate\<close>,
    \<open>Validate_Concurrent\<close>: \<open>validate.rs\<close>, the cache of compiled validators and its key, run one
    call at a time and as a program of several threads over the shared map. \<open>Faker\<close>, \<open>Faker_Spec\<close>: \<open>faker.rs\<close>, \<open>schema.rs\<close> and \<open>contract.rs\<close>,
    generation over an arbitrary random-number library, and an independent conformance relation.
  \<^item> \<open>Router\<close>: \<open>specmock-runtime/src/http/router.rs\<close> with the interface \<open>route_table\<close>. \<open>Media\<close>:
    \<open>media.rs\<close> with a reader for the XML that is written. \<open>Openapi_Types\<close>, \<open>Negotiate\<close>: \<open>negotiate.rs\<close>.
    \<open>Openapi\<close>, \<open>Openapi_Props\<close>: \<open>openapi.rs\<close>, parsing, request validation and mock responses.
  \<^item> \<open>Runtime_Base\<close>, \<open>Config\<close>, \<open>Config_Props\<close>: \<open>specmock-runtime/src/lib.rs\<close>, the error type, seeds,
    configuration, and the guard against private upstreams.
  \<^item> \<open>Scenario_Runtime\<close>, \<open>Scenario_Props\<close>, \<open>Scenario_Concurrent\<close>, \<open>Instance_Concurrent\<close>:
    \<open>http/scenarios.rs\<close>. \<open>resolve_with\<close> is the resolution of one request; \<open>acquire_step\<close> is the lookup
    and creation of an instance as a concurrent program, and \<open>session_step\<close> what requests and resets
    of one session do to its instance, lock by lock; alone, they are the sequential operations.
  \<^item> \<open>Asyncapi\<close>: \<open>ws/asyncapi.rs\<close>. \<open>Http\<close>, \<open>Http_Props\<close>: \<open>http/mod.rs\<close> and \<open>http/proxy.rs\<close>; the handler
    threads the record \<open>http_runtime\<close>. \<open>Ws_Handler\<close>: \<open>http/ws_handler.rs\<close>. \<open>Grpc\<close>: \<open>grpc/protobuf.rs\<close>.
  \<^item> \<open>Lifecycle\<close>: \<open>start\<close>, \<open>shutdown\<close>, the destructor, the relay and the accept loops of \<open>lib.rs\<close>,
    \<open>http/mod.rs\<close> and \<open>grpc/protobuf.rs\<close>. \<open>start\<close> is a function that also returns the tasks left
    running; shutdown is a step relation of the caller and the tasks.
  \<^item> \<open>System\<close>, \<open>System_Props\<close>: the running server, every handler as an event over the shared scenario
    runtime, with WebSocket connections message by message.
  \<^item> \<open>Address_Text\<close>: socket addresses printed and read back, IPv6 included. \<open>Sdk\<close>:
    \<open>specmock-sdk/src/server.rs\<close>. \<open>Cli\<close>: \<open>src/bin/spec-mock/src/main.rs\<close>.

  \<^bold>\<open>How the code is modelled.\<close> A function with early returns is a nest of cases over a sum whose left
  side is the error; a method that changes its object returns the changed record. A \<open>BTreeMap\<close> is
  an association list sorted by key, a \<open>HashMap\<close> one with distinct keys. \<open>u8\<close> to \<open>u64\<close> and \<open>usize\<close> are
  words of 8 to 64 bits, with wrap-around. A panic is a value (\<open>TaskPanic\<close>, \<open>GenPanic\<close>, \<open>WsPanic\<close>)
  that ends the task. Handlers run one at a time in \<open>Scenario_Runtime\<close>, \<open>Http\<close>, \<open>Ws_Handler\<close>, \<open>Grpc\<close> and
  \<open>System\<close>; the races between handlers, on the store, on the session cap, on the state of one session and
  on the validator cache, have their own theories, \<open>Store_Concurrent\<close> and its three siblings.

  \<^bold>\<open>Parameters.\<close> What is not in the repository is an argument: the JSON, YAML, URL and header libraries
  (records \<open>web\<close> and \<open>filesystem\<close>), the JSON-schema compiler and the hash (\<open>Validate\<close>), the random
  and regular-expression samplers (\<open>Faker\<close>), protobuf descriptors and coding (\<open>proto_lib\<close>), serde's
  derived readers (\<open>sidecar_parse\<close>), the operating system (\<open>platform\<close>, \<open>process_host\<close>), the notifier
  of tokio (\<open>notifier\<close>) and the argument parser of clap. Where a property needs documented behaviour
  of one of them, the hypothesis is named and has an instance that satisfies it: \<open>notify_documented\<close>,
  \<open>clap_documented\<close>, the sampler laws of \<open>Faker_Spec\<close>.

  \<^bold>\<open>What the lemmas show.\<close>
  \<^item> Store: refinement of a log; the capacity is never exceeded under any interleaving; a race that
    loses a listing.
  \<^item> Scenarios: exact validation, closed machines, soundness of every reachable runtime, isolation of
    sessions, nothing moves for a refused request, what store actions read back, resets, and by how
    much concurrent requests can exceed the session cap. Concurrent requests of one session are
    answered by the state they saw, and a reset can lose to a request under way.
  \<^item> Resolver and validator: their caches are unobservable and bounded; no reference is left in a
    resolved document; files outside the allowed roots have no influence; cache keys are injective;
    what concurrent validations answer, a race between them, and how far the cache outgrows its limit.
  \<^item> Generator: generated values conform to their schemas, and which constraints it cannot meet.
  \<^item> Routing, negotiation, OpenAPI: the best declared operation is found exactly when there is one;
    what is answered is declared; \<open>Location\<close> headers name the request path.
  \<^item> Servers: HTTP effects only for valid requests, the proxy contract, the guarded control endpoints,
    the rate limit, gRPC framing and the status every call ends with, the channel that answers a
    message. Start and shutdown: what runs afterwards, and that shutdown completes under every
    schedule. System: an invariant of all protocols together, and that an event leaves the sessions
    it does not name alone, so that a client reads back what it created whatever others do.
  \<^item> SDK and command line: a child process is configured as the builder says; waiting for it ends.

  \<^bold>\<open>Termination, bounds and fuel.\<close> Recursive functions are total: the resolver by its depth limit (64
  by default), the generator and the protobuf generator by theirs (32), the route walk by the path,
  the reachability search by the states not yet seen. Fuel appears twice: \<open>drain\<close> reads the frames of
  a gRPC body, and two more than there are data frames suffice; \<open>wait_rounds\<close> polls a listener, and 126
  rounds suffice because each sleeps 40 milliseconds of a timeout of 5 seconds. A shutdown takes at
  most eleven steps of the server's own and one for each HTTP connection.

  \<^bold>\<open>Not modelled.\<close> The bodies of the libraries above; logging and the wait for Ctrl-C in \<open>main\<close>; the HTTP
  and WebSocket wire protocols, which axum and hyper implement. Inline tests, test
  harnesses, fuzz targets and examples hold no behaviour of the program.
\<close>

end
